(* ===== verification/Prelude.thy ===== *)
theory Prelude
  imports Main "HOL-Library.Word" "HOL-Library.Signed_Division"
begin

text \<open>
  Shared vocabulary of the development: the machine types of the Go sources, results that
  carry an error, the decimal digit strings that \<open>fmt\<close> and \<open>strconv\<close> produce and read, and
  the generic lemmas on them. Go strings are byte strings, here \<open>string\<close> (lists of 8-bit
  characters). \<open>int64\<close> is \<open>64 word\<close>: \<open>+\<close>, \<open>-\<close> and \<open>*\<close> wrap as Go's do, \<open><s\<close> is Go's signed
  comparison, and \<open>sint\<close> reads the two's-complement value.
\<close>

type_synonym int64 = "64 word"
type_synonym uint64 = "64 word"

text \<open>A \<open>uuid.UUID\<close> is an array of 16 bytes; \<open>uuid.Nil\<close> is the array of zeros.\<close>

type_synonym uuid = "128 word"

abbreviation uuid_Nil :: uuid where
  "uuid_Nil \<equiv> 0"

text \<open>
  A \<open>time.Time\<close> is an instant: nanoseconds since January 1 of year 1, 00:00 UTC, the instant
  for which \<open>IsZero\<close> holds. A \<open>time.Duration\<close> is an \<open>int64\<close> count of nanoseconds.
\<close>

type_synonym time = int
type_synonym duration = int64

definition time_IsZero :: "time \<Rightarrow> bool" where
  "time_IsZero t \<longleftrightarrow> t = 0"

definition time_Add :: "time \<Rightarrow> duration \<Rightarrow> time" where
  "time_Add t d = t + sint d"

text \<open>\<open>Time.Sub\<close> saturates at the ends of the \<open>Duration\<close> range.\<close>

definition time_Sub :: "time \<Rightarrow> time \<Rightarrow> duration" where
  "time_Sub t u = word_of_int (max (- (2 ^ 63)) (min (2 ^ 63 - 1) (t - u)))"

text \<open>A \<open>timestamptz\<close> column keeps microseconds; pgx cuts the nanoseconds off.\<close>

definition timestamptz :: "time \<Rightarrow> time" where
  "timestamptz t = t div 1000 * 1000"

lemma timestamptz_idem [simp]: "timestamptz (timestamptz t) = timestamptz t"
  by (simp add: timestamptz_def)

lemma timestamptz_mono: "t \<le> u \<Longrightarrow> timestamptz t \<le> timestamptz u"
  by (simp add: timestamptz_def zdiv_mono1)

named_theorems int64_simps \<open>signed readings of 64-bit operations\<close>

section \<open>64-bit signed arithmetic\<close>

definition fits64 :: "int \<Rightarrow> bool" where
  "fits64 i \<longleftrightarrow> - (2 ^ 63) \<le> i \<and> i < 2 ^ 63"

definition MinInt64 :: int64 where
  "MinInt64 = word_of_int (- (2 ^ 63))"

lemma fits64_sint [simp, intro]: "fits64 (sint (a :: int64))"
  using sint_ge [of a] sint_lt [of a] by (simp add: fits64_def)

lemma sint_bounds64: "- 9223372036854775808 \<le> sint (a :: int64)" "sint (a :: int64) < 9223372036854775808"
  using sint_ge [of a] sint_lt [of a] by simp_all

lemma sint_of_int64: "sint (word_of_int i :: int64) = (i + 2 ^ 63) mod 2 ^ 64 - 2 ^ 63"
  by (simp add: sint_sbintrunc' signed_take_bit_eq_take_bit_shift take_bit_eq_mod)

lemma sint_of_int64_fits [int64_simps]: "fits64 i \<Longrightarrow> sint (word_of_int i :: int64) = i"
  by (simp add: sint_of_int64 fits64_def)

lemma word_of_sint64 [simp]: "(word_of_int (sint a) :: int64) = a"
  by simp

lemma sint_MinInt64 [simp]: "sint MinInt64 = - 9223372036854775808"
  by (simp add: MinInt64_def sint_of_int64)

lemma uminus_MinInt64 [simp]: "- MinInt64 = MinInt64"
  by (simp add: MinInt64_def)

lemma int64_eq_iff: "(a :: int64) = b \<longleftrightarrow> sint a = sint b"
  by (simp add: word_eq_iff_signed)

lemma sless64 [int64_simps]: "(a :: int64) <s b \<longleftrightarrow> sint a < sint b"
  by (simp add: word_sless_alt)

lemma sle64 [int64_simps]: "(a :: int64) \<le>s b \<longleftrightarrow> sint a \<le> sint b"
  by (simp add: word_sle_eq)

lemma int64_homs:
  "(word_of_int (sint a + sint b) :: int64) = a + b"
  "(word_of_int (sint a - sint b) :: int64) = a - b"
  "(word_of_int (sint a * sint b) :: int64) = a * b"
  by (metis wi_hom_add wi_hom_sub wi_hom_mult word_of_sint64)+

lemma sint_add64: "sint ((a :: int64) + b) = (sint a + sint b + 2 ^ 63) mod 2 ^ 64 - 2 ^ 63"
proof -
  have "a + b = word_of_int (sint a + sint b)" by (simp only: int64_homs)
  then show ?thesis by (simp only: sint_of_int64)
qed

lemma wrap64_cases:
  fixes s :: int
  assumes "- (2 ^ 64) \<le> s" and "s < 2 ^ 64"
  shows "(s + 2 ^ 63) mod 2 ^ 64 - 2 ^ 63 =
     (if - (2 ^ 63) \<le> s \<and> s < 2 ^ 63 then s else if s < 0 then s + 2 ^ 64 else s - 2 ^ 64)"
proof -
  consider "s < - (2 ^ 63)" | "- (2 ^ 63) \<le> s" "s < 2 ^ 63" | "2 ^ 63 \<le> s" by linarith
  then show ?thesis
  proof cases
    case 1
    with assms have "(s + 2 ^ 63 + 2 ^ 64) mod 2 ^ 64 = s + 2 ^ 63 + 2 ^ 64"
      by (intro mod_pos_pos_trivial) simp_all
    then have "(s + 2 ^ 63) mod 2 ^ 64 = s + 2 ^ 63 + 2 ^ 64"
      by (simp only: mod_add_self2)
    with 1 show ?thesis by simp
  next
    case 2
    then show ?thesis by simp
  next
    case 3
    with assms have "(s + 2 ^ 63 - 2 ^ 64) mod 2 ^ 64 = s + 2 ^ 63 - 2 ^ 64"
      by (intro mod_pos_pos_trivial) simp_all
    then have "(s + 2 ^ 63) mod 2 ^ 64 = s + 2 ^ 63 - 2 ^ 64"
      by (simp only: minus_mod_self2)
    with 3 show ?thesis by simp
  qed
qed

lemma sint_add64_cases:
  "sint ((a :: int64) + b) =
     (if fits64 (sint a + sint b) then sint a + sint b
      else if sint a + sint b < 0 then sint a + sint b + 2 ^ 64
      else sint a + sint b - 2 ^ 64)"
proof -
  let ?s = "sint a + sint b"
  have "- (2 ^ 64) \<le> ?s" and "?s < 2 ^ 64"
    using sint_bounds64 [of a] sint_bounds64 [of b] by simp_all
  then have "(?s + 2 ^ 63) mod 2 ^ 64 - 2 ^ 63 =
     (if fits64 ?s then ?s else if ?s < 0 then ?s + 2 ^ 64 else ?s - 2 ^ 64)"
    unfolding fits64_def by (rule wrap64_cases)
  then show ?thesis by (simp only: sint_add64)
qed

lemma sint_uminus64: "a \<noteq> MinInt64 \<Longrightarrow> sint (- a) = - sint a"
proof -
  assume "a \<noteq> MinInt64"
  then have "sint a \<noteq> sint MinInt64" by (simp only: int64_eq_iff) simp
  then have "fits64 (- sint a)"
    using sint_bounds64 [of a] by (simp add: fits64_def)
  moreover have "- a = word_of_int (- sint a)" by simp
  ultimately show ?thesis by (simp only: sint_of_int64_fits)
qed

text \<open>Go's \<open>/\<close> on \<open>int64\<close> truncates towards zero (and wraps for \<open>MinInt64 / -1\<close>).\<close>

definition go_div64 :: "int64 \<Rightarrow> int64 \<Rightarrow> int64" where
  "go_div64 a b = word_of_int (sint a sdiv sint b)"

section \<open>Results that carry an error\<close>

text \<open>
  A Go function that returns \<open>(T, error)\<close> returns \<open>error + T\<close> here: \<open>Inl\<close> the error, \<open>Inr\<close>
  the value. \<open>bindR\<close> is the \<open>if err != nil { return err }\<close> of the sources.
\<close>

definition bindR :: "'e + 'a \<Rightarrow> ('a \<Rightarrow> 'e + 'b) \<Rightarrow> 'e + 'b" where
  "bindR r f = (case r of Inl e \<Rightarrow> Inl e | Inr x \<Rightarrow> f x)"

definition mapErr :: "('e \<Rightarrow> 'e) \<Rightarrow> 'e + 'a \<Rightarrow> 'e + 'a" where
  "mapErr g r = (case r of Inl e \<Rightarrow> Inl (g e) | Inr x \<Rightarrow> Inr x)"

lemma bindR_simps [simp]: "bindR (Inl e) f = Inl e" "bindR (Inr x) f = f x"
  by (simp_all add: bindR_def)

lemma mapErr_simps [simp]: "mapErr g (Inl e) = Inl (g e)" "mapErr g (Inr x) = Inr x"
  by (simp_all add: mapErr_def)

lemma mapErr_Inr_iff [simp]: "mapErr g r = Inr x \<longleftrightarrow> r = Inr x"
  by (cases r) simp_all

lemma bindR_Inr_iff: "bindR r f = Inr y \<longleftrightarrow> (\<exists>x. r = Inr x \<and> f x = Inr y)"
  by (cases r) simp_all

text \<open>A loop that converts a list and returns at the first error.\<close>

fun mapR :: "('a \<Rightarrow> 'e + 'b) \<Rightarrow> 'a list \<Rightarrow> 'e + 'b list" where
  "mapR f [] = Inr []"
| "mapR f (x # xs) = bindR (f x) (\<lambda>y. bindR (mapR f xs) (\<lambda>ys. Inr (y # ys)))"

lemma mapR_Inr_iff: "mapR f xs = Inr ys \<longleftrightarrow> list_all2 (\<lambda>x y. f x = Inr y) xs ys"
  by (induction xs arbitrary: ys) (auto simp: bindR_Inr_iff list_all2_Cons1)

lemma mapR_total: "(\<And>x. x \<in> set xs \<Longrightarrow> f x = Inr (g x)) \<Longrightarrow> mapR f xs = Inr (map g xs)"
  by (induction xs) simp_all

section \<open>Decimal digit strings\<close>

definition is_digit :: "char \<Rightarrow> bool" where
  "is_digit c \<longleftrightarrow> 48 \<le> (of_char c :: nat) \<and> (of_char c :: nat) \<le> 57"

definition is_upper :: "char \<Rightarrow> bool" where
  "is_upper c \<longleftrightarrow> 65 \<le> (of_char c :: nat) \<and> (of_char c :: nat) \<le> 90"

definition digit_char :: "nat \<Rightarrow> char" where
  "digit_char d = char_of (48 + d)"

definition char_digit :: "char \<Rightarrow> nat" where
  "char_digit c = of_char c - 48"

text \<open>\<open>%d\<close> of an unsigned value.\<close>

fun show_nat :: "nat \<Rightarrow> string" where
  "show_nat n = (if n < 10 then [digit_char n] else show_nat (n div 10) @ [digit_char (n mod 10)])"

declare show_nat.simps [simp del]

text \<open>\<open>%02d\<close> of a value below 100.\<close>

definition show_pad2 :: "nat \<Rightarrow> string" where
  "show_pad2 n = [digit_char (n div 10), digit_char (n mod 10)]"

text \<open>The value of a string of digits, most significant first.\<close>

definition digits_val :: "string \<Rightarrow> nat" where
  "digits_val s = foldl (\<lambda>acc c. 10 * acc + char_digit c) 0 s"

lemma of_char_digit_char: "d < 10 \<Longrightarrow> of_char (digit_char d) = 48 + d"
  by (simp add: digit_char_def)

lemma is_digit_digit_char [simp]: "d < 10 \<Longrightarrow> is_digit (digit_char d)"
  by (simp add: is_digit_def of_char_digit_char)

lemma char_digit_digit_char [simp]: "d < 10 \<Longrightarrow> char_digit (digit_char d) = d"
  by (simp add: char_digit_def of_char_digit_char)

lemma char_digit_less: "is_digit c \<Longrightarrow> char_digit c < 10"
  by (auto simp: is_digit_def char_digit_def)

lemma digit_char_char_digit: "is_digit c \<Longrightarrow> digit_char (char_digit c) = c"
  by (auto simp: is_digit_def char_digit_def digit_char_def)

lemma digits_val_Nil [simp]: "digits_val [] = 0"
  by (simp add: digits_val_def)

lemma digits_val_snoc [simp]: "digits_val (s @ [c]) = 10 * digits_val s + char_digit c"
  by (simp add: digits_val_def)

lemma digits_val_show_nat [simp]: "digits_val (show_nat n) = n"
proof (induction n rule: show_nat.induct)
  case (1 n)
  show ?case
  proof (cases "n < 10")
    case True
    then show ?thesis
      using digits_val_snoc [of "[]" "digit_char n"] by (simp add: show_nat.simps [of n])
  next
    case False
    with 1 show ?thesis by (simp add: show_nat.simps [of n])
  qed
qed

lemma show_nat_digits: "list_all is_digit (show_nat n)"
proof (induction n rule: show_nat.induct)
  case (1 n)
  then show ?case by (cases "n < 10") (simp_all add: show_nat.simps [of n])
qed

lemma show_nat_nonempty [simp]: "show_nat n \<noteq> []"
  by (subst show_nat.simps) simp

lemma takeWhile_digits_append:
  "list_all is_digit s \<Longrightarrow> \<not> is_digit c \<Longrightarrow> takeWhile is_digit (s @ c # t) = s"
  by (induction s) simp_all

lemma dropWhile_digits_append:
  "list_all is_digit s \<Longrightarrow> \<not> is_digit c \<Longrightarrow> dropWhile is_digit (s @ c # t) = c # t"
  by (induction s) simp_all

lemma show_pad2_digits: "n < 100 \<Longrightarrow> list_all is_digit (show_pad2 n)"
  by (simp add: show_pad2_def)

lemma digits_val_two: "digits_val [c, d] = 10 * char_digit c + char_digit d"
  by (simp add: digits_val_def)

lemma digits_val_show_pad2 [simp]: "n < 100 \<Longrightarrow> digits_val (show_pad2 n) = n"
  by (simp add: show_pad2_def digits_val_two)

end
