(* ===== verification/Errors.thy ===== *)
theory Errors
  imports Prelude
begin

text \<open>
  The error values of the program. Every package declares sentinels with \<open>errors.New\<close>; they
  are the constructors of one datatype per package, joined in \<open>goerr\<close>. \<open>fmt.Errorf\<close> with a
  \<open>%w\<close> verb wraps an error: \<open>WrapErr s e\<close> keeps the wrapped error \<open>e\<close> and the text or the
  formatted argument \<open>s\<close>. \<open>PgErr\<close> is an error reported by PostgreSQL (its SQLSTATE and the
  constraint it names), \<open>DriverErr\<close> any other failure of a driver, the network or a context.
\<close>

datatype money_error =
    ErrEmptyAmount | ErrInvalidFormat | ErrOverflow | ErrMoneyCurrencyMismatch
  | ErrNegativeAmount | ErrInvalidCurrency

datatype wallet_error =
    ErrCurrencyMismatch | ErrAmountNotPositive | ErrInsufficientBalance | ErrInvalidWallet

datatype ledger_error =
    ErrInvalidDirection | ErrLedgerInvariant | ErrInvalidLedgerEntry

datatype journal_error =
    ErrInvalidEntry | ErrSameAccount | ErrNotBalanced | ErrInvalidAccount

datatype wagertx_error =
    ErrInvalidTransaction | ErrInvalidKind | ErrInvalidStatus | ErrInvalidTransition
  | ErrTerminalState | ErrOpeningNotExternal | ErrReferenceRequired | ErrReferenceNotApplicable
  | ErrInvalidAmountForKind

datatype app_error =
    ErrNotFound | ErrWalletAlreadyExists | ErrIdempotencyConflict | ErrOperationIdentityConflict
  | ErrConcurrencyConflict | ErrWalletMismatch | ErrForbidden

datatype goerr =
    MoneyErr money_error
  | WalletErr wallet_error
  | LedgerErr ledger_error
  | JournalErr journal_error
  | TxErr wagertx_error
  | EventErr \<comment> \<open>\<open>event.ErrInvalidEvent\<close>\<close>
  | AppErr app_error
  | ErrPermanent \<comment> \<open>\<open>queue.errPermanent\<close>\<close>
  | ErrVerifierNotReady \<comment> \<open>\<open>httpapi.errVerifierNotReady\<close>\<close>
  | InvalidFieldErr string \<comment> \<open>\<open>httpapi.invalidFieldError\<close>\<close>
  | PgErr string string
  | DriverErr string
  | WrapErr string goerr

text \<open>\<open>errors.Is\<close>: the error or one that it wraps is the target.\<close>

fun errors_Is :: "goerr \<Rightarrow> goerr \<Rightarrow> bool" where
  "errors_Is (WrapErr s e) target \<longleftrightarrow> WrapErr s e = target \<or> errors_Is e target"
| "errors_Is e target \<longleftrightarrow> e = target"

lemma errors_Is_refl [simp]: "errors_Is e e"
  by (cases e) simp_all

text \<open>The error at the end of the chain of \<open>%w\<close>.\<close>

fun root_cause :: "goerr \<Rightarrow> goerr" where
  "root_cause (WrapErr s e) = root_cause e"
| "root_cause e = e"

lemma root_cause_not_WrapErr [simp]: "root_cause e \<noteq> WrapErr s e'"
  by (induction e) simp_all

text \<open>For a target that wraps nothing, as every sentinel is, \<open>errors.Is\<close> looks at the root.\<close>

lemma errors_Is_root_cause:
  "(\<And>s e'. target \<noteq> WrapErr s e') \<Longrightarrow> errors_Is e target \<longleftrightarrow> root_cause e = target"
  by (induction e) (auto; metis)+

lemma errors_Is_sentinels [simp]:
  "errors_Is e (MoneyErr m) \<longleftrightarrow> root_cause e = MoneyErr m"
  "errors_Is e (WalletErr w) \<longleftrightarrow> root_cause e = WalletErr w"
  "errors_Is e (LedgerErr l) \<longleftrightarrow> root_cause e = LedgerErr l"
  "errors_Is e (JournalErr j) \<longleftrightarrow> root_cause e = JournalErr j"
  "errors_Is e (TxErr t) \<longleftrightarrow> root_cause e = TxErr t"
  "errors_Is e (AppErr a) \<longleftrightarrow> root_cause e = AppErr a"
  "errors_Is e ErrPermanent \<longleftrightarrow> root_cause e = ErrPermanent"
  by (rule errors_Is_root_cause, simp)+

end
