(* ===== verification/Environment.thy ===== *)
theory Environment
  imports Errors
begin

text \<open>
  What the program takes from outside its sources, as one record that every operation receives:
  the functions of \<open>github.com/google/uuid\<close>, the identifiers and clock readings the process
  draws, the clock of the database, the trace context, the context's cancellation and the failures
  of the database driver. The draws are streams indexed by how many draws came before; \<open>world\<close>
  holds the indices. A failing call of the driver either leaves its transaction usable
  (\<open>CallFailed\<close>) or loses the connection and with it the transaction (\<open>ConnLost\<close>); in both cases
  nothing of the statement is kept. A commit can succeed, fail with nothing stored, or fail at the
  client after the server has committed.
\<close>

datatype driver_failure = CallFailed string | ConnLost string

datatype commit_outcome = CommitOk | CommitLost string | CommitUnacknowledged string

record env =
  uuid_String :: "uuid \<Rightarrow> string"
  uuid_Parse :: "string \<Rightarrow> uuid option"
  fresh_uuid :: "nat \<Rightarrow> uuid"
  clock_Now :: "nat \<Rightarrow> time"
  pg_now :: "nat \<Rightarrow> time"
  traceparent :: "nat \<Rightarrow> string"
  ctx_Err :: "nat \<Rightarrow> string option"
  driver_fault :: "nat \<Rightarrow> driver_failure option"
  commit_result :: "nat \<Rightarrow> commit_outcome"

text \<open>A concrete environment for examples: identifiers count from 1000, clocks stand still,
  nothing fails, and the text of an identifier is its number.\<close>

definition calm_env :: env where
  "calm_env = \<lparr>uuid_String = (\<lambda>u. show_nat (unat u)),
     uuid_Parse = (\<lambda>s. if s = [] \<or> \<not> list_all is_digit s then None else Some (of_nat (digits_val s))),
     fresh_uuid = (\<lambda>n. of_nat (1000 + n)), clock_Now = (\<lambda>_. 1000000), pg_now = (\<lambda>_. 1000000),
     traceparent = (\<lambda>_. []), ctx_Err = (\<lambda>_. None),
     driver_fault = (\<lambda>_. None), commit_result = (\<lambda>_. CommitOk)\<rparr>"

end
