(* ===== verification/GoTime.thy ===== *)
theory GoTime
  imports Prelude
begin

text \<open>
  \<open>Time.UTC().Format(time.RFC3339Nano)\<close> of Go's standard library: the civil date of an instant
  (proleptic Gregorian calendar, the year of the calculation starting on March 1) and its text
  \<open>2006-01-02T15:04:05.999999999Z\<close>, where trailing zeros of the fraction are dropped.
\<close>

definition nanos_per_day :: int where
  "nanos_per_day = 86400000000000"

text \<open>Days are counted from January 1 of year 1. An era has 400 years, 146097 days; within it come
  centuries of 36524 days (the last one has a day more), groups of four years of 1461 days (the last
  group of a century has a day less, but for the last century) and years of 365 days.\<close>

definition civil_from_days :: "int \<Rightarrow> int \<times> nat \<times> nat" where
  "civil_from_days d =
     (let z = d + 306;
          era = z div 146097;
          doe = z mod 146097;
          cent = min 3 (doe div 36524);
          r = doe - 36524 * cent;
          group = r div 1461;
          s = r - 1461 * group;
          e = min 3 (s div 365);
          yoe = 100 * cent + 4 * group + e;
          doy = s - 365 * e;
          mp = (5 * doy + 2) div 153;
          day = doy - (153 * mp + 2) div 5 + 1;
          month = (if mp < 10 then mp + 3 else mp - 9);
          year = yoe + era * 400 + (if month \<le> 2 then 1 else 0)
      in (year, nat month, nat day))"

text \<open>\<open>appendInt\<close>: decimal, padded with zeros to the width, the sign in front.\<close>

definition show_padded :: "nat \<Rightarrow> nat \<Rightarrow> string" where
  "show_padded width n = replicate (width - length (show_nat n)) CHR ''0'' @ show_nat n"

definition show_year :: "int \<Rightarrow> string" where
  "show_year y = (if y < 0 then ''-'' else []) @ show_padded 4 (nat \<bar>y\<bar>)"

definition show_fraction :: "nat \<Rightarrow> string" where
  "show_fraction ns =
     (if ns = 0 then []
      else ''.'' @ rev (dropWhile (\<lambda>c. c = CHR ''0'') (rev (show_padded 9 ns))))"

definition rfc3339nano :: "time \<Rightarrow> string" where
  "rfc3339nano t =
     (let (y, m, d) = civil_from_days (t div nanos_per_day);
          ns = nat (t mod nanos_per_day);
          secs = ns div 1000000000
      in show_year y @ ''-'' @ show_pad2 m @ ''-'' @ show_pad2 d @ ''T''
         @ show_pad2 (secs div 3600) @ '':'' @ show_pad2 (secs div 60 mod 60) @ '':''
         @ show_pad2 (secs mod 60) @ show_fraction (ns mod 1000000000) @ ''Z'')"

section \<open>Reading a time\<close>

text \<open>
  \<open>time.Parse(time.RFC3339Nano, value)\<close>. The hour may have one digit, the fraction any number of
  digits after a point or a comma (the tenth and later ones are ignored), and an offset up to 24
  hours and 60 minutes; every other part has a fixed width.
\<close>

definition leap_year :: "int \<Rightarrow> bool" where
  "leap_year y \<longleftrightarrow> y mod 4 = 0 \<and> (y mod 100 \<noteq> 0 \<or> y mod 400 = 0)"

definition daysIn :: "nat \<Rightarrow> int \<Rightarrow> nat" where
  "daysIn m y = (if m = 2 then (if leap_year y then 29 else 28) else if m \<in> {4, 6, 9, 11} then 30 else 31)"

definition days_from_civil :: "int \<Rightarrow> nat \<Rightarrow> nat \<Rightarrow> int" where
  "days_from_civil y m d =
     (let y' = (if m \<le> 2 then y - 1 else y);
          mp = (if m \<le> 2 then int m + 9 else int m - 3);
          yoe = y' mod 400
      in y' div 400 * 146097 + yoe * 365 + yoe div 4 - yoe div 100 + (153 * mp + 2) div 5 + int d - 1 - 306)"

fun getnum2 :: "string \<Rightarrow> (nat \<times> string) option" where
  "getnum2 (a # b # t) = (if is_digit a \<and> is_digit b then Some (10 * char_digit a + char_digit b, t) else None)"
| "getnum2 _ = None"

fun getnum :: "string \<Rightarrow> (nat \<times> string) option" where
  "getnum (a # t) =
     (if \<not> is_digit a then None
      else case t of
        b # t' \<Rightarrow> if is_digit b then Some (10 * char_digit a + char_digit b, t') else Some (char_digit a, t)
      | [] \<Rightarrow> Some (char_digit a, []))"
| "getnum [] = None"

definition get_year :: "string \<Rightarrow> (nat \<times> string) option" where
  "get_year s = (if 4 \<le> length s \<and> list_all is_digit (take 4 s) then Some (digits_val (take 4 s), drop 4 s) else None)"

fun expect :: "char \<Rightarrow> string \<Rightarrow> string option" where
  "expect c (d # t) = (if c = d then Some t else None)"
| "expect c [] = None"

text \<open>The fraction, in nanoseconds; it is absent unless a digit follows the point.\<close>

definition get_fraction :: "string \<Rightarrow> nat \<times> string" where
  "get_fraction s =
     (case s of
        p # d # t \<Rightarrow>
          if (p = CHR ''.'' \<or> p = CHR '','') \<and> is_digit d
          then (let ds = takeWhile is_digit (d # t); used = take 9 ds
                in (digits_val used * 10 ^ (9 - length used), drop (length ds) (d # t)))
          else (0, s)
      | _ \<Rightarrow> (0, s))"

text \<open>The offset from UTC in seconds.\<close>

definition get_zone :: "string \<Rightarrow> (int \<times> string) option" where
  "get_zone s =
     (case s of
        CHR ''Z'' # t \<Rightarrow> Some (0, t)
      | sign # t \<Rightarrow>
          Option.bind (getnum2 t) (\<lambda>(hr, t). Option.bind (expect (CHR '':'') t) (\<lambda>t.
          Option.bind (getnum2 t) (\<lambda>(mm, t).
            if hr > 24 \<or> mm > 60 then None
            else if sign = CHR ''+'' then Some (int (hr * 60 + mm) * 60, t)
            else if sign = CHR ''-'' then Some (- (int (hr * 60 + mm) * 60), t)
            else None)))
      | [] \<Rightarrow> None)"

definition parse_rfc3339nano :: "string \<Rightarrow> time option" where
  "parse_rfc3339nano s =
     Option.bind (get_year s) (\<lambda>(y, s). Option.bind (expect (CHR ''-'') s) (\<lambda>s.
     Option.bind (getnum2 s) (\<lambda>(m, s). if m < 1 \<or> 12 < m then None else
     Option.bind (expect (CHR ''-'') s) (\<lambda>s.
     Option.bind (getnum2 s) (\<lambda>(d, s). Option.bind (expect (CHR ''T'') s) (\<lambda>s.
     Option.bind (getnum s) (\<lambda>(hr, s). if 24 \<le> hr then None else
     Option.bind (expect (CHR '':'') s) (\<lambda>s.
     Option.bind (getnum2 s) (\<lambda>(mi, s). if 60 \<le> mi then None else
     Option.bind (expect (CHR '':'') s) (\<lambda>s.
     Option.bind (getnum2 s) (\<lambda>(sec, s). if 60 \<le> sec then None else
     (case get_fraction s of (ns, s) \<Rightarrow>
     Option.bind (get_zone s) (\<lambda>(zone, s).
       if s \<noteq> [] \<or> d < 1 \<or> daysIn m (int y) < d then None
       else Some (days_from_civil (int y) m d * nanos_per_day
         + (int ((hr * 60 + mi) * 60 + sec) - zone) * 1000000000 + int ns))))))))))))))"

section \<open>A printed time is read back\<close>

lemma day_in_month:
  assumes "0 \<le> mp" "mp \<le> 11" "(153 * mp + 2) div 5 \<le> doy" "5 * doy + 2 < 153 * (mp + 1)" "doy \<le> 365"
    and leap: "mp = 11 \<Longrightarrow> doy = 365 \<Longrightarrow> leap_year y"
  shows "nat (doy - (153 * mp + 2) div 5 + 1) \<le> daysIn (nat (if mp < 10 then mp + 3 else mp - 9)) y"
proof -
  have "mp \<in> set [0..11]" using assms(1,2) by simp
  then consider "mp = 0" | "mp = 1" | "mp = 2" | "mp = 3" | "mp = 4" | "mp = 5" | "mp = 6" | "mp = 7" | "mp = 8"
    | "mp = 9" | "mp = 10" | "mp = 11" by (auto simp: upto_rec1)
  then show ?thesis
  proof cases
    case 12
    then have "doy \<le> 364 \<or> doy = 365" using assms(5) by linarith
    then show ?thesis using 12 leap by (auto simp: daysIn_def)
  qed (use assms(3-5) in \<open>simp_all add: daysIn_def\<close>)
qed

lemma civil_from_days_correct:
  assumes "civil_from_days z = (y, m, d)"
  shows "1 \<le> m \<and> m \<le> 12 \<and> 1 \<le> d \<and> d \<le> daysIn m y \<and> days_from_civil y m d = z"
proof -
  define era doe where "era = (z + 306) div 146097" and "doe = (z + 306) mod 146097"
  define cent where "cent = min 3 (doe div 36524)"
  define r where "r = doe - 36524 * cent"
  define gr where "gr = r div 1461"
  define s where "s = r - 1461 * gr"
  define e where "e = min 3 (s div 365)"
  define doy where "doy = s - 365 * e"
  define mp where "mp = (5 * doy + 2) div 153"
  have z: "z = era * 146097 + doe - 306" "0 \<le> doe" "doe < 146097" unfolding era_def doe_def by simp_all
  have cent: "0 \<le> cent" "cent \<le> 3" "0 \<le> r" "r \<le> 36524" "cent < 3 \<longrightarrow> r < 36524"
    using z(2,3) unfolding r_def cent_def by auto
  have gr: "0 \<le> gr" "gr \<le> 24" "0 \<le> s" "s \<le> 1460" "gr = 24 \<and> cent < 3 \<longrightarrow> s < 1460"
    using cent unfolding s_def gr_def by auto
  have e: "0 \<le> e" "e \<le> 3" "0 \<le> doy" "doy \<le> 365" "doy = 365 \<longrightarrow> e = 3 \<and> s = 1460"
    using gr unfolding doy_def e_def by auto
  define y0 where "y0 = 100 * cent + 4 * gr + e + era * 400"
  have mp: "0 \<le> mp" "mp \<le> 11" "(153 * mp + 2) div 5 \<le> doy" "5 * doy + 2 < 153 * (mp + 1)"
    using e unfolding mp_def by auto
  have "civil_from_days z = (y0 + (if (if mp < 10 then mp + 3 else mp - 9) \<le> 2 then 1 else 0),
      nat (if mp < 10 then mp + 3 else mp - 9), nat (doy - (153 * mp + 2) div 5 + 1))"
    unfolding civil_from_days_def Let_def
    unfolding era_def [symmetric] doe_def [symmetric]
    unfolding cent_def [symmetric]
    unfolding r_def [symmetric]
    unfolding gr_def [symmetric]
    unfolding s_def [symmetric]
    unfolding e_def [symmetric]
    unfolding doy_def [symmetric]
    unfolding mp_def [symmetric] y0_def
    by (rule refl)
  then have ymd: "y = y0 + (if mp < 10 then 0 else 1)" "m = nat (if mp < 10 then mp + 3 else mp - 9)"
    "d = nat (doy - (153 * mp + 2) div 5 + 1)"
    using assms mp by (auto split: if_splits)
  have yoe: "y0 mod 400 = 100 * cent + 4 * gr + e" "y0 div 400 = era"
    using cent gr e unfolding y0_def by auto
  have cycles: "(100 * cent + 4 * gr + e) div 4 = 25 * cent + gr" "(100 * cent + 4 * gr + e) div 100 = cent"
    using gr e by auto
  have inverse: "days_from_civil y m d = z"
  proof -
    have y0: "(if m \<le> 2 then y - 1 else y) = y0" and m: "(if m \<le> 2 then int m + 9 else int m - 3) = mp"
      using mp(1,2) ymd(1,2) by auto
    have "(153 * mp + 2) div 5 + int d - 1 = doy" using mp(3) ymd(3) by simp
    then have "days_from_civil y m d = era * 146097 + (100 * cent + 4 * gr + e) * 365 + (25 * cent + gr) - cent + doy - 306"
      unfolding days_from_civil_def Let_def y0 m yoe cycles by linarith
    then show ?thesis unfolding z(1) doy_def s_def r_def by simp
  qed
  have leap: "leap_year (y0 + 1)" if "doy = 365"
  proof -
    have e3: "e = 3" and last: "gr = 24 \<longrightarrow> cent = 3" using that e gr cent by auto
    have quad: "y0 + 1 = 4 * (25 * cent + gr + 1 + 100 * era)" using e3 unfolding y0_def by simp
    show ?thesis
    proof (cases "gr = 24")
      case True
      then have "y0 + 1 = 400 * (era + 1)" using last quad by simp
      then show ?thesis by (simp add: leap_year_def)
    next
      case False
      have "y0 + 1 = (4 * gr + 4) + 100 * (cent + 4 * era)" using quad by simp
      then have "(y0 + 1) mod 100 = (4 * gr + 4) mod 100" by (metis mod_mult_self2)
      also have "\<dots> = 4 * gr + 4" using False gr by simp
      finally have "(y0 + 1) mod 100 \<noteq> 0" using gr by simp
      moreover have "(y0 + 1) mod 4 = 0" unfolding quad by simp
      ultimately show ?thesis unfolding leap_year_def by blast
    qed
  qed
  have "d \<le> daysIn m y"
    unfolding ymd(2,3) by (rule day_in_month [OF mp e(4)]) (use ymd(1) mp(2) leap in \<open>auto split: if_splits\<close>)
  moreover have "1 \<le> m" "m \<le> 12" "1 \<le> d" using mp ymd by auto
  ultimately show ?thesis using inverse by simp
qed

lemma getnum_pad2:
  assumes "n < 100"
  shows "getnum2 (show_pad2 n @ s) = Some (n, s)" "getnum (show_pad2 n @ s) = Some (n, s)"
  using assms by (simp_all add: show_pad2_def)

lemma digits_val_zeros [simp]: "digits_val (replicate k CHR ''0'' @ s) = digits_val s"
proof (induction s rule: rev_induct)
  case Nil
  show ?case
  proof (induction k)
    case (Suc k)
    then show ?case
      using digits_val_snoc [of "replicate k CHR ''0''" "CHR ''0''"] by (simp add: replicate_append_same char_digit_def)
  qed simp
next
  case (snoc c s)
  then show ?case using digits_val_snoc [of "replicate k CHR ''0'' @ s" c] by simp
qed

lemma digits_val_append_zeros: "digits_val (s @ replicate k CHR ''0'') = digits_val s * 10 ^ k"
proof (induction k)
  case (Suc k)
  then show ?case
    using digits_val_snoc [of "s @ replicate k CHR ''0''" "CHR ''0''"]
    by (simp add: replicate_append_same char_digit_def)
qed simp

lemma length_show_nat: "n < 10 ^ k \<Longrightarrow> 0 < k \<Longrightarrow> length (show_nat n) \<le> k"
proof (induction k arbitrary: n)
  case (Suc k)
  show ?case
  proof (cases "n < 10")
    case False
    then have "0 < k" using Suc.prems by (cases k) auto
    moreover have "n div 10 < 10 ^ k" using Suc.prems by auto
    ultimately show ?thesis using Suc.IH [of "n div 10"] False by (simp add: show_nat.simps [of n])
  qed (simp add: show_nat.simps [of n])
qed simp

lemma show_padded_facts:
  assumes "n < 10 ^ k" "0 < k"
  shows "length (show_padded k n) = k" "list_all is_digit (show_padded k n)" "digits_val (show_padded k n) = n"
proof -
  have "is_digit CHR ''0''" by (simp add: is_digit_def)
  then show "length (show_padded k n) = k" "list_all is_digit (show_padded k n)" "digits_val (show_padded k n) = n"
    using length_show_nat [OF assms] show_nat_digits [of n] by (auto simp: show_padded_def list_all_iff)
qed

lemma get_year_print:
  assumes "0 \<le> y" "y \<le> 9999"
  shows "get_year (show_year y @ s) = Some (nat y, s)"
proof -
  have "nat y < 10 ^ 4" using assms by simp
  from show_padded_facts [OF this] assms show ?thesis by (simp add: get_year_def show_year_def)
qed

lemma get_fraction_print:
  assumes "ns < 10 ^ 9"
  shows "get_fraction (show_fraction ns @ ''Z'') = (ns, ''Z'')"
proof (cases "ns = 0")
  case True
  then show ?thesis by (simp add: show_fraction_def get_fraction_def)
next
  case False
  note pad = show_padded_facts [OF assms, simplified]
  define x where "x = rev (dropWhile (\<lambda>c. c = CHR ''0'') (rev (show_padded 9 ns)))"
  define k where "k = length (takeWhile (\<lambda>c. c = CHR ''0'') (rev (show_padded 9 ns)))"
  have zeros: "takeWhile (\<lambda>c. c = CHR ''0'') (rev (show_padded 9 ns)) = replicate k CHR ''0''"
    unfolding k_def by (rule replicate_length_same [symmetric]) (auto dest: set_takeWhileD)
  have "rev (show_padded 9 ns) = replicate k CHR ''0'' @ rev x"
    unfolding x_def zeros [symmetric] by simp
  then have split: "show_padded 9 ns = x @ replicate k CHR ''0''" by (metis rev_append rev_replicate rev_rev_ident)
  have dig: "list_all is_digit x" and len: "length x + k = 9" and val: "digits_val x * 10 ^ k = ns"
    using pad unfolding split by (simp_all add: digits_val_append_zeros)
  then obtain d t where x: "x = d # t" using False by (cases x) auto
  have "takeWhile is_digit (x @ ''Z'') = x" using dig by (simp add: takeWhile_append list_all_iff is_digit_def)
  then have "takeWhile is_digit (d # t @ ''Z'') = x" by (simp add: x)
  moreover have "show_fraction ns = CHR ''.'' # d # t" using False x by (simp add: show_fraction_def x_def [symmetric])
  moreover have "9 - length x = k" "take 9 x = x" using len by simp_all
  ultimately show ?thesis using dig val by (simp add: get_fraction_def x)
qed

lemma parse_print:
  assumes "civil_from_days (t div nanos_per_day) = (y, m, d)" "0 \<le> y" "y \<le> 9999"
  shows "parse_rfc3339nano (rfc3339nano t) = Some t"
proof -
  define ns where "ns = nat (t mod nanos_per_day)"
  define secs where "secs = ns div 1000000000"
  note ymd = civil_from_days_correct [OF assms(1)]
  have ns: "ns < 86400000000000" by (simp add: ns_def nanos_per_day_def)
  then have secs: "secs < 86400" by (simp add: secs_def)
  have parts: "secs div 3600 < 24" "secs div 60 mod 60 < 60" "secs mod 60 < 60" "ns mod 1000000000 < 10 ^ 9"
    "((secs div 3600 * 60 + secs div 60 mod 60) * 60 + secs mod 60) = secs"
    using secs div_mult2_eq [of secs 60 60] by (simp_all add: div_mult_mod_eq)
  have small: "m < 100" "d < 100" "secs div 3600 < 100" "secs div 60 mod 60 < 100" "secs mod 60 < 100"
    using ymd parts by (auto simp: daysIn_def split: if_splits)
  have printed: "rfc3339nano t = show_year y @ CHR ''-'' # show_pad2 m @ CHR ''-'' # show_pad2 d @ CHR ''T''
      # show_pad2 (secs div 3600) @ CHR '':'' # show_pad2 (secs div 60 mod 60) @ CHR '':''
      # show_pad2 (secs mod 60) @ show_fraction (ns mod 1000000000) @ ''Z''"
    using assms(1) by (simp add: rfc3339nano_def Let_def ns_def secs_def)
  have "parse_rfc3339nano (rfc3339nano t) = Some (days_from_civil y m d * nanos_per_day
      + int ((secs div 3600 * 60 + secs div 60 mod 60) * 60 + secs mod 60) * 1000000000 + int (ns mod 1000000000))"
    unfolding printed parse_rfc3339nano_def
    using ymd parts(1-3) assms(2,3)
    by (simp add: get_year_print getnum_pad2 small get_fraction_print [OF parts(4)] get_zone_def not_le)
  also have "\<dots> = Some t"
  proof -
    have "int secs * 1000000000 + int (ns mod 1000000000) = int ns"
      unfolding secs_def by (simp only: zdiv_int zmod_int of_nat_numeral div_mult_mod_eq)
    moreover have "int ns = t mod nanos_per_day" by (simp add: ns_def nanos_per_day_def)
    ultimately show ?thesis using ymd parts(5) by (simp add: ac_simps)
  qed
  finally show ?thesis .
qed

end
