(* ===== verification/Money.thy ===== *)
theory Money
  imports Errors
begin

text \<open>
  \<open>internal/domain/money/money.go\<close>: amounts as a signed 64-bit count of minor units with a
  currency. The checked operations on \<open>int64\<close> first, then the methods of \<open>Money\<close>, the parser
  and the printer. The laws of the checked operations are two locales: an operation that is
  right when it reports success, and one that also fails only on overflow.
\<close>

section \<open>Checked operations on int64\<close>

definition addInt64 :: "int64 \<Rightarrow> int64 \<Rightarrow> int64 \<times> bool" where
  "addInt64 a b =
     (let s = a + b in
      if (0 <s b \<and> s <s a) \<or> (b <s 0 \<and> a <s s) then (0, False) else (s, True))"

definition negateInt64 :: "int64 \<Rightarrow> int64 \<times> bool" where
  "negateInt64 a = (if a = MinInt64 then (0, False) else (- a, True))"

definition subInt64 :: "int64 \<Rightarrow> int64 \<Rightarrow> int64 \<times> bool" where
  "subInt64 a b =
     (case negateInt64 b of (negB, ok) \<Rightarrow> if \<not> ok then (0, False) else addInt64 a negB)"

definition mulInt64 :: "int64 \<Rightarrow> int64 \<Rightarrow> int64 \<times> bool" where
  "mulInt64 a b =
     (if a = 0 \<or> b = 0 then (0, True)
      else if (a = MinInt64 \<and> b = -1) \<or> (b = MinInt64 \<and> a = -1) then (0, False)
      else let result = a * b in
        if go_div64 result b \<noteq> a then (0, False) else (result, True))"

locale sound_int64_op =
  fixes impl :: "int64 \<Rightarrow> int64 \<Rightarrow> int64 \<times> bool" and exact :: "int \<Rightarrow> int \<Rightarrow> int"
  assumes ok_exact: "impl a b = (r, True) \<Longrightarrow> sint r = exact (sint a) (sint b)"
begin

lemma ok_fits: "snd (impl a b) \<Longrightarrow> fits64 (exact (sint a) (sint b))"
  using ok_exact [of a b "fst (impl a b)"] by (metis fits64_sint prod.collapse)

end

locale exact_int64_op = sound_int64_op +
  assumes fits_ok: "fits64 (exact (sint a) (sint b)) \<Longrightarrow> snd (impl a b)"
    and fail_zero: "\<not> snd (impl a b) \<Longrightarrow> fst (impl a b) = 0"
begin

lemma ok_iff: "snd (impl a b) \<longleftrightarrow> fits64 (exact (sint a) (sint b))"
  using ok_fits fits_ok by blast

lemma impl_eq:
  "impl a b = (if fits64 (exact (sint a) (sint b))
               then (word_of_int (exact (sint a) (sint b)), True) else (0, False))"
proof (cases "fits64 (exact (sint a) (sint b))")
  case True
  then have "impl a b = (fst (impl a b), True)"
    by (metis fits_ok prod.collapse)
  with True show ?thesis
    by (metis ok_exact word_of_sint64)
next
  case False
  then have "impl a b = (0, False)"
    by (metis ok_iff fail_zero prod.collapse)
  with False show ?thesis by simp
qed

end

lemma addInt64_eq:
  "addInt64 a b = (if fits64 (sint a + sint b) then (a + b, True) else (0, False))"
  using sint_bounds64 [of a] sint_bounds64 [of b]
  by (auto simp: addInt64_def Let_def int64_simps sint_add64_cases fits64_def)

lemma negateInt64_eq:
  "negateInt64 a = (if fits64 (- sint a) then (- a, True) else (0, False))"
proof (cases "a = MinInt64")
  case True
  then show ?thesis by (simp add: negateInt64_def fits64_def)
next
  case False
  then have "sint (- a) = - sint a" by (rule sint_uminus64)
  then have "fits64 (- sint a)" by (metis fits64_sint)
  with False show ?thesis by (simp add: negateInt64_def)
qed

lemma subInt64_eq:
  "subInt64 a b =
     (if b \<noteq> MinInt64 \<and> fits64 (sint a - sint b) then (a - b, True) else (0, False))"
  by (auto simp: subInt64_def negateInt64_def addInt64_eq sint_uminus64)

text \<open>
  The division check of \<open>mulInt64\<close>: when the wrapped product divides back to \<open>a\<close>, the rest of
  that division is a multiple of \<open>2 ^ 64\<close> smaller than \<open>b\<close>, hence zero.
\<close>

lemma wrapped_product_exact:
  fixes x y r k :: int
  assumes r: "r = x * y + k * 2 ^ 64" and q: "r sdiv y = x" and y: "y \<noteq> 0" "\<bar>y\<bar> \<le> 2 ^ 63"
  shows "k = 0"
proof (rule ccontr)
  assume "k \<noteq> 0"
  have "r = x * y + r smod y"
    using sdiv_mult_smod_eq [of r y] q by simp
  then have rest: "r smod y = k * 2 ^ 64" using r by simp
  have "\<bar>r smod y\<bar> < \<bar>y\<bar>"
    using y(1) by (simp add: signed_modulo_int_def abs_mult abs_mod_less)
  moreover have "2 ^ 64 \<le> \<bar>k * 2 ^ 64\<bar>"
    using \<open>k \<noteq> 0\<close> by (simp add: abs_mult)
  ultimately show False using rest y(2) by simp
qed

lemma sint_mult64: "\<exists>k. sint ((a :: int64) * b) = sint a * sint b + k * 2 ^ 64"
proof -
  let ?p = "sint a * sint b"
  have "a * b = word_of_int ?p"
    by (simp only: int64_homs)
  then have "sint (a * b) = (?p + 2 ^ 63) mod 2 ^ 64 - 2 ^ 63"
    by (simp only: sint_of_int64)
  also have "\<dots> = ?p + (- ((?p + 2 ^ 63) div 2 ^ 64)) * 2 ^ 64"
    using div_mult_mod_eq [of "?p + 2 ^ 63" "2 ^ 64"] by linarith
  finally show ?thesis ..
qed

lemma mult_sdiv_cancel: "y \<noteq> 0 \<Longrightarrow> x * y sdiv y = x" for x y :: int
proof -
  assume y: "y \<noteq> 0"
  then have "sgn (x * y) * sgn y = sgn x" by (simp add: sgn_mult mult.assoc)
  then show ?thesis using y by (simp add: signed_divide_int_def abs_mult sgn_mult_abs)
qed

lemma sdiv_halves: "1 < \<bar>y\<bar> \<Longrightarrow> 2 * \<bar>r sdiv y\<bar> \<le> \<bar>r\<bar>" for r y :: int
proof -
  assume y: "1 < \<bar>y\<bar>"
  then have "\<bar>r\<bar> div \<bar>y\<bar> \<le> \<bar>r\<bar> div 2" by (intro zdiv_mono2) auto
  then have "2 * (\<bar>r\<bar> div \<bar>y\<bar>) \<le> \<bar>r\<bar>" by linarith
  moreover have "\<bar>r sdiv y\<bar> \<le> \<bar>r\<bar> div \<bar>y\<bar>"
    using y by (auto simp: signed_divide_int_def abs_mult sgn_if pos_imp_zdiv_nonneg_iff)
  ultimately show ?thesis by linarith
qed

lemma fits64_sdiv:
  assumes "fits64 r" and "\<not> (r = - (2 ^ 63) \<and> y = - 1)"
  shows "fits64 (r sdiv y)"
proof (cases "1 < \<bar>y\<bar>")
  case True
  then show ?thesis using sdiv_halves [OF True, of r] assms(1) by (auto simp: fits64_def)
next
  case False
  then have "y = 0 \<or> y = 1 \<or> y = - 1" by linarith
  then show ?thesis using assms by (auto simp: fits64_def signed_divide_int_def sgn_if)
qed

lemma go_div64_eq_iff:
  assumes "\<not> (r = MinInt64 \<and> b = - 1)"
  shows "go_div64 r b = a \<longleftrightarrow> sint r sdiv sint b = sint a"
proof -
  have "\<not> (sint r = - (2 ^ 63) \<and> sint b = - 1)"
    using assms by (auto simp: int64_eq_iff)
  then have "fits64 (sint r sdiv sint b)" by (intro fits64_sdiv) simp_all
  then show ?thesis by (auto simp: go_div64_def int64_eq_iff int64_simps)
qed

lemma mulInt64_eq:
  "mulInt64 a b = (if fits64 (sint a * sint b) then (a * b, True) else (0, False))"
proof (cases "a = 0 \<or> b = 0")
  case True
  then show ?thesis by (auto simp: mulInt64_def fits64_def)
next
  case nonzero: False
  show ?thesis
  proof (cases "(a = MinInt64 \<and> b = -1) \<or> (b = MinInt64 \<and> a = -1)")
    case True
    with nonzero show ?thesis by (auto simp: mulInt64_def fits64_def)
  next
    case False
    let ?r = "sint (a * b)" and ?x = "sint a" and ?y = "sint b"
    obtain k where k: "?r = ?x * ?y + k * 2 ^ 64" using sint_mult64 by blast
    have y: "?y \<noteq> 0" "\<bar>?y\<bar> \<le> 2 ^ 63"
      using nonzero sint_bounds64 [of b] by (simp_all add: int64_eq_iff)
    have "a * b = MinInt64 \<and> b = -1 \<Longrightarrow> a = MinInt64"
      by (metis minus_minus mult_minus1_right uminus_MinInt64)
    with False have divides: "go_div64 (a * b) b = a \<longleftrightarrow> ?r sdiv ?y = ?x"
      by (intro go_div64_eq_iff) auto
    have "?r sdiv ?y = ?x \<longleftrightarrow> fits64 (?x * ?y)"
    proof
      assume "?r sdiv ?y = ?x"
      with k y have "k = 0" by (intro wrapped_product_exact)
      then show "fits64 (?x * ?y)" by (metis k fits64_sint add.right_neutral mult_zero_left)
    next
      assume "fits64 (?x * ?y)"
      then have "k = 0" using k fits64_sint [of "a * b"] unfolding fits64_def by simp
      with k y show "?r sdiv ?y = ?x" by (simp add: mult_sdiv_cancel)
    qed
    with nonzero False divides show ?thesis by (auto simp: mulInt64_def Let_def)
  qed
qed

interpretation add: exact_int64_op addInt64 "(+)"
  by unfold_locales (auto simp: addInt64_eq sint_add64_cases split: if_splits)

interpretation mul: exact_int64_op mulInt64 "(*)"
proof unfold_locales
  show "mulInt64 a b = (r, True) \<Longrightarrow> sint r = sint a * sint b" for a b r
    using sint_of_int64_fits [of "sint a * sint b"]
    by (auto simp: mulInt64_eq int64_homs split: if_splits)
qed (auto simp: mulInt64_eq split: if_splits)

interpretation sub: sound_int64_op subInt64 "(-)"
proof unfold_locales
  show "subInt64 a b = (r, True) \<Longrightarrow> sint r = sint a - sint b" for a b r
    using sint_of_int64_fits [of "sint a - sint b"]
    by (auto simp: subInt64_eq int64_homs split: if_splits)
qed

section \<open>Money\<close>

text \<open>\<open>type Currency string\<close>; \<open>NewCurrency\<close> validates the pattern \<open>^[A-Z]{3}$\<close>.\<close>

type_synonym currency = string

definition BRL :: currency where
  "BRL = ''BRL''"

definition currencyPattern :: "string \<Rightarrow> bool" where
  "currencyPattern s \<longleftrightarrow> length s = 3 \<and> list_all is_upper s"

definition NewCurrency :: "string \<Rightarrow> goerr + currency" where
  "NewCurrency code =
     (if \<not> currencyPattern code then Inl (WrapErr code (MoneyErr ErrInvalidCurrency))
      else Inr code)"

record money =
  minorUnits :: int64
  moneyCurrency :: currency

definition money_Zero :: "currency \<Rightarrow> money" where
  "money_Zero c = \<lparr>minorUnits = 0, moneyCurrency = c\<rparr>"

definition FromMinorUnits :: "int64 \<Rightarrow> currency \<Rightarrow> money" where
  "FromMinorUnits n c = \<lparr>minorUnits = n, moneyCurrency = c\<rparr>"

text \<open>The zero value \<open>Money{}\<close>.\<close>

abbreviation Money0 :: money where
  "Money0 \<equiv> \<lparr>minorUnits = 0, moneyCurrency = []\<rparr>"

definition Money_IsZero :: "money \<Rightarrow> bool" where
  "Money_IsZero m \<longleftrightarrow> minorUnits m = 0"

definition Money_IsNegative :: "money \<Rightarrow> bool" where
  "Money_IsNegative m \<longleftrightarrow> minorUnits m <s 0"

definition Money_IsPositive :: "money \<Rightarrow> bool" where
  "Money_IsPositive m \<longleftrightarrow> 0 <s minorUnits m"

text \<open>\<open>sameCurrency\<close> returns nil or an error; \<open>None\<close> is nil.\<close>

definition sameCurrency :: "money \<Rightarrow> money \<Rightarrow> goerr option" where
  "sameCurrency m other =
     (if moneyCurrency m \<noteq> moneyCurrency other
      then Some (WrapErr (moneyCurrency m @ '' vs '' @ moneyCurrency other)
                         (MoneyErr ErrMoneyCurrencyMismatch))
      else None)"

definition Money_Add :: "money \<Rightarrow> money \<Rightarrow> goerr + money" where
  "Money_Add m other =
     (case sameCurrency m other of
        Some err \<Rightarrow> Inl err
      | None \<Rightarrow>
          (case addInt64 (minorUnits m) (minorUnits other) of (tot, ok) \<Rightarrow>
             if \<not> ok then Inl (MoneyErr ErrOverflow)
             else Inr \<lparr>minorUnits = tot, moneyCurrency = moneyCurrency m\<rparr>))"

definition Money_Sub :: "money \<Rightarrow> money \<Rightarrow> goerr + money" where
  "Money_Sub m other =
     (case sameCurrency m other of
        Some err \<Rightarrow> Inl err
      | None \<Rightarrow>
          (case subInt64 (minorUnits m) (minorUnits other) of (diff, ok) \<Rightarrow>
             if \<not> ok then Inl (MoneyErr ErrOverflow)
             else Inr \<lparr>minorUnits = diff, moneyCurrency = moneyCurrency m\<rparr>))"

definition Money_Negate :: "money \<Rightarrow> goerr + money" where
  "Money_Negate m =
     (case negateInt64 (minorUnits m) of (negated, ok) \<Rightarrow>
        if \<not> ok then Inl (MoneyErr ErrOverflow)
        else Inr \<lparr>minorUnits = negated, moneyCurrency = moneyCurrency m\<rparr>)"

definition Money_Compare :: "money \<Rightarrow> money \<Rightarrow> goerr + int" where
  "Money_Compare m other =
     (case sameCurrency m other of
        Some err \<Rightarrow> Inl err
      | None \<Rightarrow>
          Inr (if minorUnits m <s minorUnits other then -1
               else if minorUnits other <s minorUnits m then 1 else 0))"

definition Money_Equal :: "money \<Rightarrow> money \<Rightarrow> bool" where
  "Money_Equal m other \<longleftrightarrow>
     minorUnits m = minorUnits other \<and> moneyCurrency m = moneyCurrency other"

section \<open>Printing and parsing\<close>

definition scaleFactor :: int64 where
  "scaleFactor = 100"

text \<open>
  The magnitude is computed in \<open>uint64\<close>, as \<open>-(m+1) + 1\<close> for negative amounts, so that
  \<open>MinInt64\<close> has one. Division and remainder of words are unsigned.
\<close>

definition DecimalString :: "money \<Rightarrow> string" where
  "DecimalString m =
     (let neg = minorUnits m <s 0;
          magnitude = (if neg then (- (minorUnits m + 1)) + 1 else minorUnits m)
      in (if neg then ''-'' else []) @ show_nat (unat (magnitude div 100)) @ ''.''
         @ show_pad2 (unat (magnitude mod 100)))"

definition Money_String :: "money \<Rightarrow> string" where
  "Money_String m = DecimalString m @ '' '' @ moneyCurrency m"

text \<open>
  \<open>decimalPattern.FindStringSubmatch\<close> for \<open>^(-)?([0-9]+)\.([0-9]{2})$\<close>: the three groups, or
  \<open>None\<close>. A digit is never a point, so the greedy \<open>[0-9]+\<close> takes all digits before the point.
\<close>

fun optionalMinus :: "string \<Rightarrow> string \<times> string" where
  "optionalMinus [] = ([], [])"
| "optionalMinus (c # t) = (if c = CHR ''-'' then (''-'', t) else ([], c # t))"

definition decimalPattern :: "string \<Rightarrow> (string \<times> string \<times> string) option" where
  "decimalPattern s =
     (case optionalMinus s of (sign, rest) \<Rightarrow>
      let integerPart = takeWhile is_digit rest in
      case dropWhile is_digit rest of
        [p, d, e] \<Rightarrow> if integerPart \<noteq> [] \<and> p = CHR ''.'' \<and> is_digit d \<and> is_digit e
                     then Some (sign, integerPart, [d, e]) else None
      | _ \<Rightarrow> None)"

text \<open>\<open>strconv.ParseInt(s, 10, 64)\<close> on a nonempty string of digits: a range error from \<open>2 ^ 63\<close> on.\<close>

definition ParseInt64 :: "string \<Rightarrow> int64 option" where
  "ParseInt64 s = (if digits_val s < 2 ^ 63 then Some (of_nat (digits_val s)) else None)"

definition money_Parse :: "string \<Rightarrow> currency \<Rightarrow> goerr + money" where
  "money_Parse s c =
     (if s = [] then Inl (MoneyErr ErrEmptyAmount)
      else case decimalPattern s of
        None \<Rightarrow> Inl (WrapErr s (MoneyErr ErrInvalidFormat))
      | Some (sign, integerPart, fractionPart) \<Rightarrow>
          (case ParseInt64 integerPart of
             None \<Rightarrow> Inl (WrapErr s (MoneyErr ErrOverflow))
           | Some whole \<Rightarrow>
          (case ParseInt64 fractionPart of
             None \<Rightarrow> Inl (WrapErr s (MoneyErr ErrInvalidFormat))
           | Some frac \<Rightarrow>
          (case mulInt64 whole scaleFactor of (wholeMinor, ok) \<Rightarrow>
             if \<not> ok then Inl (WrapErr s (MoneyErr ErrOverflow)) else
          (case addInt64 wholeMinor frac of (units, ok) \<Rightarrow>
             if \<not> ok then Inl (WrapErr s (MoneyErr ErrOverflow))
             else if sign = ''-'' \<and> units \<noteq> 0
             then (case negateInt64 units of (negated, ok) \<Rightarrow>
                     if \<not> ok then Inl (WrapErr s (MoneyErr ErrOverflow))
                     else Inr \<lparr>minorUnits = negated, moneyCurrency = c\<rparr>)
             else Inr \<lparr>minorUnits = units, moneyCurrency = c\<rparr>)))))"

definition ParseNonNegative :: "string \<Rightarrow> currency \<Rightarrow> goerr + money" where
  "ParseNonNegative s c =
     bindR (money_Parse s c) (\<lambda>m.
       if Money_IsNegative m then Inl (WrapErr s (MoneyErr ErrNegativeAmount)) else Inr m)"

text \<open>
  \<open>MarshalJSON\<close> and \<open>UnmarshalJSON\<close> go through \<open>jsonMoney\<close>, the record of the two JSON
  members; the bytes are \<open>encoding/json\<close>'s.
\<close>

record jsonMoney =
  jmAmount :: string
  jmCurrency :: string

definition Money_MarshalJSON :: "money \<Rightarrow> jsonMoney" where
  "Money_MarshalJSON m = \<lparr>jmAmount = DecimalString m, jmCurrency = moneyCurrency m\<rparr>"

definition Money_UnmarshalJSON :: "jsonMoney \<Rightarrow> goerr + money" where
  "Money_UnmarshalJSON j =
     bindR (NewCurrency (jmCurrency j)) (\<lambda>c. money_Parse (jmAmount j) c)"

section \<open>Facts about arithmetic on amounts\<close>

definition money_minor :: "money \<Rightarrow> int" where
  "money_minor m = sint (minorUnits m)"

lemmas money_sign_defs = Money_IsZero_def Money_IsNegative_def Money_IsPositive_def

lemma money_sign_sint:
  "Money_IsZero m \<longleftrightarrow> sint (minorUnits m) = 0"
  "Money_IsNegative m \<longleftrightarrow> sint (minorUnits m) < 0"
  "Money_IsPositive m \<longleftrightarrow> 0 < sint (minorUnits m)"
  by (simp_all add: money_sign_defs int64_simps int64_eq_iff)

text \<open>A method of \<open>Money\<close> built on a sound checked operation of \<open>int64\<close>.\<close>

locale money_op = sound_int64_op +
  fixes op :: "money \<Rightarrow> money \<Rightarrow> goerr + money"
  assumes op_eq: "op m n =
    (case sameCurrency m n of Some err \<Rightarrow> Inl err
     | None \<Rightarrow> (case impl (minorUnits m) (minorUnits n) of (r, ok) \<Rightarrow>
         if \<not> ok then Inl (MoneyErr ErrOverflow)
         else Inr \<lparr>minorUnits = r, moneyCurrency = moneyCurrency m\<rparr>))"
begin

lemma op_Inr:
  assumes "op m n = Inr r"
  shows "moneyCurrency n = moneyCurrency m \<and> moneyCurrency r = moneyCurrency m
    \<and> sint (minorUnits r) = exact (sint (minorUnits m)) (sint (minorUnits n))"
  using assms ok_exact [of "minorUnits m" "minorUnits n" "minorUnits r"]
  by (auto simp: op_eq sameCurrency_def split: if_splits prod.splits)

lemma op_Inl:
  assumes "op m n = Inl e"
  shows "(moneyCurrency m \<noteq> moneyCurrency n \<and> root_cause e = MoneyErr ErrMoneyCurrencyMismatch)
    \<or> (moneyCurrency m = moneyCurrency n \<and> e = MoneyErr ErrOverflow)"
  using assms by (auto simp: op_eq sameCurrency_def split: if_splits prod.splits)

end

interpretation madd: money_op addInt64 "(+)" Money_Add
  by unfold_locales (simp add: Money_Add_def)

interpretation msub: money_op subInt64 "(-)" Money_Sub
  by unfold_locales (simp add: Money_Sub_def)

lemma Money_Add_Inr_iff:
  "Money_Add m n = Inr r \<longleftrightarrow>
     moneyCurrency m = moneyCurrency n \<and> fits64 (sint (minorUnits m) + sint (minorUnits n))
     \<and> r = \<lparr>minorUnits = minorUnits m + minorUnits n, moneyCurrency = moneyCurrency m\<rparr>"
  by (auto simp: Money_Add_def sameCurrency_def addInt64_eq)

lemma Money_Sub_Inr_iff:
  "Money_Sub m n = Inr r \<longleftrightarrow>
     moneyCurrency m = moneyCurrency n \<and> minorUnits n \<noteq> MinInt64
     \<and> fits64 (sint (minorUnits m) - sint (minorUnits n))
     \<and> r = \<lparr>minorUnits = minorUnits m - minorUnits n, moneyCurrency = moneyCurrency m\<rparr>"
  by (auto simp: Money_Sub_def sameCurrency_def subInt64_eq)

lemma Money_Equal_eq [simp]: "Money_Equal m n \<longleftrightarrow> m = n"
  by (cases m; cases n) (simp add: Money_Equal_def)

section \<open>Facts about parsing and printing\<close>

text \<open>The strings that \<open>decimalPattern\<close> accepts, with their groups.\<close>

definition decimal_shape :: "string \<Rightarrow> string \<Rightarrow> string \<Rightarrow> bool" where
  "decimal_shape sign ip fp \<longleftrightarrow>
     (sign = [] \<or> sign = ''-'') \<and> ip \<noteq> [] \<and> list_all is_digit ip
     \<and> length fp = 2 \<and> list_all is_digit fp"

lemma not_digit_point [simp]: "\<not> is_digit CHR ''.''" "\<not> is_digit CHR ''-''"
  by (simp_all add: is_digit_def)

lemma length_two_iff: "length xs = 2 \<longleftrightarrow> (\<exists>d e. xs = [d, e])"
  by (auto simp: numeral_2_eq_2 length_Suc_conv)

lemma list_all_takeWhile: "list_all P (takeWhile P xs)"
  by (induction xs) simp_all

lemma optionalMinus_append: "optionalMinus s = (sign, rest) \<Longrightarrow> s = sign @ rest \<and> (sign = [] \<or> sign = ''-'')"
  by (cases s) (auto split: if_splits)

lemma decimalPattern_Some:
  assumes "decimalPattern s = Some (sign, ip, fp)"
  shows "s = sign @ ip @ ''.'' @ fp \<and> decimal_shape sign ip fp"
proof -
  obtain sg rest where m: "optionalMinus s = (sg, rest)" by fastforce
  obtain p d e where tail: "dropWhile is_digit rest = [p, d, e]"
    using assms m by (auto simp: decimalPattern_def Let_def split: list.splits)
  then have eqs: "sg = sign" "ip = takeWhile is_digit rest" "ip \<noteq> []" "p = CHR ''.''" "fp = [d, e]"
    "is_digit d" "is_digit e"
    using assms m by (simp_all add: decimalPattern_def Let_def split: if_splits)
  have rest: "rest = ip @ ''.'' @ fp"
    using takeWhile_dropWhile_id [of is_digit rest] tail eqs by simp
  have "list_all is_digit ip"
    unfolding eqs(2) by (rule list_all_takeWhile)
  with optionalMinus_append [OF m] rest eqs(1,3-7) show ?thesis
    by (simp add: decimal_shape_def)
qed

lemma decimalPattern_shape:
  assumes "decimal_shape sign ip fp"
  shows "decimalPattern (sign @ ip @ ''.'' @ fp) = Some (sign, ip, fp)"
proof -
  obtain d e where fp: "fp = [d, e]" "is_digit d" "is_digit e"
    using assms by (auto simp: decimal_shape_def length_two_iff)
  obtain c t where ip: "ip = c # t" "is_digit c"
    using assms by (cases ip) (auto simp: decimal_shape_def)
  then have "c \<noteq> CHR ''-''" using not_digit_point(2) by blast
  then show ?thesis
    using assms fp ip takeWhile_digits_append [of ip "CHR ''.''" fp]
      dropWhile_digits_append [of ip "CHR ''.''" fp]
    by (auto simp: decimalPattern_def decimal_shape_def)
qed

lemma decimalPattern_iff:
  "decimalPattern s = Some (sign, ip, fp) \<longleftrightarrow> s = sign @ ip @ ''.'' @ fp \<and> decimal_shape sign ip fp"
  using decimalPattern_Some decimalPattern_shape by blast

text \<open>The value in minor units that the digits stand for.\<close>

definition minor_value :: "string \<Rightarrow> string \<Rightarrow> nat" where
  "minor_value ip fp = 100 * digits_val ip + digits_val fp"

definition decimal_money :: "string \<Rightarrow> string \<Rightarrow> string \<Rightarrow> currency \<Rightarrow> money" where
  "decimal_money sign ip fp c =
     \<lparr>minorUnits = word_of_int ((if sign = ''-'' then -1 else 1) * int (minor_value ip fp)),
      moneyCurrency = c\<rparr>"

lemma fraction_below_100: "decimal_shape sign ip fp \<Longrightarrow> digits_val fp < 100"
  by (auto simp: decimal_shape_def length_two_iff digits_val_two dest!: char_digit_less)

lemma sint_of_nat64: "n < 2 ^ 63 \<Longrightarrow> sint (of_nat n :: int64) = int n"
  using sint_of_int64_fits [of "int n"] by (simp add: fits64_def)

lemma money_Parse_shape:
  assumes sh: "decimal_shape sign ip fp"
  shows "money_Parse (sign @ ip @ ''.'' @ fp) c =
    (if minor_value ip fp < 2 ^ 63
     then Inr (decimal_money sign ip fp c)
     else Inl (WrapErr (sign @ ip @ ''.'' @ fp) (MoneyErr ErrOverflow)))"
proof -
  let ?v = "minor_value ip fp" and ?w = "digits_val ip" and ?f = "digits_val fp"
  let ?s = "sign @ ip @ ''.'' @ fp"
  have f: "?f < 100" using sh by (rule fraction_below_100)
  have pat: "decimalPattern ?s = Some (sign, ip, fp)" using sh by (rule decimalPattern_shape)
  have parse_f: "ParseInt64 fp = Some (of_nat ?f)" using f by (simp add: ParseInt64_def)
  have sf: "sint (of_nat ?f :: int64) = int ?f" using f by (intro sint_of_nat64) simp
  consider (big) "2 ^ 63 \<le> ?w" | (mul) "?w < 2 ^ 63" "2 ^ 63 \<le> 100 * ?w"
    | (add) "100 * ?w < 2 ^ 63" "2 ^ 63 \<le> ?v" | (fit) "?v < 2 ^ 63"
    by linarith
  then show ?thesis
  proof cases
    case big
    then have "\<not> ?v < 2 ^ 63" by (simp add: minor_value_def)
    with big pat show ?thesis by (simp add: money_Parse_def ParseInt64_def)
  next
    case mul
    then have "mulInt64 (of_nat ?w) scaleFactor = (0, False)" and "\<not> ?v < 2 ^ 63"
      by (simp_all add: mulInt64_eq scaleFactor_def sint_of_nat64 fits64_def minor_value_def)
    with mul pat parse_f show ?thesis by (simp add: money_Parse_def ParseInt64_def)
  next
    case add
    then have m: "mulInt64 (of_nat ?w) scaleFactor = (of_nat (?w * 100), True)"
      by (simp add: mulInt64_eq scaleFactor_def sint_of_nat64 fits64_def)
    have "addInt64 (of_nat (?w * 100)) (of_nat ?f) = (0, False)"
      using add sf sint_of_nat64 [of "?w * 100"] by (simp add: addInt64_eq fits64_def minor_value_def)
    with add m pat parse_f show ?thesis by (simp add: money_Parse_def ParseInt64_def)
  next
    case fit
    then have w: "100 * ?w < 2 ^ 63" by (simp add: minor_value_def)
    then have m: "mulInt64 (of_nat ?w) scaleFactor = (of_nat (?w * 100), True)"
      by (simp add: mulInt64_eq scaleFactor_def sint_of_nat64 fits64_def)
    have a: "addInt64 (of_nat (?w * 100)) (of_nat ?f) = (of_nat ?v, True)"
      using fit w sf sint_of_nat64 [of "?w * 100"]
      by (simp add: addInt64_eq fits64_def minor_value_def add.commute mult.commute)
    have n: "negateInt64 (of_nat ?v) = (- of_nat ?v, True)"
      using fit sint_of_nat64 [of ?v] by (simp add: negateInt64_eq fits64_def)
    have "(of_nat ?v :: int64) = 0 \<Longrightarrow> ?v = 0"
      using fit sint_of_nat64 [of ?v] by simp
    with fit w m a n pat parse_f show ?thesis
      by (auto simp: money_Parse_def ParseInt64_def decimal_money_def)
  qed
qed

lemma money_Parse_no_shape:
  "decimalPattern s = None \<Longrightarrow> money_Parse s c =
     Inl (if s = [] then MoneyErr ErrEmptyAmount else WrapErr s (MoneyErr ErrInvalidFormat))"
  by (simp add: money_Parse_def)

lemma unat_of_int64: "0 \<le> i \<Longrightarrow> i < 2 ^ 63 + 1 \<Longrightarrow> unat (word_of_int i :: int64) = nat i"
  by (simp add: unat_eq_nat_uint uint_word_of_int)

lemma unat_of_sint_nonneg: "0 \<le> sint a \<Longrightarrow> unat (a :: int64) = nat (sint a)"
  using unat_of_int64 [of "sint a"] sint_bounds64 [of a] by simp

lemma unat_uminus_of_sint_neg: "sint a < 0 \<Longrightarrow> unat (- a :: int64) = nat (- sint a)"
  using unat_of_int64 [of "- sint a"] sint_bounds64 [of a] by simp

definition magnitude :: "money \<Rightarrow> nat" where
  "magnitude m = nat \<bar>sint (minorUnits m)\<bar>"

lemma DecimalString_eq:
  "DecimalString m =
     (if sint (minorUnits m) < 0 then ''-'' else []) @ show_nat (magnitude m div 100) @ ''.''
     @ show_pad2 (magnitude m mod 100)"
proof -
  have "- (minorUnits m + 1) + 1 = - minorUnits m" by simp
  then show ?thesis
    unfolding DecimalString_def Let_def magnitude_def
    by (simp add: int64_simps unat_div unat_mod unat_of_sint_nonneg unat_uminus_of_sint_neg)
qed

lemma DecimalString_shape:
  "decimal_shape (if sint (minorUnits m) < 0 then ''-'' else [])
     (show_nat (magnitude m div 100)) (show_pad2 (magnitude m mod 100))"
  by (simp add: decimal_shape_def show_nat_digits show_pad2_digits) (simp add: show_pad2_def)

lemma DecimalString_value:
  "minor_value (show_nat (magnitude m div 100)) (show_pad2 (magnitude m mod 100)) = magnitude m"
  by (simp add: minor_value_def)

section \<open>Properties\<close>

text \<open>C40: the checked addition, multiplication and negation of \<open>int64\<close> report success exactly when the
  mathematical result is representable, and then return it; the checked subtraction, built on
  negation, does so except that it refuses to subtract \<open>MinInt64\<close> from anything, even where the
  difference is representable.\<close>

theorem checked_arithmetic_exact:
  "addInt64 a b = (if fits64 (sint a + sint b) then (word_of_int (sint a + sint b), True) else (0, False))
   \<and> mulInt64 a b = (if fits64 (sint a * sint b) then (word_of_int (sint a * sint b), True) else (0, False))
   \<and> subInt64 a b = (if b \<noteq> MinInt64 \<and> fits64 (sint a - sint b)
                     then (word_of_int (sint a - sint b), True) else (0, False))
   \<and> negateInt64 a = (if fits64 (- sint a) then (word_of_int (- sint a), True) else (0, False))"
  by (simp add: add.impl_eq mul.impl_eq subInt64_eq negateInt64_eq int64_homs)

text \<open>\<open>Parse\<close> accepts exactly the strings \<open>[-]digits.dd\<close> whose value in minor units is at most
  \<open>MaxInt64\<close>, and returns that value with the given currency.\<close>

theorem money_Parse_accepts:
  "money_Parse s c = Inr m \<longleftrightarrow>
    (\<exists>sign ip fp. s = sign @ ip @ ''.'' @ fp \<and> decimal_shape sign ip fp \<and> minor_value ip fp < 2 ^ 63
       \<and> m = decimal_money sign ip fp c)"
proof (cases "decimalPattern s")
  case None
  then have "\<nexists>sign ip fp. s = sign @ ip @ ''.'' @ fp \<and> decimal_shape sign ip fp"
    using decimalPattern_iff [of s] by simp
  moreover have "money_Parse s c \<noteq> Inr m"
    using None by (simp add: money_Parse_no_shape)
  ultimately show ?thesis by blast
next
  case (Some g)
  obtain sign ip fp where g: "g = (sign, ip, fp)" by (cases g)
  have s: "s = sign @ ip @ ''.'' @ fp" "decimal_shape sign ip fp"
    using decimalPattern_Some [of s sign ip fp] Some g by simp_all
  have unique: "s = sign' @ ip' @ ''.'' @ fp' \<Longrightarrow> decimal_shape sign' ip' fp' \<Longrightarrow>
      (sign', ip', fp') = (sign, ip, fp)" for sign' ip' fp'
    using decimalPattern_iff [of s sign' ip' fp'] Some g by simp
  have parsed: "money_Parse s c = Inr m \<longleftrightarrow> minor_value ip fp < 2 ^ 63 \<and> m = decimal_money sign ip fp c"
    unfolding s(1) money_Parse_shape [OF s(2)] by auto
  show ?thesis (is "_ \<longleftrightarrow> ?shape")
  proof
    assume "money_Parse s c = Inr m"
    with s parsed show ?shape by blast
  next
    assume ?shape
    then obtain sign' ip' fp' where "s = sign' @ ip' @ ''.'' @ fp'" "decimal_shape sign' ip' fp'"
      and v: "minor_value ip' fp' < 2 ^ 63" "m = decimal_money sign' ip' fp' c" by blast
    then have "(sign', ip', fp') = (sign, ip, fp)" by (intro unique)
    with v parsed show "money_Parse s c = Inr m" by simp
  qed
qed

text \<open>C39: printing an amount and parsing the text gives the amount back, for every amount except
  \<open>MinInt64\<close>, whose printed magnitude the parser reports as an overflow.\<close>

theorem Parse_DecimalString:
  "money_Parse (DecimalString m) (moneyCurrency m) =
     (if minorUnits m = MinInt64 then Inl (WrapErr (DecimalString m) (MoneyErr ErrOverflow)) else Inr m)"
proof -
  let ?i = "sint (minorUnits m)"
  have fit: "magnitude m < 2 ^ 63 \<longleftrightarrow> minorUnits m \<noteq> MinInt64"
    using sint_bounds64 [of "minorUnits m"] by (auto simp: magnitude_def int64_eq_iff)
  have "(if ?i < 0 then - 1 else 1) * int (magnitude m) = ?i"
    by (simp add: magnitude_def)
  then have val: "decimal_money (if ?i < 0 then ''-'' else []) (show_nat (magnitude m div 100))
      (show_pad2 (magnitude m mod 100)) (moneyCurrency m) = m"
    unfolding decimal_money_def DecimalString_value by (cases "?i < 0") simp_all
  show ?thesis
    using money_Parse_shape [OF DecimalString_shape, of m "moneyCurrency m"] fit val
    unfolding DecimalString_value DecimalString_eq [symmetric]
    by (cases "?i < 0") auto
qed

text \<open>Leading zeros of the integer part are accepted and dropped: two spellings of an amount
  that differ only in them are read as the same amount, and print alike.\<close>

theorem Parse_leading_zero:
  assumes "decimal_shape sign ip fp"
  shows "money_Parse (sign @ ''0'' @ ip @ ''.'' @ fp) c = Inr m \<longleftrightarrow>
         money_Parse (sign @ ip @ ''.'' @ fp) c = Inr m"
proof -
  have z: "decimal_shape sign (CHR ''0'' # ip) fp"
    using assms by (simp add: decimal_shape_def is_digit_def)
  have "digits_val (CHR ''0'' # ip) = digits_val ip"
    by (simp add: digits_val_def char_digit_def)
  then have v: "minor_value (CHR ''0'' # ip) fp = minor_value ip fp"
      "decimal_money sign (CHR ''0'' # ip) fp c = decimal_money sign ip fp c"
    by (simp_all add: minor_value_def decimal_money_def)
  show ?thesis
    using money_Parse_shape [OF z, of c] money_Parse_shape [OF assms, of c] v by auto
qed

theorem Parse_leading_zero_witness:
  "money_Parse ''007.50'' BRL = Inr \<lparr>minorUnits = 750, moneyCurrency = BRL\<rparr>
   \<and> money_Parse ''07.50'' BRL = Inr \<lparr>minorUnits = 750, moneyCurrency = BRL\<rparr>"
proof -
  have sh: "decimal_shape [] ''07'' ''50''"
    by (simp add: decimal_shape_def is_digit_def)
  have "money_Parse ''07.50'' BRL = Inr \<lparr>minorUnits = 750, moneyCurrency = BRL\<rparr>"
    using money_Parse_shape [OF sh, of BRL] by (simp add: minor_value_def decimal_money_def digits_val_def char_digit_def)
  with Parse_leading_zero [OF sh, of BRL] show ?thesis by simp
qed

text \<open>\<open>ParseNonNegative\<close> is \<open>Parse\<close> restricted to amounts that are not negative.\<close>

theorem ParseNonNegative_accepts:
  "ParseNonNegative s c = Inr m \<longleftrightarrow> money_Parse s c = Inr m \<and> 0 \<le> sint (minorUnits m)"
  by (cases "money_Parse s c") (auto simp: ParseNonNegative_def money_sign_sint not_less)

end
