(* ===== verification/Wallet.thy ===== *)
theory Wallet
  imports Money
begin

text \<open>
  \<open>internal/domain/wallet\<close>: the wallet of a player with its two movements, and the ledger entry
  that records one movement. A method with a pointer receiver returns the updated wallet, or the
  error, in which case the receiver is unchanged. The movements are an interface of their own
  (locale \<open>wallet_movement\<close>): what they promise about balance, version and currency.
\<close>

section \<open>Ledger direction\<close>

text \<open>\<open>type LedgerDirection string\<close>: the two constants, or any other string.\<close>

datatype direction = Debit | Credit | UnknownDirection string

fun direction_string :: "direction \<Rightarrow> string" where
  "direction_string Debit = ''DEBIT''"
| "direction_string Credit = ''CREDIT''"
| "direction_string (UnknownDirection s) = s"

definition direction_of_string :: "string \<Rightarrow> direction" where
  "direction_of_string s =
     (if s = ''DEBIT'' then Debit else if s = ''CREDIT'' then Credit else UnknownDirection s)"

lemma direction_of_string_string [simp]:
  "direction_of_string (direction_string Debit) = Debit"
  "direction_of_string (direction_string Credit) = Credit"
  by (simp_all add: direction_of_string_def)

lemma direction_string_of_string [simp]: "direction_string (direction_of_string s) = s"
  by (simp add: direction_of_string_def)

section \<open>Wallet\<close>

record wallet =
  wlt_id :: uuid
  wlt_playerID :: uuid
  wlt_currency :: currency
  wlt_balance :: money
  wlt_version :: int64
  wlt_createdAt :: time
  wlt_updatedAt :: time

record new_wallet_params =
  nw_ID :: uuid
  nw_PlayerID :: uuid
  nw_Currency :: currency
  nw_InitialBalance :: money
  nw_Now :: time

definition NewWallet :: "new_wallet_params \<Rightarrow> goerr + wallet" where
  "NewWallet p =
     (if nw_ID p = uuid_Nil then Inl (WrapErr ''id is required'' (WalletErr ErrInvalidWallet))
      else if nw_PlayerID p = uuid_Nil
        then Inl (WrapErr ''playerId is required'' (WalletErr ErrInvalidWallet))
      else if nw_Currency p = [] then Inl (WrapErr ''currency is required'' (WalletErr ErrInvalidWallet))
      else if moneyCurrency (nw_InitialBalance p) \<noteq> nw_Currency p then Inl (WalletErr ErrCurrencyMismatch)
      else if Money_IsNegative (nw_InitialBalance p)
        then Inl (WrapErr ''initial balance cannot be negative'' (WalletErr ErrInvalidWallet))
      else if time_IsZero (nw_Now p) then Inl (WrapErr ''now is required'' (WalletErr ErrInvalidWallet))
      else Inr \<lparr>wlt_id = nw_ID p, wlt_playerID = nw_PlayerID p, wlt_currency = nw_Currency p,
                wlt_balance = nw_InitialBalance p, wlt_version = 1,
                wlt_createdAt = nw_Now p, wlt_updatedAt = nw_Now p\<rparr>)"

record rehydrate_wallet_params =
  rw_ID :: uuid
  rw_PlayerID :: uuid
  rw_Currency :: currency
  rw_Balance :: money
  rw_Version :: int64
  rw_CreatedAt :: time
  rw_UpdatedAt :: time

definition RehydrateWallet :: "rehydrate_wallet_params \<Rightarrow> goerr + wallet" where
  "RehydrateWallet p =
     (if rw_ID p = uuid_Nil \<or> rw_PlayerID p = uuid_Nil \<or> rw_Currency p = []
        then Inl (WrapErr ''missing identity fields'' (WalletErr ErrInvalidWallet))
      else if moneyCurrency (rw_Balance p) \<noteq> rw_Currency p then Inl (WalletErr ErrCurrencyMismatch)
      else if Money_IsNegative (rw_Balance p)
        then Inl (WrapErr ''persisted balance is negative'' (WalletErr ErrInvalidWallet))
      else if rw_Version p <s 1
        then Inl (WrapErr ''version must be >= 1'' (WalletErr ErrInvalidWallet))
      else Inr \<lparr>wlt_id = rw_ID p, wlt_playerID = rw_PlayerID p, wlt_currency = rw_Currency p,
                wlt_balance = rw_Balance p, wlt_version = rw_Version p,
                wlt_createdAt = rw_CreatedAt p, wlt_updatedAt = rw_UpdatedAt p\<rparr>)"

definition Wallet_Debit :: "wallet \<Rightarrow> money \<Rightarrow> time \<Rightarrow> goerr + wallet" where
  "Wallet_Debit w amount now =
     (if moneyCurrency amount \<noteq> wlt_currency w then Inl (WalletErr ErrCurrencyMismatch)
      else if \<not> Money_IsPositive amount then Inl (WalletErr ErrAmountNotPositive)
      else bindR (Money_Sub (wlt_balance w) amount) (\<lambda>newBalance.
        if Money_IsNegative newBalance then Inl (WalletErr ErrInsufficientBalance)
        else Inr (w\<lparr>wlt_balance := newBalance, wlt_version := wlt_version w + 1,
                    wlt_updatedAt := now\<rparr>)))"

definition Wallet_Credit :: "wallet \<Rightarrow> money \<Rightarrow> time \<Rightarrow> goerr + wallet" where
  "Wallet_Credit w amount now =
     (if moneyCurrency amount \<noteq> wlt_currency w then Inl (WalletErr ErrCurrencyMismatch)
      else if \<not> Money_IsPositive amount then Inl (WalletErr ErrAmountNotPositive)
      else bindR (Money_Add (wlt_balance w) amount) (\<lambda>newBalance.
        Inr (w\<lparr>wlt_balance := newBalance, wlt_version := wlt_version w + 1,
               wlt_updatedAt := now\<rparr>)))"

text \<open>What every constructor establishes and every movement keeps.\<close>

definition wallet_wf :: "wallet \<Rightarrow> bool" where
  "wallet_wf w \<longleftrightarrow> wlt_id w \<noteq> uuid_Nil \<and> wlt_playerID w \<noteq> uuid_Nil \<and> wlt_currency w \<noteq> []
     \<and> moneyCurrency (wlt_balance w) = wlt_currency w \<and> 0 \<le> sint (minorUnits (wlt_balance w))"

definition wallet_minor :: "wallet \<Rightarrow> int" where
  "wallet_minor w = sint (minorUnits (wlt_balance w))"

lemma NewWallet_wf: "NewWallet p = Inr w \<Longrightarrow> wallet_wf w \<and> wlt_version w = 1"
  by (auto simp: NewWallet_def wallet_wf_def money_sign_sint split: if_splits)

lemma RehydrateWallet_wf: "RehydrateWallet p = Inr w \<Longrightarrow> wallet_wf w \<and> 1 \<le> sint (wlt_version w)"
  by (auto simp: RehydrateWallet_def wallet_wf_def money_sign_sint int64_simps split: if_splits)

text \<open>Storing the fields of a well-formed wallet and rehydrating them gives the wallet.\<close>

lemma RehydrateWallet_of_wallet:
  assumes "wallet_wf w" and "1 \<le> sint (wlt_version w)"
  shows "RehydrateWallet \<lparr>rw_ID = wlt_id w, rw_PlayerID = wlt_playerID w, rw_Currency = wlt_currency w,
           rw_Balance = wlt_balance w, rw_Version = wlt_version w, rw_CreatedAt = wlt_createdAt w,
           rw_UpdatedAt = wlt_updatedAt w\<rparr> = Inr w"
  using assms by (simp add: RehydrateWallet_def wallet_wf_def money_sign_sint int64_simps)

text \<open>The interface of a movement: it adds \<open>sign * amount\<close> to the balance.\<close>

locale wallet_movement =
  fixes move :: "wallet \<Rightarrow> money \<Rightarrow> time \<Rightarrow> goerr + wallet" and sign :: int
  assumes move_amount: "move w a now = Inr w' \<Longrightarrow>
      moneyCurrency a = wlt_currency w \<and> 0 < money_minor a"
    and move_effect: "move w a now = Inr w' \<Longrightarrow> moneyCurrency (wlt_balance w) = wlt_currency w \<Longrightarrow>
      \<exists>b. w' = w\<lparr>wlt_balance := b, wlt_version := wlt_version w + 1, wlt_updatedAt := now\<rparr>
        \<and> moneyCurrency b = wlt_currency w \<and> money_minor b = wallet_minor w + sign * money_minor a"
    and move_nonneg: "move w a now = Inr w' \<Longrightarrow> wallet_wf w \<Longrightarrow> 0 \<le> wallet_minor w + sign * money_minor a"
begin

lemma move_balance: "move w a now = Inr w' \<Longrightarrow> wallet_wf w \<Longrightarrow>
    wallet_minor w' = wallet_minor w + sign * money_minor a"
  using move_effect [of w a now w'] by (auto simp: wallet_wf_def wallet_minor_def money_minor_def)

lemma move_wf: "move w a now = Inr w' \<Longrightarrow> wallet_wf w \<Longrightarrow> wallet_wf w'"
  using move_effect [of w a now w'] move_balance [of w a now w'] move_nonneg [of w a now w']
  by (auto simp: wallet_wf_def wallet_minor_def money_minor_def)

lemma move_frame: "move w a now = Inr w' \<Longrightarrow> wallet_wf w \<Longrightarrow>
    wlt_id w' = wlt_id w \<and> wlt_playerID w' = wlt_playerID w \<and> wlt_currency w' = wlt_currency w
    \<and> wlt_createdAt w' = wlt_createdAt w \<and> wlt_version w' = wlt_version w + 1 \<and> wlt_updatedAt w' = now"
  using move_effect [of w a now w'] by (auto simp: wallet_wf_def)

end

interpretation debit: wallet_movement Wallet_Debit "- 1"
proof unfold_locales
  show "moneyCurrency a = wlt_currency w \<and> 0 < money_minor a" if "Wallet_Debit w a now = Inr w'" for w a now w'
    using that by (auto simp: Wallet_Debit_def money_minor_def money_sign_sint split: if_splits)
  show "\<exists>b. w' = w\<lparr>wlt_balance := b, wlt_version := wlt_version w + 1, wlt_updatedAt := now\<rparr>
        \<and> moneyCurrency b = wlt_currency w \<and> money_minor b = wallet_minor w + - 1 * money_minor a"
    if "Wallet_Debit w a now = Inr w'" "moneyCurrency (wlt_balance w) = wlt_currency w" for w a now w'
    using that
    by (auto simp: Wallet_Debit_def bindR_Inr_iff wallet_minor_def money_minor_def
        dest!: msub.op_Inr split: if_splits)
  show "0 \<le> wallet_minor w + - 1 * money_minor a"
    if "Wallet_Debit w a now = Inr w'" "wallet_wf w" for w a now w'
    using that
    by (auto simp: Wallet_Debit_def bindR_Inr_iff wallet_minor_def money_minor_def money_sign_sint
        dest: msub.op_Inr split: if_splits)
qed

interpretation credit: wallet_movement Wallet_Credit 1
proof unfold_locales
  show "moneyCurrency a = wlt_currency w \<and> 0 < money_minor a" if "Wallet_Credit w a now = Inr w'" for w a now w'
    using that by (auto simp: Wallet_Credit_def money_minor_def money_sign_sint split: if_splits)
  show "\<exists>b. w' = w\<lparr>wlt_balance := b, wlt_version := wlt_version w + 1, wlt_updatedAt := now\<rparr>
        \<and> moneyCurrency b = wlt_currency w \<and> money_minor b = wallet_minor w + 1 * money_minor a"
    if "Wallet_Credit w a now = Inr w'" "moneyCurrency (wlt_balance w) = wlt_currency w" for w a now w'
    using that
    by (auto simp: Wallet_Credit_def bindR_Inr_iff wallet_minor_def money_minor_def
        dest!: madd.op_Inr split: if_splits)
  show "0 \<le> wallet_minor w + 1 * money_minor a"
    if "Wallet_Credit w a now = Inr w'" "wallet_wf w" for w a now w'
    using that by (auto simp: Wallet_Credit_def wallet_wf_def wallet_minor_def money_minor_def
        money_sign_sint split: if_splits)
qed

text \<open>Every branch of the two movements, for a well-formed wallet.\<close>

lemma Wallet_Debit_cases:
  assumes "wallet_wf w"
  shows "Wallet_Debit w a now =
     (if moneyCurrency a \<noteq> wlt_currency w then Inl (WalletErr ErrCurrencyMismatch)
      else if money_minor a \<le> 0 then Inl (WalletErr ErrAmountNotPositive)
      else if wallet_minor w < money_minor a then Inl (WalletErr ErrInsufficientBalance)
      else Inr (w\<lparr>wlt_balance := \<lparr>minorUnits = minorUnits (wlt_balance w) - minorUnits a,
                                  moneyCurrency = wlt_currency w\<rparr>,
                  wlt_version := wlt_version w + 1, wlt_updatedAt := now\<rparr>))"
proof (cases "moneyCurrency a = wlt_currency w \<and> 0 < money_minor a")
  case True
  let ?b = "minorUnits (wlt_balance w)" and ?n = "minorUnits a"
  have bounds: "0 \<le> sint ?b" "0 < sint ?n"
    using assms True by (simp_all add: wallet_wf_def money_minor_def)
  then have "fits64 (sint ?b - sint ?n)"
    using sint_bounds64 [of ?b] sint_bounds64 [of ?n] by (simp add: fits64_def)
  moreover have "?n \<noteq> MinInt64" using bounds by (auto simp: int64_eq_iff)
  ultimately have sub: "Money_Sub (wlt_balance w) a = Inr \<lparr>minorUnits = ?b - ?n, moneyCurrency = wlt_currency w\<rparr>"
    using assms True by (simp add: Money_Sub_Inr_iff wallet_wf_def)
  then have "sint (?b - ?n) = sint ?b - sint ?n"
    using msub.op_Inr [OF sub] by simp
  with True sub show ?thesis
    by (simp add: Wallet_Debit_def money_sign_sint wallet_minor_def money_minor_def)
next
  case False
  then show ?thesis by (auto simp: Wallet_Debit_def money_sign_sint money_minor_def)
qed

lemma Wallet_Credit_cases:
  assumes "wallet_wf w"
  shows "Wallet_Credit w a now =
     (if moneyCurrency a \<noteq> wlt_currency w then Inl (WalletErr ErrCurrencyMismatch)
      else if money_minor a \<le> 0 then Inl (WalletErr ErrAmountNotPositive)
      else if 2 ^ 63 \<le> wallet_minor w + money_minor a then Inl (MoneyErr ErrOverflow)
      else Inr (w\<lparr>wlt_balance := \<lparr>minorUnits = minorUnits (wlt_balance w) + minorUnits a,
                                  moneyCurrency = wlt_currency w\<rparr>,
                  wlt_version := wlt_version w + 1, wlt_updatedAt := now\<rparr>))"
  using assms
  by (auto simp: Wallet_Credit_def Money_Add_def sameCurrency_def addInt64_eq fits64_def wallet_wf_def
      money_sign_sint wallet_minor_def money_minor_def)

section \<open>Ledger entries\<close>

record ledger_entry =
  le_id :: uuid
  le_walletID :: uuid
  le_transactionID :: uuid
  le_direction :: direction
  le_amount :: money
  le_balanceBefore :: money
  le_balanceAfter :: money
  le_createdAt :: time

record new_ledger_params =
  nl_ID :: uuid
  nl_WalletID :: uuid
  nl_TransactionID :: uuid
  nl_Direction :: direction
  nl_Amount :: money
  nl_BalanceBefore :: money
  nl_Now :: time

fun applyDirection :: "money \<Rightarrow> money \<Rightarrow> direction \<Rightarrow> goerr + money" where
  "applyDirection before amount Debit = Money_Sub before amount"
| "applyDirection before amount Credit = Money_Add before amount"
| "applyDirection before amount (UnknownDirection s) = Inl (WrapErr s (LedgerErr ErrInvalidDirection))"

definition NewWalletLedgerEntry :: "new_ledger_params \<Rightarrow> goerr + ledger_entry" where
  "NewWalletLedgerEntry p =
     (if nl_ID p = uuid_Nil \<or> nl_WalletID p = uuid_Nil \<or> nl_TransactionID p = uuid_Nil
        then Inl (WrapErr ''missing identity fields'' (LedgerErr ErrInvalidLedgerEntry))
      else if \<not> Money_IsPositive (nl_Amount p)
        then Inl (WrapErr ''amount must be positive'' (LedgerErr ErrInvalidLedgerEntry))
      else if time_IsZero (nl_Now p)
        then Inl (WrapErr ''now is required'' (LedgerErr ErrInvalidLedgerEntry))
      else bindR (applyDirection (nl_BalanceBefore p) (nl_Amount p) (nl_Direction p)) (\<lambda>balanceAfter.
        Inr \<lparr>le_id = nl_ID p, le_walletID = nl_WalletID p, le_transactionID = nl_TransactionID p,
             le_direction = nl_Direction p, le_amount = nl_Amount p,
             le_balanceBefore = nl_BalanceBefore p, le_balanceAfter = balanceAfter,
             le_createdAt = nl_Now p\<rparr>))"

text \<open>
  \<open>RehydrateWalletLedgerEntryParams\<close> has the fields of the entry itself, so the record of the
  entry serves as the parameter.
\<close>

definition RehydrateWalletLedgerEntry :: "ledger_entry \<Rightarrow> goerr + ledger_entry" where
  "RehydrateWalletLedgerEntry p =
     bindR (applyDirection (le_balanceBefore p) (le_amount p) (le_direction p)) (\<lambda>expected.
       if \<not> Money_Equal expected (le_balanceAfter p) then Inl (LedgerErr ErrLedgerInvariant)
       else Inr \<lparr>le_id = le_id p, le_walletID = le_walletID p, le_transactionID = le_transactionID p,
                 le_direction = le_direction p, le_amount = le_amount p,
                 le_balanceBefore = le_balanceBefore p, le_balanceAfter = le_balanceAfter p,
                 le_createdAt = le_createdAt p\<rparr>)"

text \<open>The signed effect of an entry on the balance of its wallet.\<close>

fun direction_sign :: "direction \<Rightarrow> int" where
  "direction_sign Debit = -1"
| "direction_sign Credit = 1"
| "direction_sign (UnknownDirection s) = 0"

definition le_effect :: "ledger_entry \<Rightarrow> int" where
  "le_effect e = direction_sign (le_direction e) * money_minor (le_amount e)"

definition le_wf :: "ledger_entry \<Rightarrow> bool" where
  "le_wf e \<longleftrightarrow> le_direction e \<in> {Debit, Credit}
     \<and> money_minor (le_balanceAfter e) = money_minor (le_balanceBefore e) + le_effect e
     \<and> moneyCurrency (le_amount e) = moneyCurrency (le_balanceBefore e)
     \<and> moneyCurrency (le_balanceAfter e) = moneyCurrency (le_balanceBefore e)"

lemma applyDirection_Inr:
  "applyDirection before amount d = Inr after \<Longrightarrow>
     d \<in> {Debit, Credit} \<and> moneyCurrency amount = moneyCurrency before
     \<and> moneyCurrency after = moneyCurrency before
     \<and> money_minor after = money_minor before + direction_sign d * money_minor amount"
  by (cases d) (auto simp: money_minor_def dest: madd.op_Inr msub.op_Inr)

lemma NewWalletLedgerEntry_wf: "NewWalletLedgerEntry p = Inr e \<Longrightarrow> le_wf e \<and> 0 < money_minor (le_amount e)"
  by (auto simp: NewWalletLedgerEntry_def bindR_Inr_iff le_wf_def le_effect_def money_sign_sint
      money_minor_def [of "nl_Amount p"] dest: applyDirection_Inr split: if_splits)

lemma RehydrateWalletLedgerEntry_Inr_iff:
  "RehydrateWalletLedgerEntry p = Inr e \<longleftrightarrow>
     applyDirection (le_balanceBefore p) (le_amount p) (le_direction p) = Inr (le_balanceAfter p) \<and> e = p"
  by (auto simp: RehydrateWalletLedgerEntry_def bindR_Inr_iff)

text \<open>A new entry can always be rehydrated from its own fields.\<close>

lemma NewWalletLedgerEntry_rehydrates:
  "NewWalletLedgerEntry p = Inr e \<Longrightarrow> RehydrateWalletLedgerEntry e = Inr e"
  by (auto simp: NewWalletLedgerEntry_def RehydrateWalletLedgerEntry_Inr_iff bindR_Inr_iff split: if_splits)

section \<open>Properties\<close>

text \<open>On a well-formed wallet a debit is refused exactly for a foreign currency, for an amount
  that is not positive and for an amount above the balance, in this order; otherwise it subtracts
  the amount, bumps the version, and never overflows.\<close>

theorem Wallet_Debit_spec:
  assumes "wallet_wf w"
  shows "Wallet_Debit w a now =
     (if moneyCurrency a \<noteq> wlt_currency w then Inl (WalletErr ErrCurrencyMismatch)
      else if money_minor a \<le> 0 then Inl (WalletErr ErrAmountNotPositive)
      else if wallet_minor w < money_minor a then Inl (WalletErr ErrInsufficientBalance)
      else Inr (w\<lparr>wlt_balance := \<lparr>minorUnits = word_of_int (wallet_minor w - money_minor a),
                                  moneyCurrency = wlt_currency w\<rparr>,
                  wlt_version := wlt_version w + 1, wlt_updatedAt := now\<rparr>))"
  using Wallet_Debit_cases [OF assms] by (simp add: wallet_minor_def money_minor_def)

definition sample_wallet :: wallet where
  "sample_wallet = \<lparr>wlt_id = 1, wlt_playerID = 2, wlt_currency = ''BRL'',
     wlt_balance = \<lparr>minorUnits = 10000, moneyCurrency = ''BRL''\<rparr>, wlt_version = 1,
     wlt_createdAt = 5, wlt_updatedAt = 5\<rparr>"

theorem Wallet_Debit_spec_witness:
  "Wallet_Debit sample_wallet \<lparr>minorUnits = 8000, moneyCurrency = ''BRL''\<rparr> 9 =
     Inr (sample_wallet\<lparr>wlt_balance := \<lparr>minorUnits = 2000, moneyCurrency = ''BRL''\<rparr>,
                        wlt_version := 2, wlt_updatedAt := 9\<rparr>)
   \<and> Wallet_Debit sample_wallet \<lparr>minorUnits = 10001, moneyCurrency = ''BRL''\<rparr> 9 =
     Inl (WalletErr ErrInsufficientBalance)"
proof -
  have wf: "wallet_wf sample_wallet"
    by (simp add: wallet_wf_def sample_wallet_def)
  show ?thesis
    by (simp add: Wallet_Debit_spec [OF wf]) (simp add: sample_wallet_def wallet_minor_def money_minor_def)
qed

text \<open>A movement keeps the wallet well-formed, changes its balance by exactly the signed amount
  and its version by one, and touches nothing else but the time of the update.\<close>

theorem wallet_movements_keep_wf:
  assumes "wallet_wf w" and "Wallet_Debit w a now = Inr w' \<and> s = -1 \<or> Wallet_Credit w a now = Inr w' \<and> s = 1"
  shows "wallet_wf w' \<and> wallet_minor w' = wallet_minor w + s * money_minor a
    \<and> w' = w\<lparr>wlt_balance := wlt_balance w', wlt_version := wlt_version w + 1, wlt_updatedAt := now\<rparr>"
  using assms(2)
proof (elim disjE conjE)
  assume "Wallet_Debit w a now = Inr w'" "s = -1"
  then show ?thesis
    using assms(1) debit.move_wf debit.move_balance debit.move_frame [of w a now w'] by simp
next
  assume "Wallet_Credit w a now = Inr w'" "s = 1"
  then show ?thesis
    using assms(1) credit.move_wf credit.move_balance credit.move_frame [of w a now w'] by simp
qed

theorem wallet_movements_keep_wf_witness:
  "wallet_wf (sample_wallet\<lparr>wlt_balance := \<lparr>minorUnits = 2000, moneyCurrency = ''BRL''\<rparr>,
     wlt_version := 2, wlt_updatedAt := 9\<rparr>)"
proof -
  have wf: "wallet_wf sample_wallet"
    by (simp add: wallet_wf_def sample_wallet_def)
  have "Wallet_Debit sample_wallet \<lparr>minorUnits = 8000, moneyCurrency = ''BRL''\<rparr> 9 =
     Inr (sample_wallet\<lparr>wlt_balance := \<lparr>minorUnits = 2000, moneyCurrency = ''BRL''\<rparr>,
                        wlt_version := 2, wlt_updatedAt := 9\<rparr>)"
    by (simp add: Wallet_Debit_cases [OF wf]) (simp add: sample_wallet_def wallet_minor_def money_minor_def)
  then show ?thesis using wallet_movements_keep_wf [OF wf] by blast
qed

text \<open>A ledger entry is rehydrated exactly when its balance after is its balance before plus
  its signed amount in the same currency, which every newly built entry satisfies.\<close>

theorem ledger_entry_balance_math:
  "(NewWalletLedgerEntry p = Inr e \<longrightarrow> le_wf e \<and> 0 < money_minor (le_amount e) \<and> RehydrateWalletLedgerEntry e = Inr e)
   \<and> (RehydrateWalletLedgerEntry e = Inr e' \<longrightarrow> le_wf e \<and> e' = e)"
  using NewWalletLedgerEntry_wf [of p e] NewWalletLedgerEntry_rehydrates [of p e]
  by (auto simp: RehydrateWalletLedgerEntry_Inr_iff le_wf_def le_effect_def dest: applyDirection_Inr)

theorem ledger_entry_balance_math_witness:
  "le_wf \<lparr>le_id = 1, le_walletID = 2, le_transactionID = 3, le_direction = Debit,
     le_amount = \<lparr>minorUnits = 80, moneyCurrency = BRL\<rparr>,
     le_balanceBefore = \<lparr>minorUnits = 100, moneyCurrency = BRL\<rparr>,
     le_balanceAfter = \<lparr>minorUnits = 20, moneyCurrency = BRL\<rparr>, le_createdAt = 7\<rparr>"
proof -
  have "NewWalletLedgerEntry \<lparr>nl_ID = 1, nl_WalletID = 2, nl_TransactionID = 3, nl_Direction = Debit,
      nl_Amount = \<lparr>minorUnits = 80, moneyCurrency = BRL\<rparr>,
      nl_BalanceBefore = \<lparr>minorUnits = 100, moneyCurrency = BRL\<rparr>, nl_Now = 7\<rparr> =
    Inr \<lparr>le_id = 1, le_walletID = 2, le_transactionID = 3, le_direction = Debit,
     le_amount = \<lparr>minorUnits = 80, moneyCurrency = BRL\<rparr>,
     le_balanceBefore = \<lparr>minorUnits = 100, moneyCurrency = BRL\<rparr>,
     le_balanceAfter = \<lparr>minorUnits = 20, moneyCurrency = BRL\<rparr>, le_createdAt = 7\<rparr>"
    by (simp add: NewWalletLedgerEntry_def Money_IsPositive_def time_IsZero_def Money_Sub_def
        sameCurrency_def subInt64_eq int64_simps fits64_def int64_eq_iff)
  then show ?thesis using ledger_entry_balance_math by blast
qed

end
