(* ===== verification/WagerTx.thy ===== *)
theory WagerTx
  imports Money
begin

text \<open>
  \<open>internal/domain/wagertx\<close>: the kinds, statuses and failure codes, the wager transaction with
  its constructors, and its state machine. A typed string constant of the sources is a
  constructor; any other string is carried by the last constructor of the type, and the
  conversions from and to \<open>string\<close> are the Go conversions. A method with a pointer receiver
  returns the updated transaction or the error; on an error the receiver is unchanged.
\<close>

section \<open>Kinds\<close>

datatype kind = Opening | Bet | Win | Loss | Refund | Rollback | UnknownKind string

fun kind_string :: "kind \<Rightarrow> string" where
  "kind_string Opening = ''OPENING''"
| "kind_string Bet = ''BET''"
| "kind_string Win = ''WIN''"
| "kind_string Loss = ''LOSS''"
| "kind_string Refund = ''REFUND''"
| "kind_string Rollback = ''ROLLBACK''"
| "kind_string (UnknownKind s) = s"

definition kind_of_string :: "string \<Rightarrow> kind" where
  "kind_of_string s =
     (if s = ''OPENING'' then Opening else if s = ''BET'' then Bet else if s = ''WIN'' then Win
      else if s = ''LOSS'' then Loss else if s = ''REFUND'' then Refund
      else if s = ''ROLLBACK'' then Rollback else UnknownKind s)"

fun externalKinds :: "kind \<Rightarrow> bool" where
  "externalKinds Bet = True"
| "externalKinds Win = True"
| "externalKinds Loss = True"
| "externalKinds Refund = True"
| "externalKinds Rollback = True"
| "externalKinds _ = False"

definition Kind_IsValidExternal :: "kind \<Rightarrow> bool" where
  "Kind_IsValidExternal k \<longleftrightarrow> externalKinds k"

definition Kind_IsValid :: "kind \<Rightarrow> bool" where
  "Kind_IsValid k \<longleftrightarrow> k = Opening \<or> externalKinds k"

definition Kind_RequiresReference :: "kind \<Rightarrow> bool" where
  "Kind_RequiresReference k \<longleftrightarrow> k = Refund \<or> k = Rollback"

definition Kind_AllowsReference :: "kind \<Rightarrow> bool" where
  "Kind_AllowsReference k \<longleftrightarrow> k = Win \<or> Kind_RequiresReference k"

lemma kind_of_string_string [simp]: "Kind_IsValid k \<Longrightarrow> kind_of_string (kind_string k) = k"
  by (cases k) (simp_all add: kind_of_string_def Kind_IsValid_def)

lemma kind_string_of_string [simp]: "kind_string (kind_of_string s) = s"
  by (simp add: kind_of_string_def)

section \<open>Statuses\<close>

datatype status = Pending | PendingReference | Processed | Rejected | Failed | UnknownStatus string

fun status_string :: "status \<Rightarrow> string" where
  "status_string Pending = ''PENDING''"
| "status_string PendingReference = ''PENDING_REFERENCE''"
| "status_string Processed = ''PROCESSED''"
| "status_string Rejected = ''REJECTED''"
| "status_string Failed = ''FAILED''"
| "status_string (UnknownStatus s) = s"

definition status_of_string :: "string \<Rightarrow> status" where
  "status_of_string s =
     (if s = ''PENDING'' then Pending else if s = ''PENDING_REFERENCE'' then PendingReference
      else if s = ''PROCESSED'' then Processed else if s = ''REJECTED'' then Rejected
      else if s = ''FAILED'' then Failed else UnknownStatus s)"

text \<open>\<open>allowedTransitions\<close>: a missing row or entry of the map is false.\<close>

fun allowedTransitions :: "status \<Rightarrow> status \<Rightarrow> bool" where
  "allowedTransitions Pending next = (next \<in> {Processed, Rejected, Failed, PendingReference})"
| "allowedTransitions PendingReference next = (next \<in> {Processed, Rejected, Failed})"
| "allowedTransitions _ next = False"

fun Status_IsValid :: "status \<Rightarrow> bool" where
  "Status_IsValid (UnknownStatus s) = False"
| "Status_IsValid _ = True"

definition Status_IsTerminal :: "status \<Rightarrow> bool" where
  "Status_IsTerminal s \<longleftrightarrow> s = Processed \<or> s = Rejected \<or> s = Failed"

lemma status_of_string_string [simp]: "Status_IsValid s \<Longrightarrow> status_of_string (status_string s) = s"
  by (cases s) (simp_all add: status_of_string_def)

lemma status_string_of_string [simp]: "status_string (status_of_string s) = s"
  by (simp add: status_of_string_def)

section \<open>Failure codes\<close>

text \<open>\<open>NoFailure\<close> is the empty string, the zero value of \<open>FailureCode\<close>.\<close>

datatype failure_code =
    NoFailure | FailureInsufficientBalance | FailureInsufficientBalanceForReversal
  | FailureReferenceNotFound | FailureReferenceMismatch | FailureReferenceNotSuccessful
  | FailureDuplicateReversal | FailureCurrencyMismatch | FailureInvalidAmount
  | FailureInfrastructure | UnknownFailure string

fun failure_string :: "failure_code \<Rightarrow> string" where
  "failure_string NoFailure = []"
| "failure_string FailureInsufficientBalance = ''INSUFFICIENT_BALANCE''"
| "failure_string FailureInsufficientBalanceForReversal = ''INSUFFICIENT_BALANCE_FOR_REVERSAL''"
| "failure_string FailureReferenceNotFound = ''REFERENCE_NOT_FOUND''"
| "failure_string FailureReferenceMismatch = ''REFERENCE_MISMATCH''"
| "failure_string FailureReferenceNotSuccessful = ''REFERENCE_NOT_SUCCESSFUL''"
| "failure_string FailureDuplicateReversal = ''DUPLICATE_REVERSAL''"
| "failure_string FailureCurrencyMismatch = ''CURRENCY_MISMATCH''"
| "failure_string FailureInvalidAmount = ''INVALID_AMOUNT''"
| "failure_string FailureInfrastructure = ''INFRASTRUCTURE_FAILURE''"
| "failure_string (UnknownFailure s) = s"

definition failure_of_string :: "string \<Rightarrow> failure_code" where
  "failure_of_string s =
     (if s = [] then NoFailure
      else if s = ''INSUFFICIENT_BALANCE'' then FailureInsufficientBalance
      else if s = ''INSUFFICIENT_BALANCE_FOR_REVERSAL'' then FailureInsufficientBalanceForReversal
      else if s = ''REFERENCE_NOT_FOUND'' then FailureReferenceNotFound
      else if s = ''REFERENCE_MISMATCH'' then FailureReferenceMismatch
      else if s = ''REFERENCE_NOT_SUCCESSFUL'' then FailureReferenceNotSuccessful
      else if s = ''DUPLICATE_REVERSAL'' then FailureDuplicateReversal
      else if s = ''CURRENCY_MISMATCH'' then FailureCurrencyMismatch
      else if s = ''INVALID_AMOUNT'' then FailureInvalidAmount
      else if s = ''INFRASTRUCTURE_FAILURE'' then FailureInfrastructure
      else UnknownFailure s)"

definition known_failure :: "failure_code \<Rightarrow> bool" where
  "known_failure c \<longleftrightarrow> (\<forall>s. c \<noteq> UnknownFailure s)"

lemma failure_of_string_string [simp]: "known_failure c \<Longrightarrow> failure_of_string (failure_string c) = c"
  by (cases c) (simp_all add: failure_of_string_def known_failure_def)

lemma failure_string_empty [simp]: "known_failure c \<Longrightarrow> failure_string c = [] \<longleftrightarrow> c = NoFailure"
  by (cases c) (simp_all add: known_failure_def)

section \<open>The transaction and its constructors\<close>

record wager_tx =
  tx_id :: uuid
  tx_walletID :: uuid
  tx_playerID :: uuid
  tx_kind :: kind
  tx_money :: money
  tx_status :: status
  tx_providerID :: string
  tx_externalTransactionID :: string
  tx_idempotencyKey :: string
  tx_payloadHash :: string
  tx_roundID :: string
  tx_gameID :: string
  tx_referenceExternalTxID :: string
  tx_referenceTransactionID :: uuid
  tx_failureCode :: failure_code
  tx_resultingBalance :: money
  tx_hasResultingBalance :: bool
  tx_createdAt :: time
  tx_updatedAt :: time

record new_opening_params =
  no_ID :: uuid
  no_WalletID :: uuid
  no_PlayerID :: uuid
  no_Money :: money
  no_Now :: time

definition NewOpening :: "new_opening_params \<Rightarrow> goerr + wager_tx" where
  "NewOpening p =
     (if no_ID p = uuid_Nil \<or> no_WalletID p = uuid_Nil \<or> no_PlayerID p = uuid_Nil
        then Inl (WrapErr ''missing identity fields'' (TxErr ErrInvalidTransaction))
      else if \<not> Money_IsPositive (no_Money p)
        then Inl (WrapErr ''OPENING requires a positive amount'' (TxErr ErrInvalidAmountForKind))
      else if time_IsZero (no_Now p) then Inl (WrapErr ''now is required'' (TxErr ErrInvalidTransaction))
      else Inr \<lparr>tx_id = no_ID p, tx_walletID = no_WalletID p, tx_playerID = no_PlayerID p,
                tx_kind = Opening, tx_money = no_Money p, tx_status = Processed,
                tx_providerID = [], tx_externalTransactionID = [], tx_idempotencyKey = [],
                tx_payloadHash = [], tx_roundID = [], tx_gameID = [],
                tx_referenceExternalTxID = [], tx_referenceTransactionID = uuid_Nil,
                tx_failureCode = NoFailure, tx_resultingBalance = no_Money p,
                tx_hasResultingBalance = True, tx_createdAt = no_Now p, tx_updatedAt = no_Now p\<rparr>)"

record new_external_params =
  ne_ID :: uuid
  ne_ProviderID :: string
  ne_ExternalTransactionID :: string
  ne_IdempotencyKey :: string
  ne_PayloadHash :: string
  ne_WalletID :: uuid
  ne_PlayerID :: uuid
  ne_RoundID :: string
  ne_GameID :: string
  ne_Kind :: kind
  ne_Money :: money
  ne_ReferenceExternalTransactionID :: string
  ne_Now :: time

text \<open>The \<open>switch\<close> of \<open>NewExternal\<close> on the amount; a kind without a case passes.\<close>

fun amount_for_kind :: "kind \<Rightarrow> money \<Rightarrow> goerr option" where
  "amount_for_kind Loss m =
     (if \<not> Money_IsZero m
      then Some (WrapErr ''LOSS requires amount 0.00'' (TxErr ErrInvalidAmountForKind)) else None)"
| "amount_for_kind Opening m = None"
| "amount_for_kind (UnknownKind s) m = None"
| "amount_for_kind k m =
     (if \<not> Money_IsPositive m
      then Some (WrapErr (kind_string k @ '' requires a positive amount'') (TxErr ErrInvalidAmountForKind))
      else None)"

definition NewExternal :: "new_external_params \<Rightarrow> goerr + wager_tx" where
  "NewExternal p =
     (if ne_Kind p = Opening then Inl (TxErr ErrOpeningNotExternal)
      else if \<not> Kind_IsValidExternal (ne_Kind p)
        then Inl (WrapErr (kind_string (ne_Kind p)) (TxErr ErrInvalidKind))
      else if ne_ID p = uuid_Nil \<or> ne_WalletID p = uuid_Nil \<or> ne_PlayerID p = uuid_Nil
        then Inl (WrapErr ''missing identity fields'' (TxErr ErrInvalidTransaction))
      else if ne_ProviderID p = [] \<or> ne_ExternalTransactionID p = [] \<or> ne_IdempotencyKey p = []
           \<or> ne_PayloadHash p = [] \<or> ne_RoundID p = [] \<or> ne_GameID p = []
        then Inl (WrapErr ''missing required external metadata'' (TxErr ErrInvalidTransaction))
      else if time_IsZero (ne_Now p) then Inl (WrapErr ''now is required'' (TxErr ErrInvalidTransaction))
      else case amount_for_kind (ne_Kind p) (ne_Money p) of
        Some err \<Rightarrow> Inl err
      | None \<Rightarrow>
          if Kind_RequiresReference (ne_Kind p) \<and> ne_ReferenceExternalTransactionID p = []
            then Inl (WrapErr (kind_string (ne_Kind p)) (TxErr ErrReferenceRequired))
          else if \<not> Kind_AllowsReference (ne_Kind p) \<and> ne_ReferenceExternalTransactionID p \<noteq> []
            then Inl (WrapErr (kind_string (ne_Kind p)) (TxErr ErrReferenceNotApplicable))
          else Inr \<lparr>tx_id = ne_ID p, tx_walletID = ne_WalletID p, tx_playerID = ne_PlayerID p,
                tx_kind = ne_Kind p, tx_money = ne_Money p, tx_status = Pending,
                tx_providerID = ne_ProviderID p, tx_externalTransactionID = ne_ExternalTransactionID p,
                tx_idempotencyKey = ne_IdempotencyKey p, tx_payloadHash = ne_PayloadHash p,
                tx_roundID = ne_RoundID p, tx_gameID = ne_GameID p,
                tx_referenceExternalTxID = ne_ReferenceExternalTransactionID p,
                tx_referenceTransactionID = uuid_Nil, tx_failureCode = NoFailure,
                tx_resultingBalance = Money0, tx_hasResultingBalance = False,
                tx_createdAt = ne_Now p, tx_updatedAt = ne_Now p\<rparr>)"

text \<open>
  \<open>RehydrateParams\<close> has the fields of the transaction but for \<open>hasResultingBalance\<close>, which
  \<open>Rehydrate\<close> computes; that field of the argument is not read.
\<close>

definition wagertx_Rehydrate :: "wager_tx \<Rightarrow> goerr + wager_tx" where
  "wagertx_Rehydrate p =
     (if tx_id p = uuid_Nil \<or> tx_walletID p = uuid_Nil \<or> tx_playerID p = uuid_Nil
        then Inl (WrapErr ''missing identity fields'' (TxErr ErrInvalidTransaction))
      else if \<not> Kind_IsValid (tx_kind p)
        then Inl (WrapErr (kind_string (tx_kind p)) (TxErr ErrInvalidKind))
      else if \<not> Status_IsValid (tx_status p)
        then Inl (WrapErr (status_string (tx_status p)) (TxErr ErrInvalidStatus))
      else Inr (p\<lparr>tx_hasResultingBalance := (tx_status p = Processed)\<rparr>))"

section \<open>Methods\<close>

definition Tx_IsTerminal :: "wager_tx \<Rightarrow> bool" where
  "Tx_IsTerminal t \<longleftrightarrow> Status_IsTerminal (tx_status t)"

definition Tx_ResultingBalance :: "wager_tx \<Rightarrow> money \<times> bool" where
  "Tx_ResultingBalance t = (tx_resultingBalance t, tx_hasResultingBalance t)"

definition transitionTo :: "wager_tx \<Rightarrow> status \<Rightarrow> time \<Rightarrow> goerr + wager_tx" where
  "transitionTo t next now =
     (if \<not> allowedTransitions (tx_status t) next
      then Inl (WrapErr (status_string (tx_status t) @ '' -> '' @ status_string next) (TxErr ErrInvalidTransition))
      else Inr (t\<lparr>tx_status := next, tx_updatedAt := now\<rparr>))"

definition MarkProcessed :: "wager_tx \<Rightarrow> money \<Rightarrow> time \<Rightarrow> goerr + wager_tx" where
  "MarkProcessed t resultingBalance now =
     bindR (transitionTo t Processed now) (\<lambda>t.
       Inr (t\<lparr>tx_resultingBalance := resultingBalance, tx_hasResultingBalance := True\<rparr>))"

definition MarkRejected :: "wager_tx \<Rightarrow> failure_code \<Rightarrow> time \<Rightarrow> goerr + wager_tx" where
  "MarkRejected t code now =
     (if failure_string code = []
      then Inl (WrapErr ''failure code is required'' (TxErr ErrInvalidTransaction))
      else bindR (transitionTo t Rejected now) (\<lambda>t. Inr (t\<lparr>tx_failureCode := code\<rparr>)))"

definition MarkFailed :: "wager_tx \<Rightarrow> failure_code \<Rightarrow> time \<Rightarrow> goerr + wager_tx" where
  "MarkFailed t code now =
     (if failure_string code = []
      then Inl (WrapErr ''failure code is required'' (TxErr ErrInvalidTransaction))
      else bindR (transitionTo t Failed now) (\<lambda>t. Inr (t\<lparr>tx_failureCode := code\<rparr>)))"

definition MarkPendingReference :: "wager_tx \<Rightarrow> time \<Rightarrow> goerr + wager_tx" where
  "MarkPendingReference t now =
     (if \<not> Kind_RequiresReference (tx_kind t)
      then Inl (WrapErr ''only REFUND and ROLLBACK can be PENDING_REFERENCE'' (TxErr ErrInvalidTransition))
      else transitionTo t PendingReference now)"

definition ResolveReference :: "wager_tx \<Rightarrow> uuid \<Rightarrow> goerr + wager_tx" where
  "ResolveReference t ref =
     (if Tx_IsTerminal t
        then Inl (WrapErr ''cannot resolve reference on a terminal transaction'' (TxErr ErrTerminalState))
      else if ref = uuid_Nil
        then Inl (WrapErr ''referenceTransactionId is required'' (TxErr ErrInvalidTransaction))
      else Inr (t\<lparr>tx_referenceTransactionID := ref\<rparr>))"

section \<open>Well-formed transactions\<close>

text \<open>
  The invariant of the type: what the constructors establish and every method keeps. Its parts
  on the kind are fixed at construction (\<open>tx_origin\<close>), the parts on the status move with the
  state machine (\<open>tx_outcome\<close>).
\<close>

definition tx_external_fields :: "wager_tx \<Rightarrow> string list" where
  "tx_external_fields t = [tx_providerID t, tx_externalTransactionID t, tx_idempotencyKey t,
     tx_payloadHash t, tx_roundID t, tx_gameID t]"

definition tx_origin :: "wager_tx \<Rightarrow> bool" where
  "tx_origin t \<longleftrightarrow>
     tx_id t \<noteq> uuid_Nil \<and> tx_walletID t \<noteq> uuid_Nil \<and> tx_playerID t \<noteq> uuid_Nil
     \<and> Kind_IsValid (tx_kind t)
     \<and> (if tx_kind t = Opening then list_all (\<lambda>f. f = []) (tx_external_fields t)
        else list_all (\<lambda>f. f \<noteq> []) (tx_external_fields t))
     \<and> (if Kind_RequiresReference (tx_kind t) then tx_referenceExternalTxID t \<noteq> []
        else tx_kind t = Win \<or> tx_referenceExternalTxID t = [])
     \<and> (if tx_kind t = Loss then money_minor (tx_money t) = 0 else 0 < money_minor (tx_money t))"

definition tx_outcome :: "wager_tx \<Rightarrow> bool" where
  "tx_outcome t \<longleftrightarrow>
     Status_IsValid (tx_status t)
     \<and> (tx_hasResultingBalance t \<longleftrightarrow> tx_status t = Processed)
     \<and> (failure_string (tx_failureCode t) \<noteq> [] \<longleftrightarrow> tx_status t = Rejected \<or> tx_status t = Failed)
     \<and> (tx_status t = PendingReference \<longrightarrow> Kind_RequiresReference (tx_kind t))"

definition tx_wf :: "wager_tx \<Rightarrow> bool" where
  "tx_wf t \<longleftrightarrow> tx_origin t \<and> tx_outcome t"

lemma NewOpening_wf: "NewOpening p = Inr t \<Longrightarrow> tx_wf t \<and> tx_status t = Processed \<and> tx_kind t = Opening"
  by (auto simp: NewOpening_def tx_wf_def tx_origin_def tx_outcome_def tx_external_fields_def
      Kind_IsValid_def Kind_RequiresReference_def money_sign_sint money_minor_def split: if_splits)

lemma amount_for_kind_None:
  "Kind_IsValidExternal k \<Longrightarrow> amount_for_kind k m = None \<longleftrightarrow>
     (if k = Loss then money_minor m = 0 else 0 < money_minor m)"
  by (cases k) (auto simp: Kind_IsValidExternal_def money_sign_sint money_minor_def)

lemma NewExternal_Inr:
  assumes "NewExternal p = Inr t"
  shows "Kind_IsValidExternal (ne_Kind p) \<and> ne_Kind p \<noteq> Opening \<and> amount_for_kind (ne_Kind p) (ne_Money p) = None
    \<and> (Kind_RequiresReference (ne_Kind p) \<longrightarrow> ne_ReferenceExternalTransactionID p \<noteq> [])
    \<and> (Kind_AllowsReference (ne_Kind p) \<or> ne_ReferenceExternalTransactionID p = [])"
  using assms unfolding NewExternal_def by (simp split: if_splits option.splits)

lemma NewExternal_fields:
  assumes "NewExternal p = Inr t"
  shows "t = \<lparr>tx_id = ne_ID p, tx_walletID = ne_WalletID p, tx_playerID = ne_PlayerID p,
                tx_kind = ne_Kind p, tx_money = ne_Money p, tx_status = Pending,
                tx_providerID = ne_ProviderID p, tx_externalTransactionID = ne_ExternalTransactionID p,
                tx_idempotencyKey = ne_IdempotencyKey p, tx_payloadHash = ne_PayloadHash p,
                tx_roundID = ne_RoundID p, tx_gameID = ne_GameID p,
                tx_referenceExternalTxID = ne_ReferenceExternalTransactionID p,
                tx_referenceTransactionID = uuid_Nil, tx_failureCode = NoFailure,
                tx_resultingBalance = Money0, tx_hasResultingBalance = False,
                tx_createdAt = ne_Now p, tx_updatedAt = ne_Now p\<rparr>"
    and "ne_ID p \<noteq> uuid_Nil" "ne_WalletID p \<noteq> uuid_Nil" "ne_PlayerID p \<noteq> uuid_Nil"
    and "list_all (\<lambda>f. f \<noteq> []) [ne_ProviderID p, ne_ExternalTransactionID p, ne_IdempotencyKey p,
           ne_PayloadHash p, ne_RoundID p, ne_GameID p]"
    and "ne_Now p \<noteq> 0"
  using assms unfolding NewExternal_def time_IsZero_def by (simp_all split: if_splits option.splits)

lemma NewExternal_wf:
  assumes "NewExternal p = Inr t"
  shows "tx_wf t \<and> tx_status t = Pending \<and> Kind_IsValidExternal (tx_kind t)"
  using NewExternal_fields [OF assms] NewExternal_Inr [OF assms] amount_for_kind_None [of "ne_Kind p" "ne_Money p"]
  by (auto simp: tx_wf_def tx_origin_def tx_outcome_def tx_external_fields_def
      Kind_IsValid_def Kind_IsValidExternal_def Kind_AllowsReference_def)

section \<open>The state machine\<close>

text \<open>The five methods that change a transaction, as one step relation.\<close>

inductive tx_step :: "wager_tx \<Rightarrow> wager_tx \<Rightarrow> bool" where
  processed: "MarkProcessed t b now = Inr t' \<Longrightarrow> tx_step t t'"
| rejected: "MarkRejected t c now = Inr t' \<Longrightarrow> tx_step t t'"
| failed: "MarkFailed t c now = Inr t' \<Longrightarrow> tx_step t t'"
| parked: "MarkPendingReference t now = Inr t' \<Longrightarrow> tx_step t t'"
| resolved: "ResolveReference t ref = Inr t' \<Longrightarrow> tx_step t t'"

inductive_cases tx_stepE: "tx_step t t'"

lemmas tx_method_defs = MarkProcessed_def MarkRejected_def MarkFailed_def MarkPendingReference_def
  ResolveReference_def transitionTo_def

lemma transitionTo_Inr_iff:
  "transitionTo t s now = Inr t' \<longleftrightarrow>
     allowedTransitions (tx_status t) s \<and> t' = t\<lparr>tx_status := s, tx_updatedAt := now\<rparr>"
  by (auto simp: transitionTo_def)

lemma MarkProcessed_Inr_iff:
  "MarkProcessed t b now = Inr t' \<longleftrightarrow> tx_status t \<in> {Pending, PendingReference}
     \<and> t' = t\<lparr>tx_status := Processed, tx_updatedAt := now, tx_resultingBalance := b,
              tx_hasResultingBalance := True\<rparr>"
  by (cases "tx_status t") (auto simp: MarkProcessed_def bindR_Inr_iff transitionTo_Inr_iff)

lemma MarkRejected_Inr_iff:
  "MarkRejected t c now = Inr t' \<longleftrightarrow> failure_string c \<noteq> [] \<and> tx_status t \<in> {Pending, PendingReference}
     \<and> t' = t\<lparr>tx_status := Rejected, tx_updatedAt := now, tx_failureCode := c\<rparr>"
  by (cases "tx_status t") (auto simp: MarkRejected_def bindR_Inr_iff transitionTo_Inr_iff)

lemma MarkFailed_Inr_iff:
  "MarkFailed t c now = Inr t' \<longleftrightarrow> failure_string c \<noteq> [] \<and> tx_status t \<in> {Pending, PendingReference}
     \<and> t' = t\<lparr>tx_status := Failed, tx_updatedAt := now, tx_failureCode := c\<rparr>"
  by (cases "tx_status t") (auto simp: MarkFailed_def bindR_Inr_iff transitionTo_Inr_iff)

lemma MarkPendingReference_Inr_iff:
  "MarkPendingReference t now = Inr t' \<longleftrightarrow> Kind_RequiresReference (tx_kind t) \<and> tx_status t = Pending
     \<and> t' = t\<lparr>tx_status := PendingReference, tx_updatedAt := now\<rparr>"
  by (cases "tx_status t") (auto simp: MarkPendingReference_def transitionTo_Inr_iff)

lemma ResolveReference_Inr_iff:
  "ResolveReference t ref = Inr t' \<longleftrightarrow> \<not> Status_IsTerminal (tx_status t) \<and> ref \<noteq> uuid_Nil
     \<and> t' = t\<lparr>tx_referenceTransactionID := ref\<rparr>"
  by (auto simp: ResolveReference_def Tx_IsTerminal_def)

lemmas tx_method_iffs = MarkProcessed_Inr_iff MarkRejected_Inr_iff MarkFailed_Inr_iff
  MarkPendingReference_Inr_iff ResolveReference_Inr_iff

lemma tx_step_origin: "tx_step t t' \<Longrightarrow> tx_origin t' = tx_origin t"
  by (induction rule: tx_step.induct)
    (auto simp: tx_method_iffs tx_origin_def tx_external_fields_def)

lemma tx_step_outcome: "tx_step t t' \<Longrightarrow> tx_outcome t \<Longrightarrow> tx_outcome t'"
  by (induction rule: tx_step.induct) (auto simp: tx_method_iffs tx_outcome_def)

lemma tx_step_wf: "tx_step t t' \<Longrightarrow> tx_wf t \<Longrightarrow> tx_wf t'"
  by (simp add: tx_wf_def tx_step_origin tx_step_outcome)

text \<open>Progress of a status through the machine: what is left of the way to a terminal one.\<close>

fun status_rank :: "status \<Rightarrow> nat" where
  "status_rank Pending = 2"
| "status_rank PendingReference = 1"
| "status_rank _ = 0"

lemma status_rank_terminal: "Status_IsValid s \<Longrightarrow> status_rank s = 0 \<longleftrightarrow> Status_IsTerminal s"
  by (cases s) (simp_all add: Status_IsTerminal_def)

lemma allowedTransitions_rank: "allowedTransitions s s' \<Longrightarrow> status_rank s' < status_rank s"
  by (cases s) auto

lemma tx_step_rank:
  "tx_step t t' \<Longrightarrow> tx_status t' = tx_status t \<or> status_rank (tx_status t') < status_rank (tx_status t)"
  by (induction rule: tx_step.induct) (auto simp: tx_method_iffs)

text \<open>The identity of a transaction: every field that no method writes.\<close>

definition tx_frozen :: "wager_tx \<Rightarrow> wager_tx" where
  "tx_frozen t = t\<lparr>tx_status := Pending, tx_referenceTransactionID := uuid_Nil,
     tx_failureCode := NoFailure, tx_resultingBalance := Money0, tx_hasResultingBalance := False,
     tx_updatedAt := 0\<rparr>"

lemma tx_step_frozen: "tx_step t t' \<Longrightarrow> tx_frozen t' = tx_frozen t"
  by (induction rule: tx_step.induct) (auto simp: tx_method_iffs tx_frozen_def)

section \<open>Properties\<close>

text \<open>A terminal transaction is frozen: no method succeeds on it.\<close>

theorem terminal_is_final: "Status_IsTerminal (tx_status t) \<Longrightarrow> \<not> tx_step t t'"
  by (auto simp: tx_method_iffs Status_IsTerminal_def elim!: tx_stepE)

definition sample_opening :: wager_tx where
  "sample_opening = \<lparr>tx_id = 1, tx_walletID = 2, tx_playerID = 3, tx_kind = Opening,
     tx_money = \<lparr>minorUnits = 500, moneyCurrency = BRL\<rparr>, tx_status = Processed,
     tx_providerID = [], tx_externalTransactionID = [], tx_idempotencyKey = [],
     tx_payloadHash = [], tx_roundID = [], tx_gameID = [], tx_referenceExternalTxID = [],
     tx_referenceTransactionID = 0, tx_failureCode = NoFailure,
     tx_resultingBalance = \<lparr>minorUnits = 500, moneyCurrency = BRL\<rparr>,
     tx_hasResultingBalance = True, tx_createdAt = 9, tx_updatedAt = 9\<rparr>"

theorem terminal_is_final_witness: "\<not> tx_step sample_opening sample_opening"
  by (rule terminal_is_final) (simp add: sample_opening_def Status_IsTerminal_def)

text \<open>Every transaction that the constructors build and any sequence of method calls leads to
  is well-formed: in particular it has a resulting balance exactly when it is processed, a failure
  code exactly when it is rejected or failed, and waits for a reference only when it is a refund
  or a rollback; and its identity, kind, amount and metadata are those it was built with.\<close>

theorem tx_lifecycle_wf:
  assumes "NewExternal p = Inr t0 \<or> NewOpening q = Inr t0" and "tx_step\<^sup>*\<^sup>* t0 t"
  shows "tx_wf t \<and> tx_frozen t = tx_frozen t0"
  using assms(2)
proof (induction rule: rtranclp_induct)
  case base
  then show ?case using assms(1) NewExternal_wf NewOpening_wf by blast
next
  case (step t t')
  then show ?case using tx_step_wf tx_step_frozen by metis
qed

theorem tx_lifecycle_wf_witness: "tx_wf sample_opening"
proof -
  have "NewOpening \<lparr>no_ID = 1, no_WalletID = 2, no_PlayerID = 3,
      no_Money = \<lparr>minorUnits = 500, moneyCurrency = BRL\<rparr>, no_Now = 9\<rparr> = Inr sample_opening"
    by (simp add: NewOpening_def sample_opening_def Money_IsPositive_def time_IsZero_def int64_simps)
  then show ?thesis using tx_lifecycle_wf [of undefined sample_opening _ sample_opening] by blast
qed

text \<open>A transaction changes its status at most twice: every step that changes it moves to a
  status of lower rank, the rank starts at two, and it is zero exactly at the terminal statuses.\<close>

theorem tx_status_progress:
  assumes "tx_step\<^sup>*\<^sup>* t t'"
  shows "(tx_status t' = tx_status t \<or> status_rank (tx_status t') < status_rank (tx_status t))
    \<and> status_rank (tx_status t) \<le> 2
    \<and> (Status_IsValid (tx_status t) \<longrightarrow> (status_rank (tx_status t) = 0 \<longleftrightarrow> Status_IsTerminal (tx_status t)))"
proof -
  have "tx_status t' = tx_status t \<or> status_rank (tx_status t') < status_rank (tx_status t)"
    using assms by (induction rule: rtranclp_induct) (auto dest: tx_step_rank)
  moreover have "status_rank s \<le> 2" for s by (cases s) simp_all
  ultimately show ?thesis by (simp add: status_rank_terminal)
qed

theorem tx_status_progress_witness:
  "status_rank (tx_status (sample_opening\<lparr>tx_status := Rejected, tx_failureCode := FailureCurrencyMismatch\<rparr>))
     < status_rank (tx_status (sample_opening\<lparr>tx_status := Pending\<rparr>))"
proof -
  have "tx_step (sample_opening\<lparr>tx_status := Pending\<rparr>)
      (sample_opening\<lparr>tx_status := Rejected, tx_failureCode := FailureCurrencyMismatch\<rparr>)"
    by (rule tx_step.rejected [where c = FailureCurrencyMismatch and now = 9])
      (simp add: MarkRejected_Inr_iff sample_opening_def)
  then show ?thesis
    using tx_status_progress [OF r_into_rtranclp] by fastforce
qed

end
