(* ===== verification/Event.thy ===== *)
theory Event
  imports Environment GoTime Wallet WagerTx
begin

text \<open>
  \<open>internal/domain/event/event.go\<close>: the integration events. The \<open>Payload\<close> interface is the
  datatype of its four implementations. The identifier that \<open>newEnvelope\<close> draws with
  \<open>uuid.New\<close> is an argument. \<open>MarshalJSON\<close> yields a JSON value: the members that
  \<open>encoding/json\<close> writes, in order, the ones marked \<open>omitempty\<close> left out when empty.
\<close>

datatype event_type =
    TypeWagerTransactionProcessed | TypeWagerTransactionRejected
  | TypeWagerTransactionPendingReference | TypeWalletBalanceChanged

fun event_type_string :: "event_type \<Rightarrow> string" where
  "event_type_string TypeWagerTransactionProcessed = ''WagerTransactionProcessed''"
| "event_type_string TypeWagerTransactionRejected = ''WagerTransactionRejected''"
| "event_type_string TypeWagerTransactionPendingReference = ''WagerTransactionPendingReference''"
| "event_type_string TypeWalletBalanceChanged = ''WalletBalanceChanged''"

definition currentVersion :: int where
  "currentVersion = 1"

record processed_data =
  pd_TransactionID :: string
  pd_WalletID :: string
  pd_PlayerID :: string
  pd_ProviderID :: string
  pd_ExternalTransactionID :: string
  pd_RoundID :: string
  pd_GameID :: string
  pd_Kind :: string
  pd_Money :: money
  pd_Balance :: money
  pd_ProcessedAt :: string

record rejected_data =
  rd_TransactionID :: string
  rd_WalletID :: string
  rd_PlayerID :: string
  rd_ProviderID :: string
  rd_ExternalTransactionID :: string
  rd_RoundID :: string
  rd_GameID :: string
  rd_Kind :: string
  rd_Money :: money
  rd_FailureCode :: string
  rd_RejectedAt :: string

record pending_data =
  qd_TransactionID :: string
  qd_WalletID :: string
  qd_PlayerID :: string
  qd_ProviderID :: string
  qd_ExternalTransactionID :: string
  qd_ReferenceExternalTransactionID :: string
  qd_Kind :: string
  qd_Money :: money
  qd_PendingSince :: string

record balance_changed_data =
  bd_WalletID :: string
  bd_TransactionID :: string
  bd_Direction :: string
  bd_Money :: money
  bd_BalanceBefore :: money
  bd_BalanceAfter :: money
  bd_WalletVersion :: int64
  bd_ChangedAt :: string

datatype payload =
    ProcessedPayload processed_data
  | RejectedPayload rejected_data
  | PendingPayload pending_data
  | BalanceChangedPayload balance_changed_data

fun Payload_Type :: "payload \<Rightarrow> event_type" where
  "Payload_Type (ProcessedPayload d) = TypeWagerTransactionProcessed"
| "Payload_Type (RejectedPayload d) = TypeWagerTransactionRejected"
| "Payload_Type (PendingPayload d) = TypeWagerTransactionPendingReference"
| "Payload_Type (BalanceChangedPayload d) = TypeWalletBalanceChanged"

record envelope =
  ev_EventID :: uuid
  ev_EventType :: event_type
  ev_AggregateID :: string
  ev_CorrelationID :: uuid
  ev_CausationID :: "uuid option"
  ev_OccurredAt :: time
  ev_Version :: int
  ev_Data :: payload

record meta =
  mt_CorrelationID :: uuid
  mt_CausationID :: "uuid option"
  mt_OccurredAt :: time

definition newEnvelope :: "uuid \<Rightarrow> string \<Rightarrow> payload \<Rightarrow> meta \<Rightarrow> goerr + envelope" where
  "newEnvelope eventID aggregateID data meta =
     (if aggregateID = [] then Inl (WrapErr ''aggregateId is required'' EventErr)
      else if mt_CorrelationID meta = uuid_Nil then Inl (WrapErr ''correlationId is required'' EventErr)
      else if time_IsZero (mt_OccurredAt meta) then Inl (WrapErr ''occurredAt is required'' EventErr)
      else Inr \<lparr>ev_EventID = eventID, ev_EventType = Payload_Type data, ev_AggregateID = aggregateID,
                ev_CorrelationID = mt_CorrelationID meta, ev_CausationID = mt_CausationID meta,
                ev_OccurredAt = mt_OccurredAt meta, ev_Version = currentVersion, ev_Data = data\<rparr>)"

definition NewWagerTransactionProcessed ::
  "env \<Rightarrow> uuid \<Rightarrow> wager_tx \<Rightarrow> money \<Rightarrow> meta \<Rightarrow> goerr + envelope" where
  "NewWagerTransactionProcessed E eventID tx balance meta =
     newEnvelope eventID (uuid_String E (tx_id tx)) (ProcessedPayload
       \<lparr>pd_TransactionID = uuid_String E (tx_id tx), pd_WalletID = uuid_String E (tx_walletID tx),
        pd_PlayerID = uuid_String E (tx_playerID tx), pd_ProviderID = tx_providerID tx,
        pd_ExternalTransactionID = tx_externalTransactionID tx, pd_RoundID = tx_roundID tx,
        pd_GameID = tx_gameID tx, pd_Kind = kind_string (tx_kind tx), pd_Money = tx_money tx,
        pd_Balance = balance, pd_ProcessedAt = rfc3339nano (tx_updatedAt tx)\<rparr>) meta"

definition NewWagerTransactionRejected :: "env \<Rightarrow> uuid \<Rightarrow> wager_tx \<Rightarrow> meta \<Rightarrow> goerr + envelope" where
  "NewWagerTransactionRejected E eventID tx meta =
     newEnvelope eventID (uuid_String E (tx_id tx)) (RejectedPayload
       \<lparr>rd_TransactionID = uuid_String E (tx_id tx), rd_WalletID = uuid_String E (tx_walletID tx),
        rd_PlayerID = uuid_String E (tx_playerID tx), rd_ProviderID = tx_providerID tx,
        rd_ExternalTransactionID = tx_externalTransactionID tx, rd_RoundID = tx_roundID tx,
        rd_GameID = tx_gameID tx, rd_Kind = kind_string (tx_kind tx), rd_Money = tx_money tx,
        rd_FailureCode = failure_string (tx_failureCode tx),
        rd_RejectedAt = rfc3339nano (tx_updatedAt tx)\<rparr>) meta"

definition NewWagerTransactionPendingReference :: "env \<Rightarrow> uuid \<Rightarrow> wager_tx \<Rightarrow> meta \<Rightarrow> goerr + envelope" where
  "NewWagerTransactionPendingReference E eventID tx meta =
     newEnvelope eventID (uuid_String E (tx_id tx)) (PendingPayload
       \<lparr>qd_TransactionID = uuid_String E (tx_id tx), qd_WalletID = uuid_String E (tx_walletID tx),
        qd_PlayerID = uuid_String E (tx_playerID tx), qd_ProviderID = tx_providerID tx,
        qd_ExternalTransactionID = tx_externalTransactionID tx,
        qd_ReferenceExternalTransactionID = tx_referenceExternalTxID tx,
        qd_Kind = kind_string (tx_kind tx), qd_Money = tx_money tx,
        qd_PendingSince = rfc3339nano (tx_updatedAt tx)\<rparr>) meta"

definition NewWalletBalanceChanged ::
  "env \<Rightarrow> uuid \<Rightarrow> ledger_entry \<Rightarrow> int64 \<Rightarrow> meta \<Rightarrow> goerr + envelope" where
  "NewWalletBalanceChanged E eventID entry walletVersion meta =
     newEnvelope eventID (uuid_String E (le_walletID entry)) (BalanceChangedPayload
       \<lparr>bd_WalletID = uuid_String E (le_walletID entry),
        bd_TransactionID = uuid_String E (le_transactionID entry),
        bd_Direction = direction_string (le_direction entry), bd_Money = le_amount entry,
        bd_BalanceBefore = le_balanceBefore entry, bd_BalanceAfter = le_balanceAfter entry,
        bd_WalletVersion = walletVersion, bd_ChangedAt = rfc3339nano (le_createdAt entry)\<rparr>) meta"

section \<open>JSON\<close>

datatype json = JString string | JNumber int | JObject "(string \<times> json) list"

definition json_money :: "money \<Rightarrow> json" where
  "json_money m = JObject [(''amount'', JString (jmAmount (Money_MarshalJSON m))),
                           (''currency'', JString (jmCurrency (Money_MarshalJSON m)))]"

definition omitempty :: "string \<Rightarrow> string \<Rightarrow> (string \<times> json) list" where
  "omitempty key s = (if s = [] then [] else [(key, JString s)])"

fun Payload_MarshalJSON :: "payload \<Rightarrow> json" where
  "Payload_MarshalJSON (ProcessedPayload d) = JObject
     ([(''transactionId'', JString (pd_TransactionID d)), (''walletId'', JString (pd_WalletID d)),
       (''playerId'', JString (pd_PlayerID d))]
      @ omitempty ''providerId'' (pd_ProviderID d)
      @ omitempty ''externalTransactionId'' (pd_ExternalTransactionID d)
      @ omitempty ''roundId'' (pd_RoundID d) @ omitempty ''gameId'' (pd_GameID d)
      @ [(''kind'', JString (pd_Kind d)), (''money'', json_money (pd_Money d)),
         (''balance'', json_money (pd_Balance d)), (''processedAt'', JString (pd_ProcessedAt d))])"
| "Payload_MarshalJSON (RejectedPayload d) = JObject
     ([(''transactionId'', JString (rd_TransactionID d)), (''walletId'', JString (rd_WalletID d)),
       (''playerId'', JString (rd_PlayerID d))]
      @ omitempty ''providerId'' (rd_ProviderID d)
      @ omitempty ''externalTransactionId'' (rd_ExternalTransactionID d)
      @ omitempty ''roundId'' (rd_RoundID d) @ omitempty ''gameId'' (rd_GameID d)
      @ [(''kind'', JString (rd_Kind d)), (''money'', json_money (rd_Money d)),
         (''failureCode'', JString (rd_FailureCode d)), (''rejectedAt'', JString (rd_RejectedAt d))])"
| "Payload_MarshalJSON (PendingPayload d) = JObject
     [(''transactionId'', JString (qd_TransactionID d)), (''walletId'', JString (qd_WalletID d)),
      (''playerId'', JString (qd_PlayerID d)), (''providerId'', JString (qd_ProviderID d)),
      (''externalTransactionId'', JString (qd_ExternalTransactionID d)),
      (''referenceExternalTransactionId'', JString (qd_ReferenceExternalTransactionID d)),
      (''kind'', JString (qd_Kind d)), (''money'', json_money (qd_Money d)),
      (''pendingSince'', JString (qd_PendingSince d))]"
| "Payload_MarshalJSON (BalanceChangedPayload d) = JObject
     [(''walletId'', JString (bd_WalletID d)), (''transactionId'', JString (bd_TransactionID d)),
      (''direction'', JString (bd_Direction d)), (''money'', json_money (bd_Money d)),
      (''balanceBefore'', json_money (bd_BalanceBefore d)),
      (''balanceAfter'', json_money (bd_BalanceAfter d)),
      (''walletVersion'', JNumber (sint (bd_WalletVersion d))),
      (''changedAt'', JString (bd_ChangedAt d))]"

definition Envelope_MarshalJSON :: "env \<Rightarrow> envelope \<Rightarrow> json" where
  "Envelope_MarshalJSON E e = JObject
     ([(''eventId'', JString (uuid_String E (ev_EventID e))),
       (''eventType'', JString (event_type_string (ev_EventType e))),
       (''aggregateId'', JString (ev_AggregateID e)),
       (''correlationId'', JString (uuid_String E (ev_CorrelationID e)))]
      @ (case ev_CausationID e of None \<Rightarrow> [] | Some c \<Rightarrow> [(''causationId'', JString (uuid_String E c))])
      @ [(''occurredAt'', JString (rfc3339nano (ev_OccurredAt e))),
         (''version'', JNumber (ev_Version e)), (''data'', Payload_MarshalJSON (ev_Data e))])"

section \<open>What a built envelope carries\<close>

lemma newEnvelope_Inr:
  "newEnvelope i a d m = Inr e \<Longrightarrow>
     e = \<lparr>ev_EventID = i, ev_EventType = Payload_Type d, ev_AggregateID = a,
          ev_CorrelationID = mt_CorrelationID m, ev_CausationID = mt_CausationID m,
          ev_OccurredAt = mt_OccurredAt m, ev_Version = 1, ev_Data = d\<rparr>
     \<and> a \<noteq> [] \<and> mt_CorrelationID m \<noteq> uuid_Nil \<and> mt_OccurredAt m \<noteq> 0"
  by (auto simp: newEnvelope_def currentVersion_def time_IsZero_def split: if_splits)

lemma newEnvelope_ok:
  "a \<noteq> [] \<Longrightarrow> mt_CorrelationID m \<noteq> uuid_Nil \<Longrightarrow> mt_OccurredAt m \<noteq> 0 \<Longrightarrow> \<exists>e. newEnvelope i a d m = Inr e"
  by (simp add: newEnvelope_def time_IsZero_def)

lemmas new_event_defs = NewWagerTransactionProcessed_def NewWagerTransactionRejected_def
  NewWagerTransactionPendingReference_def NewWalletBalanceChanged_def

end
