(* ===== verification/Journal.thy ===== *)
theory Journal
  imports Environment Money
begin

text \<open>
  \<open>internal/domain/journal/journal.go\<close>: the double-entry journal. A movement is a pair of entries,
  a debit of one account and a credit of another. The two identifiers that \<open>NewMovement\<close> draws
  with \<open>uuid.New\<close> are arguments here.
\<close>

type_synonym account = string

definition PlatformFunding :: account where
  "PlatformFunding = ''PLATFORM_FUNDING''"

definition WalletAccount :: "env \<Rightarrow> uuid \<Rightarrow> account" where
  "WalletAccount E walletID = ''WALLET:'' @ uuid_String E walletID"

definition ProviderAccount :: "string \<Rightarrow> account" where
  "ProviderAccount providerID = ''PROVIDER:'' @ providerID"

text \<open>\<open>journal.Direction\<close> is a string type of its own, with the constants of the ledger.\<close>

datatype jdirection = JDebit | JCredit | JUnknown string

fun jdirection_string :: "jdirection \<Rightarrow> string" where
  "jdirection_string JDebit = ''DEBIT''"
| "jdirection_string JCredit = ''CREDIT''"
| "jdirection_string (JUnknown s) = s"

definition jdirection_of_string :: "string \<Rightarrow> jdirection" where
  "jdirection_of_string s =
     (if s = ''DEBIT'' then JDebit else if s = ''CREDIT'' then JCredit else JUnknown s)"

record journal_entry =
  je_id :: uuid
  je_transactionID :: uuid
  je_account :: account
  je_direction :: jdirection
  je_amount :: money
  je_createdAt :: time

record movement_params =
  mp_TransactionID :: uuid
  mp_From :: account
  mp_To :: account
  mp_Amount :: money
  mp_Now :: time

definition NewMovement :: "movement_params \<Rightarrow> uuid \<Rightarrow> uuid \<Rightarrow> goerr + journal_entry list" where
  "NewMovement p id1 id2 =
     (if mp_TransactionID p = uuid_Nil
        then Inl (WrapErr ''transactionId is required'' (JournalErr ErrInvalidEntry))
      else if mp_From p = [] \<or> mp_To p = []
        then Inl (WrapErr ''both accounts are required'' (JournalErr ErrInvalidAccount))
      else if mp_From p = mp_To p then Inl (WrapErr (mp_From p) (JournalErr ErrSameAccount))
      else if \<not> Money_IsPositive (mp_Amount p)
        then Inl (WrapErr ''amount must be positive'' (JournalErr ErrInvalidEntry))
      else if time_IsZero (mp_Now p) then Inl (WrapErr ''now is required'' (JournalErr ErrInvalidEntry))
      else Inr [\<lparr>je_id = id1, je_transactionID = mp_TransactionID p, je_account = mp_From p,
                 je_direction = JDebit, je_amount = mp_Amount p, je_createdAt = mp_Now p\<rparr>,
                \<lparr>je_id = id2, je_transactionID = mp_TransactionID p, je_account = mp_To p,
                 je_direction = JCredit, je_amount = mp_Amount p, je_createdAt = mp_Now p\<rparr>])"

text \<open>\<open>RehydrateParams\<close> has the fields of the entry.\<close>

definition journal_Rehydrate :: "journal_entry \<Rightarrow> goerr + journal_entry" where
  "journal_Rehydrate p =
     (if je_direction p \<noteq> JDebit \<and> je_direction p \<noteq> JCredit
      then Inl (WrapErr (jdirection_string (je_direction p)) (JournalErr ErrInvalidEntry))
      else Inr p)"

definition SignedMinorUnits :: "journal_entry \<Rightarrow> int64" where
  "SignedMinorUnits e =
     (if je_direction e = JDebit then - minorUnits (je_amount e) else minorUnits (je_amount e))"

text \<open>The loop of \<open>Balance\<close>, with its wrapping \<open>int64\<close> accumulator.\<close>

definition journal_Balance :: "journal_entry list \<Rightarrow> int64" where
  "journal_Balance entries = foldl (\<lambda>acc e. acc + SignedMinorUnits e) 0 entries"

definition AssertBalanced :: "journal_entry list \<Rightarrow> goerr option" where
  "AssertBalanced entries =
     (if journal_Balance entries \<noteq> 0 then Some (WrapErr ''off by'' (JournalErr ErrNotBalanced)) else None)"

text \<open>The exact signed value of an entry, and the exact balance.\<close>

definition je_signed :: "journal_entry \<Rightarrow> int" where
  "je_signed e = (if je_direction e = JDebit then - money_minor (je_amount e) else money_minor (je_amount e))"

lemma journal_Balance_exact: "journal_Balance entries = word_of_int (sum_list (map je_signed entries))"
proof -
  have "foldl (\<lambda>acc e. acc + SignedMinorUnits e) a entries =
      a + word_of_int (sum_list (map je_signed entries))" for a
    by (induction entries arbitrary: a) (simp_all add: SignedMinorUnits_def je_signed_def money_minor_def)
  then show ?thesis by (simp add: journal_Balance_def)
qed

lemma NewMovement_Inr:
  assumes "NewMovement p id1 id2 = Inr es"
  shows "es = [\<lparr>je_id = id1, je_transactionID = mp_TransactionID p, je_account = mp_From p,
                 je_direction = JDebit, je_amount = mp_Amount p, je_createdAt = mp_Now p\<rparr>,
                \<lparr>je_id = id2, je_transactionID = mp_TransactionID p, je_account = mp_To p,
                 je_direction = JCredit, je_amount = mp_Amount p, je_createdAt = mp_Now p\<rparr>]"
    and "mp_From p \<noteq> mp_To p" and "0 < money_minor (mp_Amount p)"
  using assms by (auto simp: NewMovement_def money_sign_sint money_minor_def split: if_splits)

lemma NewMovement_balanced:
  "NewMovement p id1 id2 = Inr es \<Longrightarrow> sum_list (map je_signed es) = 0 \<and> AssertBalanced es = None"
  by (auto simp: AssertBalanced_def journal_Balance_exact je_signed_def dest!: NewMovement_Inr(1))

section \<open>Properties\<close>

text \<open>A movement is a debit of one account and a credit of another one with the same positive
  amount, time and transaction: its exact balance is zero and \<open>AssertBalanced\<close> accepts it.\<close>

theorem NewMovement_double_entry:
  assumes "NewMovement p id1 id2 = Inr es"
  shows "map je_direction es = [JDebit, JCredit] \<and> map je_account es = [mp_From p, mp_To p]
    \<and> mp_From p \<noteq> mp_To p \<and> 0 < money_minor (mp_Amount p)
    \<and> (\<forall>e \<in> set es. je_amount e = mp_Amount p \<and> je_transactionID e = mp_TransactionID p
        \<and> journal_Rehydrate e = Inr e)
    \<and> sum_list (map je_signed es) = 0 \<and> AssertBalanced es = None"
  using NewMovement_Inr [OF assms] NewMovement_balanced [OF assms] by (auto simp: journal_Rehydrate_def)

theorem NewMovement_double_entry_witness:
  "AssertBalanced [\<lparr>je_id = 7, je_transactionID = 1, je_account = PlatformFunding, je_direction = JDebit,
       je_amount = \<lparr>minorUnits = 500, moneyCurrency = BRL\<rparr>, je_createdAt = 9\<rparr>,
     \<lparr>je_id = 8, je_transactionID = 1, je_account = ''WALLET:2'', je_direction = JCredit,
       je_amount = \<lparr>minorUnits = 500, moneyCurrency = BRL\<rparr>, je_createdAt = 9\<rparr>] = None"
proof -
  have "NewMovement \<lparr>mp_TransactionID = 1, mp_From = PlatformFunding, mp_To = ''WALLET:2'',
      mp_Amount = \<lparr>minorUnits = 500, moneyCurrency = BRL\<rparr>, mp_Now = 9\<rparr> 7 8 =
    Inr [\<lparr>je_id = 7, je_transactionID = 1, je_account = PlatformFunding, je_direction = JDebit,
       je_amount = \<lparr>minorUnits = 500, moneyCurrency = BRL\<rparr>, je_createdAt = 9\<rparr>,
     \<lparr>je_id = 8, je_transactionID = 1, je_account = ''WALLET:2'', je_direction = JCredit,
       je_amount = \<lparr>minorUnits = 500, moneyCurrency = BRL\<rparr>, je_createdAt = 9\<rparr>]"
    by (simp add: NewMovement_def PlatformFunding_def Money_IsPositive_def int64_simps time_IsZero_def)
  then show ?thesis using NewMovement_double_entry by blast
qed

text \<open>\<open>AssertBalanced\<close> sums in wrapping 64-bit arithmetic: it accepts entries exactly when the
  exact sum of their signed amounts is a multiple of \<open>2 ^ 64\<close>.\<close>

theorem AssertBalanced_modulo:
  "AssertBalanced es = None \<longleftrightarrow> sum_list (map je_signed es) mod 2 ^ 64 = 0"
proof -
  have "journal_Balance es = 0 \<longleftrightarrow> sum_list (map je_signed es) mod 2 ^ 64 = 0"
    using word_of_int_eq_0_iff [where ?'a = 64] by (simp add: journal_Balance_exact dvd_eq_mod_eq_0)
  then show ?thesis by (simp add: AssertBalanced_def)
qed

end
