(* ===== verification/Database.thy ===== *)
theory Database
  imports Event Journal
begin

text \<open>
  The PostgreSQL schema of \<open>migrations/\<close>: one record per table, the tables as lists of rows in
  order of insertion, and the statements the repositories issue, with the constraints, defaults
  and triggers the migrations declare. A statement gets the value of \<open>now()\<close> and the tables, and
  either fails with the error the server reports (SQLSTATE and constraint) or returns its result
  and the new tables. Checks come before unique indexes, and those before foreign keys.
\<close>

section \<open>Tables\<close>

record wallet_row =
  wr_id :: uuid
  wr_player_id :: uuid
  wr_currency :: string
  wr_balance_minor_units :: int64
  wr_version :: int64
  wr_created_at :: time
  wr_updated_at :: time

record tx_row =
  tr_id :: uuid
  tr_wallet_id :: uuid
  tr_player_id :: uuid
  tr_kind :: string
  tr_status :: string
  tr_amount_minor_units :: int64
  tr_currency :: string
  tr_provider_id :: "string option"
  tr_external_transaction_id :: "string option"
  tr_idempotency_key :: "string option"
  tr_payload_hash :: "string option"
  tr_round_id :: "string option"
  tr_game_id :: "string option"
  tr_reference_external_transaction_id :: "string option"
  tr_reference_transaction_id :: "uuid option"
  tr_failure_code :: "string option"
  tr_resulting_balance_minor_units :: "int64 option"
  tr_reference_attempts :: int
  tr_reference_first_seen_at :: time
  tr_reference_next_attempt_at :: time
  tr_created_at :: time
  tr_updated_at :: time

record ledger_row =
  lr_id :: uuid
  lr_wallet_id :: uuid
  lr_transaction_id :: uuid
  lr_direction :: string
  lr_amount_minor_units :: int64
  lr_balance_before_minor_units :: int64
  lr_balance_after_minor_units :: int64
  lr_created_at :: time

record journal_row =
  jr_id :: uuid
  jr_transaction_id :: uuid
  jr_account :: string
  jr_direction :: string
  jr_amount_minor_units :: int64
  jr_currency :: string
  jr_created_at :: time

record inbox_row =
  ir_consumer_name :: string
  ir_message_id :: string
  ir_payload_hash :: string
  ir_wager_transaction_id :: uuid
  ir_received_at :: time
  ir_completed_at :: time

record outbox_row =
  or_event_id :: uuid
  or_aggregate_id :: string
  or_event_type :: string
  or_payload :: json
  or_occurred_at :: time
  or_correlation_id :: uuid
  or_causation_id :: "uuid option"
  or_attempts :: int
  or_next_attempt_at :: time
  or_published_at :: "time option"
  or_locked_by :: "string option"
  or_locked_until :: "time option"
  or_created_at :: time
  or_trace_parent :: "string option"

record db =
  db_wallet :: "wallet_row list"
  db_tx :: "tx_row list"
  db_ledger :: "ledger_row list"
  db_journal :: "journal_row list"
  db_inbox :: "inbox_row list"
  db_outbox :: "outbox_row list"

definition empty_db :: db where
  "empty_db = \<lparr>db_wallet = [], db_tx = [], db_ledger = [], db_journal = [], db_inbox = [], db_outbox = []\<rparr>"

type_synonym 'a statement = "time \<Rightarrow> db \<Rightarrow> goerr + ('a \<times> db)"

text \<open>The first constraint of a list that does not hold, as the error with this SQLSTATE.\<close>

fun violated :: "string \<Rightarrow> (string \<times> bool) list \<Rightarrow> goerr option" where
  "violated code [] = None"
| "violated code ((name, ok) # cs) = (if ok then violated code cs else Some (PgErr code name))"

fun guarded :: "goerr option list \<Rightarrow> 'a \<Rightarrow> goerr + 'a" where
  "guarded [] x = Inr x"
| "guarded (None # es) x = guarded es x"
| "guarded (Some e # es) x = Inl e"

abbreviation check_violation :: "(string \<times> bool) list \<Rightarrow> goerr option" where
  "check_violation \<equiv> violated ''23514''"

abbreviation unique_violation :: "(string \<times> bool) list \<Rightarrow> goerr option" where
  "unique_violation \<equiv> violated ''23505''"

abbreviation foreign_key_violation :: "(string \<times> bool) list \<Rightarrow> goerr option" where
  "foreign_key_violation \<equiv> violated ''23503''"

lemma violated_None_iff: "violated code cs = None \<longleftrightarrow> list_all snd cs"
  by (induction code cs rule: violated.induct) simp_all

lemma violated_Some: "violated code cs = Some e \<Longrightarrow> \<exists>name. e = PgErr code name \<and> (name, False) \<in> set cs"
  by (induction code cs rule: violated.induct) (auto split: if_splits)

lemma guarded_Inr_iff [simp]: "guarded errs x = Inr y \<longleftrightarrow> (\<forall>e \<in> set errs. e = None) \<and> y = x"
  by (induction errs x rule: guarded.induct) auto

lemma guarded_Inl: "guarded errs x = Inl e \<Longrightarrow> Some e \<in> set errs"
  by (induction errs x rule: guarded.induct) auto

section \<open>wallet\<close>

definition wallet_checks :: "wallet_row \<Rightarrow> (string \<times> bool) list" where
  "wallet_checks r =
     [(''wallet_balance_non_negative'', 0 \<le>s wr_balance_minor_units r),
      (''wallet_currency_format'', currencyPattern (wr_currency r)),
      (''wallet_version_positive'', 1 \<le>s wr_version r)]"

definition insert_wallet :: "wallet_row \<Rightarrow> unit statement" where
  "insert_wallet r now d = guarded
     [check_violation (wallet_checks r),
      unique_violation
        [(''wallet_pkey'', \<forall>w \<in> set (db_wallet d). wr_id w \<noteq> wr_id r),
         (''wallet_player_currency_unique'', \<forall>w \<in> set (db_wallet d).
            \<not> (wr_player_id w = wr_player_id r \<and> wr_currency w = wr_currency r))]]
     ((), d\<lparr>db_wallet := db_wallet d @ [r]\<rparr>)"

definition select_wallet :: "uuid \<Rightarrow> wallet_row option statement" where
  "select_wallet i now d = Inr (find (\<lambda>r. wr_id r = i) (db_wallet d), d)"

text \<open>\<open>UPDATE wallet SET balance, version, updated_at WHERE id = i AND version = v\<close>; the result is
  the number of rows it affected.\<close>

definition update_wallet_balance :: "uuid \<Rightarrow> int64 \<Rightarrow> int64 \<Rightarrow> int64 \<Rightarrow> time \<Rightarrow> nat statement" where
  "update_wallet_balance i v balance version updated now d =
     (let hit = (\<lambda>r. wr_id r = i \<and> wr_version r = v);
          upd = (\<lambda>r. r\<lparr>wr_balance_minor_units := balance, wr_version := version, wr_updated_at := updated\<rparr>)
      in guarded (map (\<lambda>r. check_violation (wallet_checks (upd r))) (filter hit (db_wallet d)))
           (length (filter hit (db_wallet d)),
            d\<lparr>db_wallet := map (\<lambda>r. if hit r then upd r else r) (db_wallet d)\<rparr>))"

section \<open>wager\_transaction\<close>

definition tx_checks :: "tx_row \<Rightarrow> (string \<times> bool) list" where
  "tx_checks r =
     [(''wager_transaction_amount_minor_units_check'', 0 \<le>s tr_amount_minor_units r),
      (''wager_transaction_currency_check'', currencyPattern (tr_currency r)),
      (''wager_transaction_failure_code'',
        (tr_status r \<in> {''REJECTED'', ''FAILED''}) = (tr_failure_code r \<noteq> None)),
      (''wager_transaction_kind_check'',
        tr_kind r \<in> {''OPENING'', ''BET'', ''WIN'', ''LOSS'', ''REFUND'', ''ROLLBACK''}),
      (''wager_transaction_origin'',
        (if tr_kind r = ''OPENING''
         then tr_provider_id r = None \<and> tr_external_transaction_id r = None
            \<and> tr_idempotency_key r = None \<and> tr_payload_hash r = None
            \<and> tr_round_id r = None \<and> tr_game_id r = None
         else tr_provider_id r \<noteq> None \<and> tr_external_transaction_id r \<noteq> None
            \<and> tr_idempotency_key r \<noteq> None \<and> tr_payload_hash r \<noteq> None
            \<and> tr_round_id r \<noteq> None \<and> tr_game_id r \<noteq> None)),
      (''wager_transaction_reference'',
        (tr_kind r \<in> {''REFUND'', ''ROLLBACK''} \<and> tr_reference_external_transaction_id r \<noteq> None)
        \<or> tr_kind r = ''WIN''
        \<or> (tr_kind r \<in> {''BET'', ''LOSS'', ''OPENING''} \<and> tr_reference_external_transaction_id r = None)),
      (''wager_transaction_resulting_balance'',
        (tr_status r = ''PROCESSED'') = (tr_resulting_balance_minor_units r \<noteq> None)),
      (''wager_transaction_status_check'',
        tr_status r \<in> {''PENDING'', ''PENDING_REFERENCE'', ''PROCESSED'', ''REJECTED'', ''FAILED''})]"

definition tx_foreign_keys :: "tx_row \<Rightarrow> db \<Rightarrow> (string \<times> bool) list" where
  "tx_foreign_keys r d =
     [(''wager_transaction_wallet_id_fkey'', \<exists>w \<in> set (db_wallet d). wr_id w = tr_wallet_id r),
      (''wager_transaction_reference_transaction_id_fkey'',
        case tr_reference_transaction_id r of None \<Rightarrow> True
        | Some i \<Rightarrow> i = tr_id r \<or> (\<exists>t \<in> set (db_tx d). tr_id t = i))]"

text \<open>A unique constraint never compares NULLs.\<close>

definition same_key :: "'a option \<Rightarrow> 'a option \<Rightarrow> bool" where
  "same_key a b \<longleftrightarrow> a \<noteq> None \<and> a = b"

definition insert_tx :: "tx_row \<Rightarrow> unit statement" where
  "insert_tx r now d = guarded
     [check_violation (tx_checks r),
      unique_violation
        [(''wager_transaction_pkey'', \<forall>t \<in> set (db_tx d). tr_id t \<noteq> tr_id r),
         (''wager_transaction_provider_external_unique'', \<forall>t \<in> set (db_tx d).
            \<not> (same_key (tr_provider_id t) (tr_provider_id r)
               \<and> same_key (tr_external_transaction_id t) (tr_external_transaction_id r))),
         (''wager_transaction_idempotency_key_unique'', \<forall>t \<in> set (db_tx d).
            \<not> same_key (tr_idempotency_key t) (tr_idempotency_key r)),
         (''wager_transaction_one_opening_per_wallet'', \<forall>t \<in> set (db_tx d).
            \<not> (tr_kind t = ''OPENING'' \<and> tr_kind r = ''OPENING'' \<and> tr_wallet_id t = tr_wallet_id r))],
      foreign_key_violation (tx_foreign_keys r d)]
     ((), d\<lparr>db_tx := db_tx d @ [r]\<rparr>)"

definition terminal_status :: "string \<Rightarrow> bool" where
  "terminal_status s \<longleftrightarrow> s \<in> {''PROCESSED'', ''REJECTED'', ''FAILED''}"

text \<open>
  An update of the rows of \<open>wager_transaction\<close> that \<open>hit\<close> selects. The trigger
  \<open>wager_transaction_terminal_guard\<close> refuses it for a row in a terminal status.
\<close>

definition update_tx_rows :: "(tx_row \<Rightarrow> bool) \<Rightarrow> (tx_row \<Rightarrow> tx_row) \<Rightarrow> nat statement" where
  "update_tx_rows hit upd now d =
     guarded (map (\<lambda>r. if terminal_status (tr_status r) then Some (PgErr ''P0001'' []) else None)
                (filter hit (db_tx d))
              @ map (\<lambda>r. check_violation (tx_checks (upd r))) (filter hit (db_tx d))
              @ map (\<lambda>r. foreign_key_violation (tx_foreign_keys (upd r) d)) (filter hit (db_tx d)))
       (length (filter hit (db_tx d)), d\<lparr>db_tx := map (\<lambda>r. if hit r then upd r else r) (db_tx d)\<rparr>)"

definition select_tx :: "(tx_row \<Rightarrow> bool) \<Rightarrow> tx_row option statement" where
  "select_tx P now d = Inr (find P (db_tx d), d)"

section \<open>wallet\_ledger\_entry\<close>

definition ledger_checks :: "ledger_row \<Rightarrow> (string \<times> bool) list" where
  "ledger_checks r =
     [(''wallet_ledger_entry_amount_minor_units_check'', 0 <s lr_amount_minor_units r),
      (''wallet_ledger_entry_balance_after_minor_units_check'', 0 \<le>s lr_balance_after_minor_units r),
      (''wallet_ledger_entry_balance_before_minor_units_check'', 0 \<le>s lr_balance_before_minor_units r),
      (''wallet_ledger_entry_balance_math'',
        (lr_direction r = ''DEBIT'' \<and> sint (lr_balance_after_minor_units r) =
           sint (lr_balance_before_minor_units r) - sint (lr_amount_minor_units r))
        \<or> (lr_direction r = ''CREDIT'' \<and> sint (lr_balance_after_minor_units r) =
           sint (lr_balance_before_minor_units r) + sint (lr_amount_minor_units r))),
      (''wallet_ledger_entry_direction_check'', lr_direction r \<in> {''DEBIT'', ''CREDIT''})]"

definition insert_ledger :: "ledger_row \<Rightarrow> unit statement" where
  "insert_ledger r now d = guarded
     [check_violation (ledger_checks r),
      unique_violation
        [(''wallet_ledger_entry_pkey'', \<forall>l \<in> set (db_ledger d). lr_id l \<noteq> lr_id r),
         (''wallet_ledger_entry_wallet_transaction_unique'', \<forall>l \<in> set (db_ledger d).
            \<not> (lr_wallet_id l = lr_wallet_id r \<and> lr_transaction_id l = lr_transaction_id r))],
      foreign_key_violation
        [(''wallet_ledger_entry_wallet_id_fkey'', \<exists>w \<in> set (db_wallet d). wr_id w = lr_wallet_id r),
         (''wallet_ledger_entry_transaction_id_fkey'', \<exists>t \<in> set (db_tx d). tr_id t = lr_transaction_id r)]]
     ((), d\<lparr>db_ledger := db_ledger d @ [r]\<rparr>)"

section \<open>journal\_entry\<close>

definition journal_checks :: "journal_row \<Rightarrow> (string \<times> bool) list" where
  "journal_checks r =
     [(''journal_entry_amount_minor_units_check'', 0 <s jr_amount_minor_units r),
      (''journal_entry_currency_check'', currencyPattern (jr_currency r)),
      (''journal_entry_direction_check'', jr_direction r \<in> {''DEBIT'', ''CREDIT''})]"

definition insert_journal :: "journal_row \<Rightarrow> unit statement" where
  "insert_journal r now d = guarded
     [check_violation (journal_checks r),
      unique_violation [(''journal_entry_pkey'', \<forall>j \<in> set (db_journal d). jr_id j \<noteq> jr_id r)],
      foreign_key_violation
        [(''journal_entry_transaction_id_fkey'', \<exists>t \<in> set (db_tx d). tr_id t = jr_transaction_id r)]]
     ((), d\<lparr>db_journal := db_journal d @ [r]\<rparr>)"

text \<open>\<open>CASE WHEN direction = 'CREDIT' THEN amount ELSE -amount END\<close>, and its sum over rows.\<close>

definition jr_signed :: "journal_row \<Rightarrow> int" where
  "jr_signed r = (if jr_direction r = ''CREDIT'' then sint (jr_amount_minor_units r)
                  else - sint (jr_amount_minor_units r))"

definition journal_sum :: "journal_row list \<Rightarrow> int" where
  "journal_sum rs = sum_list (map jr_signed rs)"

text \<open>
  The deferred constraint trigger \<open>journal_entry_balanced\<close>: at commit, for every row the
  transaction inserted, the rows of its \<open>transaction_id\<close> must sum to zero. Rows are only ever
  appended, so the inserted ones are those beyond the table the transaction started with.
\<close>

definition journal_must_balance :: "db \<Rightarrow> db \<Rightarrow> goerr option" where
  "journal_must_balance old new =
     (if \<forall>r \<in> set (drop (length (db_journal old)) (db_journal new)).
           journal_sum (filter (\<lambda>j. jr_transaction_id j = jr_transaction_id r) (db_journal new)) = 0
      then None else Some (PgErr ''P0001'' ''journal_entry_must_balance''))"

section \<open>inbox\<close>

definition insert_inbox :: "inbox_row \<Rightarrow> unit statement" where
  "insert_inbox r now d = guarded
     [unique_violation
        [(''inbox_pkey'', \<forall>i \<in> set (db_inbox d).
           \<not> (ir_consumer_name i = ir_consumer_name r \<and> ir_message_id i = ir_message_id r))],
      foreign_key_violation
        [(''inbox_wager_transaction_id_fkey'', \<exists>t \<in> set (db_tx d). tr_id t = ir_wager_transaction_id r)]]
     ((), d\<lparr>db_inbox := db_inbox d @ [r]\<rparr>)"

definition select_inbox :: "string \<Rightarrow> string \<Rightarrow> inbox_row option statement" where
  "select_inbox consumer message now d =
     Inr (find (\<lambda>r. ir_consumer_name r = consumer \<and> ir_message_id r = message) (db_inbox d), d)"

section \<open>outbox\<close>

definition insert_outbox :: "outbox_row \<Rightarrow> unit statement" where
  "insert_outbox r now d = guarded
     [unique_violation [(''outbox_pkey'', \<forall>o' \<in> set (db_outbox d). or_event_id o' \<noteq> or_event_id r)]]
     ((), d\<lparr>db_outbox := db_outbox d @ [r]\<rparr>)"

definition update_outbox_rows :: "(outbox_row \<Rightarrow> bool) \<Rightarrow> (outbox_row \<Rightarrow> outbox_row) \<Rightarrow> nat statement" where
  "update_outbox_rows hit upd now d =
     Inr (length (filter hit (db_outbox d)),
          d\<lparr>db_outbox := map (\<lambda>r. if hit r then upd r else r) (db_outbox d)\<rparr>)"

end
