(* ===== verification/World.thy ===== *)
theory World
  imports Database
begin

text \<open>
  Programs that talk to the database. A program takes the world (the committed or uncommitted
  tables it sees and how many draws were made from the environment) to its result and the next
  world. \<open>sql\<close> runs one statement on the pool or in the open transaction as pgx does: after a
  failed statement PostgreSQL refuses every other one of the transaction (SQLSTATE 25P02).
  \<open>within\<close> is \<open>UnitOfWork.Within\<close> of \<open>internal/postgres/repos.go\<close>. A transaction sees no other
  one between its statements: the program takes a row lock on the wallet before it reads what it
  decides on, so the model runs transactions one after the other.
\<close>

record world =
  wd_db :: db
  wd_calls :: nat
  wd_uuids :: nat
  wd_clock :: nat
  wd_ctx :: nat
  wd_txnow :: time
  wd_aborted :: bool

definition start_world :: "db \<Rightarrow> world" where
  "start_world d = \<lparr>wd_db = d, wd_calls = 0, wd_uuids = 0, wd_clock = 0, wd_ctx = 0, wd_txnow = 0, wd_aborted = False\<rparr>"

type_synonym 'a prog = "world \<Rightarrow> (goerr + 'a) \<times> world"

definition retP :: "'a \<Rightarrow> 'a prog" where
  "retP x w = (Inr x, w)"

definition failP :: "goerr \<Rightarrow> 'a prog" where
  "failP e w = (Inl e, w)"

definition bindP :: "'a prog \<Rightarrow> ('a \<Rightarrow> 'b prog) \<Rightarrow> 'b prog" where
  "bindP f g w = (case f w of (Inl e, w') \<Rightarrow> (Inl e, w') | (Inr x, w') \<Rightarrow> g x w')"

text \<open>The result of a call as a value: \<open>x, err := f()\<close>.\<close>

definition tryP :: "'a prog \<Rightarrow> (goerr + 'a) prog" where
  "tryP f w = (case f w of (r, w') \<Rightarrow> (Inr r, w'))"

definition liftR :: "goerr + 'a \<Rightarrow> 'a prog" where
  "liftR r w = (r, w)"

text \<open>\<open>fmt.Errorf("s: %w", err)\<close> around a call.\<close>

definition wrapP :: "string \<Rightarrow> 'a prog \<Rightarrow> 'a prog" where
  "wrapP s f w = (case f w of (r, w') \<Rightarrow> (mapErr (WrapErr s) r, w'))"

definition new_uuid :: "env \<Rightarrow> uuid prog" where
  "new_uuid E w = (Inr (fresh_uuid E (wd_uuids w)), w\<lparr>wd_uuids := Suc (wd_uuids w)\<rparr>)"

definition read_clock :: "env \<Rightarrow> time prog" where
  "read_clock E w = (Inr (clock_Now E (wd_clock w)), w\<lparr>wd_clock := Suc (wd_clock w)\<rparr>)"

definition ctx_err :: "env \<Rightarrow> string option prog" where
  "ctx_err E w = (Inr (ctx_Err E (wd_ctx w)), w\<lparr>wd_ctx := Suc (wd_ctx w)\<rparr>)"

text \<open>The \<open>Querier\<close> of a repository: the pool, or the transaction of a unit of work.\<close>

datatype querier = Pool | Tx

definition sql :: "env \<Rightarrow> querier \<Rightarrow> 'a statement \<Rightarrow> 'a prog" where
  "sql E q stmt w =
     (let w' = w\<lparr>wd_calls := Suc (wd_calls w)\<rparr> in
      case driver_fault E (wd_calls w) of
        Some (CallFailed s) \<Rightarrow> (Inl (DriverErr s), w')
      | Some (ConnLost s) \<Rightarrow> (Inl (DriverErr s), w'\<lparr>wd_aborted := wd_aborted w \<or> q = Tx\<rparr>)
      | None \<Rightarrow>
          if q = Tx \<and> wd_aborted w then (Inl (PgErr ''25P02'' []), w')
          else case stmt (if q = Tx then wd_txnow w else pg_now E (wd_calls w)) (wd_db w) of
            Inl e \<Rightarrow> (Inl e, w'\<lparr>wd_aborted := wd_aborted w \<or> q = Tx\<rparr>)
          | Inr (x, d) \<Rightarrow> (Inr x, w'\<lparr>wd_db := d\<rparr>))"

text \<open>The values a closure assigns to captured variables are its result here.\<close>

definition commit :: "env \<Rightarrow> db \<Rightarrow> unit prog" where
  "commit E old w =
     (let w' = w\<lparr>wd_calls := Suc (wd_calls w)\<rparr> in
      if wd_aborted w
      then (Inl (DriverErr ''commit unexpectedly resulted in rollback''), w'\<lparr>wd_db := old\<rparr>)
      else case journal_must_balance old (wd_db w) of
        Some e \<Rightarrow> (Inl e, w'\<lparr>wd_db := old\<rparr>)
      | None \<Rightarrow>
          (case commit_result E (wd_calls w) of
             CommitOk \<Rightarrow> (Inr (), w')
           | CommitLost s \<Rightarrow> (Inl (DriverErr s), w'\<lparr>wd_db := old\<rparr>)
           | CommitUnacknowledged s \<Rightarrow> (Inl (DriverErr s), w')))"

definition begin_tx :: "env \<Rightarrow> unit prog" where
  "begin_tx E w =
     (let w' = w\<lparr>wd_calls := Suc (wd_calls w)\<rparr> in
      case driver_fault E (wd_calls w) of
        Some (CallFailed s) \<Rightarrow> (Inl (DriverErr s), w')
      | Some (ConnLost s) \<Rightarrow> (Inl (DriverErr s), w')
      | None \<Rightarrow> (Inr (), w'\<lparr>wd_txnow := pg_now E (wd_calls w), wd_aborted := False\<rparr>))"

definition run_tx :: "env \<Rightarrow> 'a prog \<Rightarrow> 'a prog" where
  "run_tx E body w =
     (case body w of
        (Inl e, w') \<Rightarrow> (Inl e, w'\<lparr>wd_db := wd_db w\<rparr>)
      | (Inr x, w') \<Rightarrow>
          (case wrapP ''committing transaction'' (commit E (wd_db w)) w' of
             (Inl e, w'') \<Rightarrow> (Inl e, w'')
           | (Inr _, w'') \<Rightarrow> (Inr x, w'')))"

definition within :: "env \<Rightarrow> 'a prog \<Rightarrow> 'a prog" where
  "within E body = bindP (wrapP ''beginning transaction'' (begin_tx E)) (\<lambda>_. run_tx E body)"

section \<open>Reading a run backwards\<close>

text \<open>What a successful run says of its parts; the rules rewrite a run of a whole use case.\<close>

named_theorems run_simps \<open>successful runs of the combinators\<close>

lemma retP_run [run_simps]: "retP x w = (Inr y, w') \<longleftrightarrow> y = x \<and> w' = w"
  by (auto simp: retP_def)

lemma failP_run [run_simps]: "failP e w = (Inr y, w') \<longleftrightarrow> False"
  by (simp add: failP_def)

lemma bindP_run [run_simps]:
  "bindP f g w = (Inr y, w') \<longleftrightarrow> (\<exists>x w1. f w = (Inr x, w1) \<and> g x w1 = (Inr y, w'))"
  by (auto simp: bindP_def split: prod.splits sum.splits)

lemma tryP_run [run_simps]: "tryP f w = (Inr r, w') \<longleftrightarrow> f w = (r, w')"
  by (auto simp: tryP_def split: prod.splits)

lemma liftR_run [run_simps]: "liftR r w = (Inr y, w') \<longleftrightarrow> r = Inr y \<and> w' = w"
  by (auto simp: liftR_def)

lemma wrapP_run [run_simps]: "wrapP s f w = (Inr y, w') \<longleftrightarrow> f w = (Inr y, w')"
  by (auto simp: wrapP_def split: prod.splits)

lemma new_uuid_run [run_simps]:
  "new_uuid E w = (Inr u, w') \<longleftrightarrow> u = fresh_uuid E (wd_uuids w) \<and> w' = w\<lparr>wd_uuids := Suc (wd_uuids w)\<rparr>"
  by (auto simp: new_uuid_def)

lemma read_clock_run [run_simps]:
  "read_clock E w = (Inr t, w') \<longleftrightarrow> t = clock_Now E (wd_clock w) \<and> w' = w\<lparr>wd_clock := Suc (wd_clock w)\<rparr>"
  by (auto simp: read_clock_def)

lemma ctx_err_run [run_simps]:
  "ctx_err E w = (Inr c, w') \<longleftrightarrow> c = ctx_Err E (wd_ctx w) \<and> w' = w\<lparr>wd_ctx := Suc (wd_ctx w)\<rparr>"
  by (auto simp: ctx_err_def)

text \<open>A statement that succeeds ran on the tables of the world.\<close>

lemma sql_run:
  "sql E q stmt w = (Inr x, w') \<Longrightarrow>
     \<exists>t d. stmt t (wd_db w) = Inr (x, d) \<and> w' = w\<lparr>wd_calls := Suc (wd_calls w), wd_db := d\<rparr>
       \<and> (q = Tx \<longrightarrow> t = wd_txnow w \<and> \<not> wd_aborted w)"
  by (auto simp: sql_def Let_def split: option.splits driver_failure.splits if_splits sum.splits prod.splits)

lemma sql_run_db:
  assumes "sql E q stmt w = (Inr x, w')"
  obtains t where "stmt t (wd_db w) = Inr (x, wd_db w')"
proof -
  obtain t d where "stmt t (wd_db w) = Inr (x, d)" "w' = w\<lparr>wd_calls := Suc (wd_calls w), wd_db := d\<rparr>"
    using sql_run [OF assms] by blast
  then show ?thesis using that by simp
qed

text \<open>A statement that fails leaves the tables alone.\<close>

lemma sql_fail: "sql E q stmt w = (Inl e, w') \<Longrightarrow> wd_db w' = wd_db w"
  by (auto simp: sql_def Let_def split: option.splits driver_failure.splits if_splits sum.splits prod.splits)

section \<open>The unit of work\<close>

text \<open>A run that stores nothing unless it succeeds, but for a commit whose acknowledgement is lost.\<close>

definition unacknowledged :: "env \<Rightarrow> goerr \<Rightarrow> bool" where
  "unacknowledged E e \<longleftrightarrow> (\<exists>n s. commit_result E n = CommitUnacknowledged s
     \<and> e = WrapErr ''committing transaction'' (DriverErr s))"

definition acknowledges :: "env \<Rightarrow> bool" where
  "acknowledges E \<longleftrightarrow> (\<forall>n s. commit_result E n \<noteq> CommitUnacknowledged s)"

lemma begin_tx_db [simp]: "wd_db (snd (begin_tx E w)) = wd_db w"
  by (simp add: begin_tx_def Let_def split: option.splits driver_failure.splits)

lemma begin_tx_run:
  "begin_tx E w = (Inr u, w') \<longleftrightarrow> driver_fault E (wd_calls w) = None
     \<and> w' = w\<lparr>wd_calls := Suc (wd_calls w), wd_txnow := pg_now E (wd_calls w), wd_aborted := False\<rparr>"
  by (auto simp: begin_tx_def Let_def split: option.splits driver_failure.splits)

lemma commit_run:
  "commit E old w = (Inr u, w') \<longleftrightarrow> \<not> wd_aborted w \<and> journal_must_balance old (wd_db w) = None
     \<and> commit_result E (wd_calls w) = CommitOk \<and> w' = w\<lparr>wd_calls := Suc (wd_calls w)\<rparr>"
  by (auto simp: commit_def Let_def split: option.splits commit_outcome.splits)

lemma commit_fail:
  "commit E old w = (Inl e, w') \<Longrightarrow>
     wd_db w' = old \<or> wd_db w' = wd_db w \<and> (\<exists>s. commit_result E (wd_calls w) = CommitUnacknowledged s \<and> e = DriverErr s
       \<and> journal_must_balance old (wd_db w) = None)"
  by (auto simp: commit_def Let_def split: if_splits option.splits commit_outcome.splits)

lemma begin_tx_run_db: "begin_tx E w = (r, w') \<Longrightarrow> wd_db w' = wd_db w"
  using begin_tx_db [of E w] by simp

lemma run_tx_run:
  "run_tx E body w = (Inr x, w') \<longleftrightarrow>
     (\<exists>w2. body w = (Inr x, w2) \<and> commit E (wd_db w) w2 = (Inr (), w'))"
proof (cases "body w")
  case (Pair r w2)
  then show ?thesis
    by (cases r; cases "commit E (wd_db w) w2"; cases "fst (commit E (wd_db w) w2)")
      (auto simp: run_tx_def wrapP_def)
qed

lemma within_run:
  "within E body w = (Inr x, w') \<longleftrightarrow>
     (\<exists>w1 w2. begin_tx E w = (Inr (), w1) \<and> body w1 = (Inr x, w2) \<and> commit E (wd_db w) w2 = (Inr (), w'))"
proof (cases "begin_tx E w")
  case (Pair r w1)
  then have "wd_db w1 = wd_db w" using begin_tx_db [of E w] by simp
  with Pair show ?thesis by (auto simp: within_def run_simps run_tx_run)
qed

text \<open>Whatever happens, \<open>within\<close> ends with the tables it started from, or with those of a
  successful run of its body whose journal balances.\<close>

definition stored :: "env \<Rightarrow> 'a prog \<Rightarrow> world \<Rightarrow> goerr + 'a \<Rightarrow> db \<Rightarrow> bool" where
  "stored E body w r d \<longleftrightarrow> (\<exists>x w1 w2. begin_tx E w = (Inr (), w1) \<and> body w1 = (Inr x, w2)
     \<and> wd_db w2 = d \<and> journal_must_balance (wd_db w) d = None
     \<and> (r = Inr x \<or> (\<exists>e. r = Inl e \<and> unacknowledged E e)))"

lemma run_tx_effect:
  assumes "run_tx E body w = (r, w')" and "wd_db w' \<noteq> wd_db w"
  shows "\<exists>x w2. body w = (Inr x, w2) \<and> wd_db w2 = wd_db w' \<and> journal_must_balance (wd_db w) (wd_db w') = None
     \<and> (r = Inr x \<or> (\<exists>e. r = Inl e \<and> unacknowledged E e))"
proof (cases "body w")
  case (Pair rx w2)
  show ?thesis
  proof (cases rx)
    case (Inl e)
    with Pair assms show ?thesis by (auto simp: run_tx_def)
  next
    case (Inr x)
    obtain rc w3 where cm: "commit E (wd_db w) w2 = (rc, w3)" by fastforce
    show ?thesis
    proof (cases rc)
      case (Inl e)
      then have "w' = w3" and r: "r = Inl (WrapErr ''committing transaction'' e)"
        using assms(1) Pair Inr cm by (simp_all add: run_tx_def wrapP_def)
      with assms(2) commit_fail [of E "wd_db w" w2 e w3] cm Inl
      show ?thesis using Pair Inr by (auto simp: unacknowledged_def)
    next
      case (Inr v)
      then show ?thesis
        using assms(1) Pair \<open>rx = Inr x\<close> cm commit_run [of E "wd_db w" w2 v w3]
        by (auto simp: run_tx_def wrapP_def)
    qed
  qed
qed

lemma within_effect:
  assumes "within E body w = (r, w')"
  shows "wd_db w' = wd_db w \<or> stored E body w r (wd_db w')"
proof (cases "begin_tx E w")
  case (Pair rb w1)
  have db1: "wd_db w1 = wd_db w" using begin_tx_db [of E w] Pair by simp
  show ?thesis
  proof (cases rb)
    case (Inl e)
    then show ?thesis using assms Pair db1 by (simp add: within_def bindP_def wrapP_def)
  next
    case (Inr u)
    then have "run_tx E body w1 = (r, w')" using assms Pair by (simp add: within_def bindP_def wrapP_def)
    from run_tx_effect [OF this] show ?thesis
      using Pair Inr db1 by (auto simp: stored_def)
  qed
qed

lemma within_cases:
  assumes "within E body w = (r, w')"
  shows "stored E body w r (wd_db w') \<or> (\<exists>e. r = Inl e) \<and> wd_db w' = wd_db w"
proof (cases r)
  case (Inr x)
  with assms obtain w1 w2 where "begin_tx E w = (Inr (), w1)" "body w1 = (Inr x, w2)"
    and "commit E (wd_db w) w2 = (Inr (), w')" by (auto simp: within_run)
  then show ?thesis using Inr by (auto simp: stored_def commit_run)
qed (use within_effect [OF assms] in auto)

text \<open>So an error means that nothing was stored, unless the commit went unacknowledged.\<close>

lemma within_atomic: "within E body w = (Inl e, w') \<Longrightarrow> \<not> unacknowledged E e \<Longrightarrow> wd_db w' = wd_db w"
  using within_effect [of E body w "Inl e" w'] by (auto simp: stored_def)

text \<open>The shape of a refinement: what the body does is what \<open>within\<close> does, or nothing happened.\<close>

lemma within_refines:
  assumes "within E body w = (r, w')"
    and body: "\<And>x y z. body x = (Inr y, z) \<Longrightarrow> spec (wd_db x) (wd_db z) y"
  shows "case r of Inr y \<Rightarrow> spec (wd_db w) (wd_db w') y
    | Inl e \<Rightarrow> wd_db w' = wd_db w \<or> unacknowledged E e \<and> (\<exists>y. spec (wd_db w) (wd_db w') y)"
  using within_cases [OF assms(1)]
proof
  assume "stored E body w r (wd_db w')"
  then obtain y w1 w2 where run: "begin_tx E w = (Inr (), w1)" "body w1 = (Inr y, w2)" "wd_db w2 = wd_db w'"
    and r: "r = Inr y \<or> (\<exists>e. r = Inl e \<and> unacknowledged E e)"
    by (auto simp: stored_def)
  have "spec (wd_db w) (wd_db w') y" using body [OF run(2)] begin_tx_run_db [OF run(1)] run(3) by simp
  then show ?thesis using r by auto
qed auto

end
