(* ===== verification/Repositories.thy ===== *)
theory Repositories
  imports World
begin

text \<open>
  \<open>internal/postgres\<close>: the six repositories over a \<open>Querier\<close>, with the errors they return and
  the conversions between rows and domain values. A query that finds no row returns \<open>None\<close> where
  the driver returns \<open>pgx.ErrNoRows\<close>. Where a query orders rows, rows with equal keys come in
  the order of insertion.
\<close>

text \<open>\<open>constraintViolation\<close>: \<open>errors.As\<close> finds the first \<open>PgError\<close> of the chain.\<close>

fun constraintViolation :: "goerr \<Rightarrow> string option" where
  "constraintViolation (PgErr code name) = (if code = ''23505'' then Some name else None)"
| "constraintViolation (WrapErr s e) = constraintViolation e"
| "constraintViolation _ = None"

definition nullString :: "string \<Rightarrow> string option" where
  "nullString s = (if s = [] then None else Some s)"

definition derefString :: "string option \<Rightarrow> string" where
  "derefString s = (case s of None \<Rightarrow> [] | Some x \<Rightarrow> x)"

definition nullUUID :: "uuid \<Rightarrow> uuid option" where
  "nullUUID i = (if i = uuid_Nil then None else Some i)"

lemma derefString_nullString [simp]: "derefString (nullString s) = s"
  by (simp add: derefString_def nullString_def)

lemma nullString_None_iff [simp]: "nullString s = None \<longleftrightarrow> s = []"
  by (simp add: nullString_def)

text \<open>A SUM is a \<open>numeric\<close>, which \<open>Scan\<close> converts to \<open>int64\<close> or refuses.\<close>

definition scan_int64 :: "int \<Rightarrow> goerr + int64" where
  "scan_int64 i = (if fits64 i then Inr (word_of_int i) else Inl (DriverErr ''cannot scan numeric into int64''))"

text \<open>An \<open>int\<close> argument of an INT column that does not fit 32 bits is refused by the driver.\<close>

definition int4_arg :: "int \<Rightarrow> unit prog" where
  "int4_arg i = (if - (2 ^ 31) \<le> i \<and> i < 2 ^ 31 then retP () else failP (DriverErr ''cannot encode into int4''))"

definition query :: "(time \<Rightarrow> db \<Rightarrow> 'a) \<Rightarrow> 'a statement" where
  "query f now d = Inr (f now d, d)"

section \<open>walletRepo\<close>

definition wallet_to_row :: "wallet \<Rightarrow> wallet_row" where
  "wallet_to_row w = \<lparr>wr_id = wlt_id w, wr_player_id = wlt_playerID w, wr_currency = wlt_currency w,
     wr_balance_minor_units = minorUnits (wlt_balance w), wr_version = wlt_version w,
     wr_created_at = timestamptz (wlt_createdAt w), wr_updated_at = timestamptz (wlt_updatedAt w)\<rparr>"

definition wallet_of_row :: "wallet_row \<Rightarrow> goerr + wallet" where
  "wallet_of_row r = RehydrateWallet \<lparr>rw_ID = wr_id r, rw_PlayerID = wr_player_id r,
     rw_Currency = wr_currency r, rw_Balance = FromMinorUnits (wr_balance_minor_units r) (wr_currency r),
     rw_Version = wr_version r, rw_CreatedAt = wr_created_at r, rw_UpdatedAt = wr_updated_at r\<rparr>"

definition walletRepo_Insert :: "env \<Rightarrow> querier \<Rightarrow> wallet \<Rightarrow> unit prog" where
  "walletRepo_Insert E q w = bindP (tryP (sql E q (insert_wallet (wallet_to_row w)))) (\<lambda>r. case r of
     Inr _ \<Rightarrow> retP ()
   | Inl err \<Rightarrow>
       if constraintViolation err = Some ''wallet_player_currency_unique''
       then failP (AppErr ErrWalletAlreadyExists)
       else failP (WrapErr ''inserting wallet'' err))"

definition walletRepo_get :: "env \<Rightarrow> querier \<Rightarrow> uuid \<Rightarrow> wallet prog" where
  "walletRepo_get E q i = bindP (wrapP ''selecting wallet'' (sql E q (select_wallet i))) (\<lambda>r. case r of
     None \<Rightarrow> failP (AppErr ErrNotFound)
   | Some row \<Rightarrow> liftR (wallet_of_row row))"

definition walletRepo_Get :: "env \<Rightarrow> querier \<Rightarrow> uuid \<Rightarrow> wallet prog" where
  "walletRepo_Get E q i = walletRepo_get E q i"

definition walletRepo_GetForUpdate :: "env \<Rightarrow> querier \<Rightarrow> uuid \<Rightarrow> wallet prog" where
  "walletRepo_GetForUpdate E q i = walletRepo_get E q i"

definition walletRepo_UpdateBalance :: "env \<Rightarrow> querier \<Rightarrow> wallet \<Rightarrow> int64 \<Rightarrow> unit prog" where
  "walletRepo_UpdateBalance E q w expectedVersion =
     bindP (wrapP ''updating wallet balance'' (sql E q (update_wallet_balance (wlt_id w) expectedVersion
       (minorUnits (wlt_balance w)) (wlt_version w) (timestamptz (wlt_updatedAt w))))) (\<lambda>affected.
     if affected = 0 then failP (AppErr ErrConcurrencyConflict) else retP ())"

definition walletRepo_ExistsForPlayerCurrency :: "env \<Rightarrow> querier \<Rightarrow> uuid \<Rightarrow> currency \<Rightarrow> bool prog" where
  "walletRepo_ExistsForPlayerCurrency E q playerID cur =
     wrapP ''checking wallet existence'' (sql E q (query (\<lambda>now d.
       list_ex (\<lambda>r. wr_player_id r = playerID \<and> wr_currency r = cur) (db_wallet d))))"

section \<open>transactionRepo\<close>

definition resultingBalanceArg :: "wager_tx \<Rightarrow> int64 option" where
  "resultingBalanceArg t =
     (case Tx_ResultingBalance t of (balance, ok) \<Rightarrow> if ok then Some (minorUnits balance) else None)"

text \<open>The columns \<open>Insert\<close> does not name take their defaults.\<close>

definition tx_to_row :: "wager_tx \<Rightarrow> time \<Rightarrow> tx_row" where
  "tx_to_row t now = \<lparr>tr_id = tx_id t, tr_wallet_id = tx_walletID t, tr_player_id = tx_playerID t,
     tr_kind = kind_string (tx_kind t), tr_status = status_string (tx_status t),
     tr_amount_minor_units = minorUnits (tx_money t), tr_currency = moneyCurrency (tx_money t),
     tr_provider_id = nullString (tx_providerID t),
     tr_external_transaction_id = nullString (tx_externalTransactionID t),
     tr_idempotency_key = nullString (tx_idempotencyKey t),
     tr_payload_hash = nullString (tx_payloadHash t),
     tr_round_id = nullString (tx_roundID t), tr_game_id = nullString (tx_gameID t),
     tr_reference_external_transaction_id = nullString (tx_referenceExternalTxID t),
     tr_reference_transaction_id = nullUUID (tx_referenceTransactionID t),
     tr_failure_code = nullString (failure_string (tx_failureCode t)),
     tr_resulting_balance_minor_units = resultingBalanceArg t,
     tr_reference_attempts = 0, tr_reference_first_seen_at = now, tr_reference_next_attempt_at = now,
     tr_created_at = timestamptz (tx_createdAt t), tr_updated_at = timestamptz (tx_updatedAt t)\<rparr>"

definition toDomain :: "tx_row \<Rightarrow> goerr + wager_tx" where
  "toDomain r = wagertx_Rehydrate
     \<lparr>tx_id = tr_id r, tx_walletID = tr_wallet_id r, tx_playerID = tr_player_id r,
      tx_kind = kind_of_string (tr_kind r),
      tx_money = FromMinorUnits (tr_amount_minor_units r) (tr_currency r),
      tx_status = status_of_string (tr_status r),
      tx_providerID = derefString (tr_provider_id r),
      tx_externalTransactionID = derefString (tr_external_transaction_id r),
      tx_idempotencyKey = derefString (tr_idempotency_key r),
      tx_payloadHash = derefString (tr_payload_hash r),
      tx_roundID = derefString (tr_round_id r), tx_gameID = derefString (tr_game_id r),
      tx_referenceExternalTxID = derefString (tr_reference_external_transaction_id r),
      tx_referenceTransactionID = (case tr_reference_transaction_id r of None \<Rightarrow> uuid_Nil | Some i \<Rightarrow> i),
      tx_failureCode = failure_of_string (derefString (tr_failure_code r)),
      tx_resultingBalance = (case tr_resulting_balance_minor_units r of
         None \<Rightarrow> Money0 | Some b \<Rightarrow> FromMinorUnits b (tr_currency r)),
      tx_hasResultingBalance = False,
      tx_createdAt = tr_created_at r, tx_updatedAt = tr_updated_at r\<rparr>"

definition transactionRepo_Insert :: "env \<Rightarrow> querier \<Rightarrow> wager_tx \<Rightarrow> unit prog" where
  "transactionRepo_Insert E q t =
     bindP (tryP (sql E q (\<lambda>now. insert_tx (tx_to_row t now) now))) (\<lambda>r. case r of
       Inr _ \<Rightarrow> retP ()
     | Inl err \<Rightarrow>
         if constraintViolation err = Some ''wager_transaction_idempotency_key_unique''
           then failP (AppErr ErrIdempotencyConflict)
         else if constraintViolation err = Some ''wager_transaction_provider_external_unique''
           then failP (AppErr ErrOperationIdentityConflict)
         else if constraintViolation err = Some ''wager_transaction_one_opening_per_wallet''
           then failP (AppErr ErrWalletAlreadyExists)
         else failP (WrapErr ''inserting wager transaction'' err))"

text \<open>The row after \<open>Update\<close>: five columns come from the transaction.\<close>

definition tx_update_row :: "wager_tx \<Rightarrow> tx_row \<Rightarrow> tx_row" where
  "tx_update_row t r = r\<lparr>tr_status := status_string (tx_status t),
     tr_reference_transaction_id := nullUUID (tx_referenceTransactionID t),
     tr_failure_code := nullString (failure_string (tx_failureCode t)),
     tr_resulting_balance_minor_units := resultingBalanceArg t,
     tr_updated_at := timestamptz (tx_updatedAt t)\<rparr>"

definition update_tx :: "wager_tx \<Rightarrow> nat statement" where
  "update_tx t = update_tx_rows (\<lambda>r. tr_id r = tx_id t) (tx_update_row t)"

definition transactionRepo_Update :: "env \<Rightarrow> querier \<Rightarrow> wager_tx \<Rightarrow> unit prog" where
  "transactionRepo_Update E q t =
     bindP (wrapP ''updating wager transaction'' (sql E q (update_tx t))) (\<lambda>affected.
     if affected = 0 then failP (AppErr ErrNotFound) else retP ())"

definition transactionRepo_scanOne :: "env \<Rightarrow> querier \<Rightarrow> (tx_row \<Rightarrow> bool) \<Rightarrow> wager_tx prog" where
  "transactionRepo_scanOne E q P =
     bindP (wrapP ''selecting wager transaction'' (sql E q (select_tx P))) (\<lambda>r. case r of
       None \<Rightarrow> failP (AppErr ErrNotFound)
     | Some row \<Rightarrow> liftR (toDomain row))"

definition transactionRepo_GetByID :: "env \<Rightarrow> querier \<Rightarrow> uuid \<Rightarrow> wager_tx prog" where
  "transactionRepo_GetByID E q i = transactionRepo_scanOne E q (\<lambda>r. tr_id r = i)"

definition transactionRepo_GetByIdempotencyKey :: "env \<Rightarrow> querier \<Rightarrow> string \<Rightarrow> wager_tx prog" where
  "transactionRepo_GetByIdempotencyKey E q key =
     transactionRepo_scanOne E q (\<lambda>r. tr_idempotency_key r = Some key)"

definition transactionRepo_GetByProviderExternalID ::
  "env \<Rightarrow> querier \<Rightarrow> string \<Rightarrow> string \<Rightarrow> wager_tx prog" where
  "transactionRepo_GetByProviderExternalID E q providerID externalID =
     transactionRepo_scanOne E q (\<lambda>r. tr_provider_id r = Some providerID
       \<and> tr_external_transaction_id r = Some externalID)"

definition is_successful_reversal_of :: "uuid \<Rightarrow> tx_row \<Rightarrow> bool" where
  "is_successful_reversal_of ref r \<longleftrightarrow> tr_reference_transaction_id r = Some ref
     \<and> tr_kind r \<in> {''REFUND'', ''ROLLBACK''} \<and> tr_status r = ''PROCESSED''"

definition transactionRepo_HasSuccessfulReversal :: "env \<Rightarrow> querier \<Rightarrow> uuid \<Rightarrow> bool prog" where
  "transactionRepo_HasSuccessfulReversal E q ref =
     wrapP ''checking existing reversal'' (sql E q (query (\<lambda>now d.
       list_ex (is_successful_reversal_of ref) (db_tx d))))"

record pending_record =
  pr_Transaction :: wager_tx
  pr_Attempts :: int
  pr_FirstSeenAt :: time

text \<open>\<open>SKIP LOCKED\<close> skips nothing here: no other transaction holds a lock.\<close>

definition due_references :: "int \<Rightarrow> time \<Rightarrow> db \<Rightarrow> tx_row list" where
  "due_references limit t d = take (nat limit) (sort_key tr_reference_next_attempt_at
     (filter (\<lambda>r. tr_status r = ''PENDING_REFERENCE'' \<and> tr_reference_next_attempt_at r \<le> timestamptz t) (db_tx d)))"

definition transactionRepo_ClaimPendingReference ::
  "env \<Rightarrow> querier \<Rightarrow> int \<Rightarrow> time \<Rightarrow> pending_record list prog" where
  "transactionRepo_ClaimPendingReference E q limit t =
     bindP (wrapP ''claiming pending references'' (sql E q (query (\<lambda>now. due_references limit t)))) (\<lambda>rows.
       liftR (mapR (\<lambda>row. bindR (toDomain row) (\<lambda>tx.
         Inr \<lparr>pr_Transaction = tx, pr_Attempts = tr_reference_attempts row,
              pr_FirstSeenAt = tr_reference_first_seen_at row\<rparr>)) rows))"

definition update_reference_attempt :: "uuid \<Rightarrow> int \<Rightarrow> time \<Rightarrow> nat statement" where
  "update_reference_attempt i attempts nextAttemptAt =
     update_tx_rows (\<lambda>r. tr_id r = i \<and> tr_status r = ''PENDING_REFERENCE'')
       (\<lambda>r. r\<lparr>tr_reference_attempts := attempts, tr_reference_next_attempt_at := timestamptz nextAttemptAt\<rparr>)"

definition transactionRepo_RecordReferenceAttempt ::
  "env \<Rightarrow> querier \<Rightarrow> uuid \<Rightarrow> int \<Rightarrow> time \<Rightarrow> unit prog" where
  "transactionRepo_RecordReferenceAttempt E q i attempts nextAttemptAt =
     wrapP ''recording reference attempt'' (bindP (int4_arg attempts) (\<lambda>_.
       bindP (sql E q (update_reference_attempt i attempts nextAttemptAt)) (\<lambda>_. retP ())))"

definition transactionRepo_CountPendingReference :: "env \<Rightarrow> querier \<Rightarrow> int prog" where
  "transactionRepo_CountPendingReference E q =
     wrapP ''counting pending references'' (sql E q (query (\<lambda>now d.
       int (length (filter (\<lambda>r. tr_status r = ''PENDING_REFERENCE'') (db_tx d))))))"

section \<open>ledgerRepo\<close>

definition ledger_to_row :: "ledger_entry \<Rightarrow> ledger_row" where
  "ledger_to_row e = \<lparr>lr_id = le_id e, lr_wallet_id = le_walletID e, lr_transaction_id = le_transactionID e,
     lr_direction = direction_string (le_direction e), lr_amount_minor_units = minorUnits (le_amount e),
     lr_balance_before_minor_units = minorUnits (le_balanceBefore e),
     lr_balance_after_minor_units = minorUnits (le_balanceAfter e),
     lr_created_at = timestamptz (le_createdAt e)\<rparr>"

definition ledgerRepo_Insert :: "env \<Rightarrow> querier \<Rightarrow> ledger_entry \<Rightarrow> unit prog" where
  "ledgerRepo_Insert E q e =
     wrapP ''inserting ledger entry'' (sql E q (insert_ledger (ledger_to_row e)))"

definition ledger_sum :: "string \<Rightarrow> ledger_row list \<Rightarrow> int" where
  "ledger_sum dir rs = sum_list (map (\<lambda>r. sint (lr_amount_minor_units r)) (filter (\<lambda>r. lr_direction r = dir) rs))"

definition ledger_of :: "uuid \<Rightarrow> db \<Rightarrow> ledger_row list" where
  "ledger_of i d = filter (\<lambda>r. lr_wallet_id r = i) (db_ledger d)"

definition ledgerRepo_Totals :: "env \<Rightarrow> querier \<Rightarrow> uuid \<Rightarrow> (int64 \<times> int64 \<times> int) prog" where
  "ledgerRepo_Totals E q i =
     wrapP ''summing ledger'' (bindP (sql E q (query (\<lambda>now d.
         (ledger_sum ''CREDIT'' (ledger_of i d), ledger_sum ''DEBIT'' (ledger_of i d), int (length (ledger_of i d))))))
       (\<lambda>(credits, debits, entries).
         bindP (liftR (scan_int64 credits)) (\<lambda>c. bindP (liftR (scan_int64 debits)) (\<lambda>d. retP (c, d, entries)))))"

section \<open>inboxRepo\<close>

record inbox_record =
  in_ConsumerName :: string
  in_MessageID :: string
  in_PayloadHash :: string
  in_WagerTransactionID :: uuid
  in_ReceivedAt :: time
  in_CompletedAt :: time

definition inboxRepo_Get :: "env \<Rightarrow> querier \<Rightarrow> string \<Rightarrow> string \<Rightarrow> inbox_record option prog" where
  "inboxRepo_Get E q consumer message =
     bindP (wrapP ''selecting inbox record'' (sql E q (select_inbox consumer message))) (\<lambda>r.
       retP (map_option (\<lambda>row. \<lparr>in_ConsumerName = ir_consumer_name row, in_MessageID = ir_message_id row,
         in_PayloadHash = ir_payload_hash row, in_WagerTransactionID = ir_wager_transaction_id row,
         in_ReceivedAt = ir_received_at row, in_CompletedAt = ir_completed_at row\<rparr>) r))"

definition inbox_to_row :: "inbox_record \<Rightarrow> inbox_row" where
  "inbox_to_row rec = \<lparr>ir_consumer_name = in_ConsumerName rec, ir_message_id = in_MessageID rec,
     ir_payload_hash = in_PayloadHash rec, ir_wager_transaction_id = in_WagerTransactionID rec,
     ir_received_at = timestamptz (in_ReceivedAt rec), ir_completed_at = timestamptz (in_CompletedAt rec)\<rparr>"

definition inboxRepo_Insert :: "env \<Rightarrow> querier \<Rightarrow> inbox_record \<Rightarrow> unit prog" where
  "inboxRepo_Insert E q rec = wrapP ''inserting inbox record'' (sql E q (insert_inbox (inbox_to_row rec)))"

section \<open>outboxRepo\<close>

definition outbox_to_row :: "env \<Rightarrow> envelope \<Rightarrow> string \<Rightarrow> outbox_row" where
  "outbox_to_row E e trace = \<lparr>or_event_id = ev_EventID e, or_aggregate_id = ev_AggregateID e,
     or_event_type = event_type_string (ev_EventType e), or_payload = Envelope_MarshalJSON E e,
     or_occurred_at = timestamptz (ev_OccurredAt e), or_correlation_id = ev_CorrelationID e,
     or_causation_id = ev_CausationID e, or_attempts = 0,
     or_next_attempt_at = timestamptz (ev_OccurredAt e), or_published_at = None,
     or_locked_by = None, or_locked_until = None, or_created_at = timestamptz (ev_OccurredAt e),
     or_trace_parent = nullString trace\<rparr>"

fun outboxRepo_Insert :: "env \<Rightarrow> querier \<Rightarrow> envelope list \<Rightarrow> unit prog" where
  "outboxRepo_Insert E q [] = retP ()"
| "outboxRepo_Insert E q (e # es) =
     bindP (wrapP ''inserting outbox event''
       (\<lambda>w. sql E q (insert_outbox (outbox_to_row E e (traceparent E (wd_calls w)))) w)) (\<lambda>_.
     outboxRepo_Insert E q es)"

record outbox_record =
  ob_EventID :: uuid
  ob_TraceParent :: string
  ob_AggregateID :: string
  ob_Type :: string
  ob_Payload :: json
  ob_Attempts :: int

definition outbox_record_of_row :: "outbox_row \<Rightarrow> outbox_record" where
  "outbox_record_of_row r = \<lparr>ob_EventID = or_event_id r, ob_TraceParent = derefString (or_trace_parent r),
     ob_AggregateID = or_aggregate_id r, ob_Type = or_event_type r, ob_Payload = or_payload r,
     ob_Attempts = or_attempts r\<rparr>"

definition claimable :: "time \<Rightarrow> outbox_row \<Rightarrow> bool" where
  "claimable t r \<longleftrightarrow> or_published_at r = None \<and> or_next_attempt_at r \<le> timestamptz t
     \<and> (case or_locked_until r of None \<Rightarrow> True | Some u \<Rightarrow> u < timestamptz t)"

text \<open>The rows the common table expression selects, and the UPDATE that locks and returns them.\<close>

definition claimed_rows :: "int \<Rightarrow> time \<Rightarrow> db \<Rightarrow> outbox_row list" where
  "claimed_rows limit t d = take (nat limit) (sort_key or_next_attempt_at (filter (claimable t) (db_outbox d)))"

definition claim_outbox :: "string \<Rightarrow> int \<Rightarrow> time \<Rightarrow> time \<Rightarrow> outbox_row list statement" where
  "claim_outbox owner limit until t now d =
     (let hit = (\<lambda>r. or_event_id r \<in> set (map or_event_id (claimed_rows limit t d)));
          upd = (\<lambda>r. r\<lparr>or_locked_by := Some owner, or_locked_until := Some (timestamptz until)\<rparr>)
      in Inr (map upd (filter hit (db_outbox d)),
              d\<lparr>db_outbox := map (\<lambda>r. if hit r then upd r else r) (db_outbox d)\<rparr>))"

definition outboxRepo_Claim ::
  "env \<Rightarrow> querier \<Rightarrow> string \<Rightarrow> int \<Rightarrow> duration \<Rightarrow> time \<Rightarrow> outbox_record list prog" where
  "outboxRepo_Claim E q owner limit lockFor t =
     bindP (wrapP ''claiming outbox events'' (sql E q (claim_outbox owner limit (time_Add t lockFor) t)))
       (\<lambda>rows. retP (map outbox_record_of_row rows))"

definition update_published :: "uuid \<Rightarrow> time \<Rightarrow> nat statement" where
  "update_published eventID t = update_outbox_rows
     (\<lambda>r. or_event_id r = eventID \<and> or_published_at r = None)
     (\<lambda>r. r\<lparr>or_published_at := Some (timestamptz t), or_locked_by := None, or_locked_until := None\<rparr>)"

definition update_rescheduled :: "uuid \<Rightarrow> int \<Rightarrow> time \<Rightarrow> nat statement" where
  "update_rescheduled eventID attempts nextAttemptAt = update_outbox_rows
     (\<lambda>r. or_event_id r = eventID \<and> or_published_at r = None)
     (\<lambda>r. r\<lparr>or_attempts := attempts, or_next_attempt_at := timestamptz nextAttemptAt,
            or_locked_by := None, or_locked_until := None\<rparr>)"

definition outboxRepo_MarkPublished :: "env \<Rightarrow> querier \<Rightarrow> uuid \<Rightarrow> time \<Rightarrow> unit prog" where
  "outboxRepo_MarkPublished E q eventID t =
     bindP (wrapP ''marking outbox event published'' (sql E q (update_published eventID t)))
     (\<lambda>_. retP ())"

definition outboxRepo_Reschedule :: "env \<Rightarrow> querier \<Rightarrow> uuid \<Rightarrow> int \<Rightarrow> time \<Rightarrow> unit prog" where
  "outboxRepo_Reschedule E q eventID attempts nextAttemptAt =
     wrapP ''rescheduling outbox event'' (bindP (int4_arg attempts) (\<lambda>_.
       bindP (sql E q (update_rescheduled eventID attempts nextAttemptAt)) (\<lambda>_. retP ())))"

definition outboxRepo_OldestPending :: "env \<Rightarrow> querier \<Rightarrow> time \<Rightarrow> (duration \<times> bool) prog" where
  "outboxRepo_OldestPending E q t =
     bindP (wrapP ''measuring outbox lag'' (sql E q (query (\<lambda>now d.
       case map or_occurred_at (filter (\<lambda>r. or_published_at r = None) (db_outbox d)) of
         [] \<Rightarrow> None | u # us \<Rightarrow> Some (foldl min u us))))) (\<lambda>oldest.
     case oldest of None \<Rightarrow> retP (0, False) | Some u \<Rightarrow> retP (time_Sub t u, True))"

section \<open>journalRepo\<close>

definition journal_to_row :: "journal_entry \<Rightarrow> journal_row" where
  "journal_to_row e = \<lparr>jr_id = je_id e, jr_transaction_id = je_transactionID e, jr_account = je_account e,
     jr_direction = jdirection_string (je_direction e), jr_amount_minor_units = minorUnits (je_amount e),
     jr_currency = moneyCurrency (je_amount e), jr_created_at = timestamptz (je_createdAt e)\<rparr>"

definition journal_of_row :: "journal_row \<Rightarrow> goerr + journal_entry" where
  "journal_of_row r = journal_Rehydrate \<lparr>je_id = jr_id r, je_transactionID = jr_transaction_id r,
     je_account = jr_account r, je_direction = jdirection_of_string (jr_direction r),
     je_amount = FromMinorUnits (jr_amount_minor_units r) (jr_currency r), je_createdAt = jr_created_at r\<rparr>"

fun journalRepo_Insert :: "env \<Rightarrow> querier \<Rightarrow> journal_entry list \<Rightarrow> unit prog" where
  "journalRepo_Insert E q [] = retP ()"
| "journalRepo_Insert E q (e # es) =
     bindP (wrapP ''inserting journal entry'' (sql E q (insert_journal (journal_to_row e)))) (\<lambda>_.
     journalRepo_Insert E q es)"

text \<open>\<open>ORDER BY direction, created_at\<close>: of the two directions the table admits, CREDIT comes first.\<close>

definition journal_of :: "uuid \<Rightarrow> db \<Rightarrow> journal_row list" where
  "journal_of i d = filter (\<lambda>r. jr_transaction_id r = i) (db_journal d)"

definition journalRepo_ByTransaction :: "env \<Rightarrow> querier \<Rightarrow> uuid \<Rightarrow> journal_entry list prog" where
  "journalRepo_ByTransaction E q i =
     bindP (wrapP ''selecting journal entries'' (sql E q (query (\<lambda>now d.
       sort_key (\<lambda>r. if jr_direction r = ''CREDIT'' then 0 else 1 :: nat)
         (sort_key jr_created_at (journal_of i d)))))) (\<lambda>rows. liftR (mapR journal_of_row rows))"

definition journalRepo_GlobalImbalance :: "env \<Rightarrow> querier \<Rightarrow> int64 prog" where
  "journalRepo_GlobalImbalance E q =
     wrapP ''computing journal imbalance'' (bindP (sql E q (query (\<lambda>now d. journal_sum (db_journal d))))
       (\<lambda>s. liftR (scan_int64 s)))"

definition journalRepo_AccountBalance :: "env \<Rightarrow> querier \<Rightarrow> account \<Rightarrow> int64 prog" where
  "journalRepo_AccountBalance E q acct =
     wrapP ''computing account balance'' (bindP (sql E q (query (\<lambda>now d.
         journal_sum (filter (\<lambda>r. jr_account r = acct) (db_journal d)))))
       (\<lambda>s. liftR (scan_int64 s)))"

end
