(* ===== verification/Schema.thy ===== *)
theory Schema
  imports Repositories
begin

text \<open>
  What the schema guarantees whatever the program does: the constraints of the migrations hold of
  the tables (\<open>schema_ok\<close>), and the tables only grow in the ways the triggers allow
  (\<open>db_extends\<close>). The locale \<open>statement_invariant\<close> is the interface between a property of the
  tables and the programs: a property that every write statement keeps is kept by every
  repository operation, and by everything built from them.
\<close>

section \<open>Properties that every statement keeps\<close>

definition keeps :: "(db \<Rightarrow> bool) \<Rightarrow> 'a prog \<Rightarrow> bool" where
  "keeps I f \<longleftrightarrow> (\<forall>w. I (wd_db w) \<longrightarrow> I (wd_db (snd (f w))))"

named_theorems keeps_intros \<open>programs that keep a property of the tables\<close>

lemma keepsI: "(\<And>w r w'. I (wd_db w) \<Longrightarrow> f w = (r, w') \<Longrightarrow> I (wd_db w')) \<Longrightarrow> keeps I f"
  by (simp add: keeps_def) (metis prod.collapse)

lemma keepsD: "keeps I f \<Longrightarrow> f w = (r, w') \<Longrightarrow> I (wd_db w) \<Longrightarrow> I (wd_db w')"
  by (metis keeps_def snd_conv)

lemma keeps_pure [keeps_intros, simp]:
  "keeps I (retP x)" "keeps I (failP e)" "keeps I (liftR r)" "keeps I (new_uuid E)"
  "keeps I (read_clock E)" "keeps I (ctx_err E)" "keeps I (int4_arg i)"
  by (simp_all add: keeps_def retP_def failP_def liftR_def new_uuid_def read_clock_def ctx_err_def int4_arg_def)

lemma keeps_bindP [keeps_intros]: "keeps I f \<Longrightarrow> (\<And>x. keeps I (g x)) \<Longrightarrow> keeps I (bindP f g)"
  by (simp add: keeps_def bindP_def split: prod.splits sum.splits) (metis snd_conv)

lemma keeps_tryP [keeps_intros]: "keeps I f \<Longrightarrow> keeps I (tryP f)"
  by (simp add: keeps_def tryP_def split: prod.splits) (metis snd_conv)

lemma keeps_wrapP [keeps_intros]: "keeps I f \<Longrightarrow> keeps I (wrapP s f)"
  by (simp add: keeps_def wrapP_def split: prod.splits) (metis snd_conv)

lemma keeps_if [keeps_intros]: "(b \<Longrightarrow> keeps I f) \<Longrightarrow> (\<not> b \<Longrightarrow> keeps I g) \<Longrightarrow> keeps I (if b then f else g)"
  by simp

lemma keeps_case_sum [keeps_intros]:
  "(\<And>e. keeps I (f e)) \<Longrightarrow> (\<And>x. keeps I (g x)) \<Longrightarrow> keeps I (case r of Inl e \<Rightarrow> f e | Inr x \<Rightarrow> g x)"
  by (cases r) simp_all

lemma keeps_case_option [keeps_intros]:
  "keeps I f \<Longrightarrow> (\<And>x. keeps I (g x)) \<Longrightarrow> keeps I (case r of None \<Rightarrow> f | Some x \<Rightarrow> g x)"
  by (cases r) simp_all

lemma keeps_case_prod [keeps_intros]:
  "(\<And>x y. keeps I (f x y)) \<Longrightarrow> keeps I (case r of (x, y) \<Rightarrow> f x y)"
  by (cases r) simp

lemma keeps_sql:
  assumes "\<And>t d x d'. I d \<Longrightarrow> stmt t d = Inr (x, d') \<Longrightarrow> I d'"
  shows "keeps I (sql E q stmt)"
proof (rule keepsI)
  fix w r w' assume I: "I (wd_db w)" and run: "sql E q stmt w = (r, w')"
  show "I (wd_db w')"
  proof (cases r)
    case (Inl e)
    with run I show ?thesis by (auto dest: sql_fail)
  next
    case (Inr x)
    with run obtain t where "stmt t (wd_db w) = Inr (x, wd_db w')" by (blast elim: sql_run_db)
    then show ?thesis using assms I by blast
  qed
qed

lemma keeps_query [keeps_intros]: "keeps I (sql E q (query f))"
  by (rule keeps_sql) (simp add: query_def)

lemma keeps_select [keeps_intros]:
  "keeps I (sql E q (select_wallet i))" "keeps I (sql E q (select_tx P))"
  "keeps I (sql E q (select_inbox c m))"
  by (rule keeps_sql; simp add: select_wallet_def select_tx_def select_inbox_def)+

text \<open>A unit of work keeps a property if its body does; it may rely on the journal trigger.\<close>

lemma keeps_within [keeps_intros]: "keeps I body \<Longrightarrow> keeps I (within E body)"
proof (rule keepsI)
  fix w r w' assume body: "keeps I body" and I: "I (wd_db w)" and run: "within E body w = (r, w')"
  from within_effect [OF run] show "I (wd_db w')"
  proof
    assume "stored E body w r (wd_db w')"
    then obtain x w1 w2 where "begin_tx E w = (Inr (), w1)" "body w1 = (Inr x, w2)" "wd_db w2 = wd_db w'"
      by (auto simp: stored_def)
    then show ?thesis using keepsD [OF body] begin_tx_run_db I by metis
  qed (simp add: I)
qed

locale statement_invariant =
  fixes I :: "db \<Rightarrow> bool"
  assumes keeps_insert_wallet: "I d \<Longrightarrow> insert_wallet r t d = Inr (u, d') \<Longrightarrow> I d'"
    and keeps_update_wallet: "I d \<Longrightarrow> update_wallet_balance i v b ver tm t d = Inr (n, d') \<Longrightarrow> I d'"
    and keeps_insert_tx: "I d \<Longrightarrow> insert_tx r2 t d = Inr (u, d') \<Longrightarrow> I d'"
    and keeps_update_tx: "I d \<Longrightarrow> update_tx tx t d = Inr (n, d') \<Longrightarrow> I d'"
    and keeps_update_attempt: "I d \<Longrightarrow> update_reference_attempt i a tm t d = Inr (n, d') \<Longrightarrow> I d'"
    and keeps_insert_ledger: "I d \<Longrightarrow> insert_ledger (ledger_to_row e) t d = Inr (u, d') \<Longrightarrow> I d'"
    and keeps_insert_journal: "I d \<Longrightarrow> insert_journal r4 t d = Inr (u, d') \<Longrightarrow> I d'"
    and keeps_insert_inbox: "I d \<Longrightarrow> insert_inbox r5 t d = Inr (u, d') \<Longrightarrow> I d'"
    and keeps_insert_outbox: "I d \<Longrightarrow> insert_outbox r6 t d = Inr (u, d') \<Longrightarrow> I d'"
    and keeps_claim_outbox: "I d \<Longrightarrow> claim_outbox ow l un tm t d = Inr (rs, d') \<Longrightarrow> I d'"
    and keeps_update_published: "I d \<Longrightarrow> update_published i tm t d = Inr (n, d') \<Longrightarrow> I d'"
    and keeps_update_rescheduled: "I d \<Longrightarrow> update_rescheduled i a tm t d = Inr (n, d') \<Longrightarrow> I d'"
begin

lemma keeps_writes:
  "keeps I (sql E q (insert_wallet r))" "keeps I (sql E q (update_wallet_balance i v b ver tm))"
  "keeps I (sql E q (\<lambda>now. insert_tx (f now) now))" "keeps I (sql E q (update_tx tx))"
  "keeps I (sql E q (update_reference_attempt i a tm))" "keeps I (sql E q (insert_ledger (ledger_to_row e)))"
  "keeps I (sql E q (insert_journal r4))" "keeps I (sql E q (insert_inbox r5))"
  "keeps I (sql E q (insert_outbox r6))" "keeps I (sql E q (claim_outbox ow l un tm))"
  "keeps I (sql E q (update_published i tm))" "keeps I (sql E q (update_rescheduled i a tm))"
  by (rule keeps_sql; erule keeps_insert_wallet keeps_update_wallet keeps_insert_tx keeps_update_tx
      keeps_update_attempt keeps_insert_ledger keeps_insert_journal keeps_insert_inbox
      keeps_insert_outbox keeps_claim_outbox keeps_update_published keeps_update_rescheduled; assumption)+

lemma keeps_outbox_Insert: "keeps I (outboxRepo_Insert E q es)"
proof (induction es)
  case (Cons e es)
  have "keeps I (\<lambda>w. sql E q (insert_outbox (outbox_to_row E e (traceparent E (wd_calls w)))) w)"
    by (rule keepsI) (metis keepsD keeps_writes(9))
  with Cons show ?case by (auto intro!: keeps_intros)
qed simp

lemma keeps_journal_Insert: "keeps I (journalRepo_Insert E q es)"
  by (induction es) (auto intro!: keeps_intros keeps_writes)

lemma keeps_repos:
  "keeps I (walletRepo_Insert E q w)" "keeps I (walletRepo_Get E q i)" "keeps I (walletRepo_GetForUpdate E q i)"
  "keeps I (walletRepo_UpdateBalance E q w v)" "keeps I (walletRepo_ExistsForPlayerCurrency E q i c)"
  "keeps I (transactionRepo_Insert E q tx)" "keeps I (transactionRepo_Update E q tx)"
  "keeps I (transactionRepo_GetByID E q i)" "keeps I (transactionRepo_GetByIdempotencyKey E q k)"
  "keeps I (transactionRepo_GetByProviderExternalID E q p k)"
  "keeps I (transactionRepo_HasSuccessfulReversal E q i)"
  "keeps I (transactionRepo_ClaimPendingReference E q l t)"
  "keeps I (transactionRepo_RecordReferenceAttempt E q i a t)"
  "keeps I (transactionRepo_CountPendingReference E q)"
  "keeps I (ledgerRepo_Insert E q e)" "keeps I (ledgerRepo_Totals E q i)"
  "keeps I (inboxRepo_Get E q c m)" "keeps I (inboxRepo_Insert E q rec)"
  "keeps I (outboxRepo_Claim E q ow l lf t)" "keeps I (outboxRepo_MarkPublished E q i t)"
  "keeps I (outboxRepo_Reschedule E q i a t)" "keeps I (outboxRepo_OldestPending E q t)"
  "keeps I (journalRepo_ByTransaction E q i)" "keeps I (journalRepo_GlobalImbalance E q)"
  "keeps I (journalRepo_AccountBalance E q acct)"
  unfolding walletRepo_Insert_def walletRepo_Get_def walletRepo_GetForUpdate_def walletRepo_get_def
    walletRepo_UpdateBalance_def walletRepo_ExistsForPlayerCurrency_def transactionRepo_Insert_def
    transactionRepo_Update_def transactionRepo_GetByID_def transactionRepo_GetByIdempotencyKey_def
    transactionRepo_GetByProviderExternalID_def transactionRepo_scanOne_def
    transactionRepo_HasSuccessfulReversal_def transactionRepo_ClaimPendingReference_def
    transactionRepo_RecordReferenceAttempt_def transactionRepo_CountPendingReference_def
    ledgerRepo_Insert_def ledgerRepo_Totals_def inboxRepo_Get_def inboxRepo_Insert_def
    outboxRepo_Claim_def outboxRepo_MarkPublished_def outboxRepo_Reschedule_def
    outboxRepo_OldestPending_def journalRepo_ByTransaction_def journalRepo_GlobalImbalance_def
    journalRepo_AccountBalance_def
  by (intro keeps_intros keeps_writes)+

lemmas keeps_all = keeps_repos keeps_outbox_Insert keeps_journal_Insert

end

section \<open>The constraints hold\<close>

definition unique_by :: "('a \<Rightarrow> 'a \<Rightarrow> bool) \<Rightarrow> 'a list \<Rightarrow> bool" where
  "unique_by same rs \<longleftrightarrow> sorted_wrt (\<lambda>a b. \<not> same a b) rs"

lemma unique_by_Nil [simp]: "unique_by same []"
  by (simp add: unique_by_def)

lemma unique_by_snoc [simp]: "unique_by same (rs @ [r]) \<longleftrightarrow> unique_by same rs \<and> (\<forall>x \<in> set rs. \<not> same x r)"
  by (simp add: unique_by_def sorted_wrt_append)

lemma unique_by_map:
  "(\<And>a b. same (f a) (f b) = same a b) \<Longrightarrow> unique_by same (map f rs) = unique_by same rs"
  by (simp add: unique_by_def sorted_wrt_map)

lemma unique_byD:
  "unique_by same rs \<Longrightarrow> a \<in> set rs \<Longrightarrow> b \<in> set rs \<Longrightarrow> same a b \<Longrightarrow> same b a \<Longrightarrow> a = b"
  by (induction rs) (auto simp: unique_by_def)

lemma unique_by_distinct: "unique_by (\<lambda>a b. f a = f b) rs \<longleftrightarrow> distinct (map f rs)"
  by (induction rs) (auto simp: unique_by_def)

definition same_player_currency :: "wallet_row \<Rightarrow> wallet_row \<Rightarrow> bool" where
  "same_player_currency a b \<longleftrightarrow> wr_player_id a = wr_player_id b \<and> wr_currency a = wr_currency b"

definition same_operation :: "tx_row \<Rightarrow> tx_row \<Rightarrow> bool" where
  "same_operation a b \<longleftrightarrow> same_key (tr_provider_id a) (tr_provider_id b)
     \<and> same_key (tr_external_transaction_id a) (tr_external_transaction_id b)"

definition same_opening :: "tx_row \<Rightarrow> tx_row \<Rightarrow> bool" where
  "same_opening a b \<longleftrightarrow> tr_kind a = ''OPENING'' \<and> tr_kind b = ''OPENING'' \<and> tr_wallet_id a = tr_wallet_id b"

definition wallet_table_ok :: "db \<Rightarrow> bool" where
  "wallet_table_ok d \<longleftrightarrow> (\<forall>r \<in> set (db_wallet d). list_all snd (wallet_checks r))
     \<and> unique_by (\<lambda>a b. wr_id a = wr_id b) (db_wallet d) \<and> unique_by same_player_currency (db_wallet d)"

definition tx_table_ok :: "db \<Rightarrow> bool" where
  "tx_table_ok d \<longleftrightarrow> (\<forall>r \<in> set (db_tx d). list_all snd (tx_checks r) \<and> list_all snd (tx_foreign_keys r d))
     \<and> unique_by (\<lambda>a b. tr_id a = tr_id b) (db_tx d) \<and> unique_by same_operation (db_tx d)
     \<and> unique_by (\<lambda>a b. same_key (tr_idempotency_key a) (tr_idempotency_key b)) (db_tx d)
     \<and> unique_by same_opening (db_tx d)"

definition ledger_table_ok :: "db \<Rightarrow> bool" where
  "ledger_table_ok d \<longleftrightarrow>
     (\<forall>r \<in> set (db_ledger d). list_all snd (ledger_checks r)
        \<and> lr_wallet_id r \<in> wr_id ` set (db_wallet d) \<and> lr_transaction_id r \<in> tr_id ` set (db_tx d))
     \<and> unique_by (\<lambda>a b. lr_id a = lr_id b) (db_ledger d)
     \<and> unique_by (\<lambda>a b. lr_wallet_id a = lr_wallet_id b \<and> lr_transaction_id a = lr_transaction_id b) (db_ledger d)"

definition journal_table_ok :: "db \<Rightarrow> bool" where
  "journal_table_ok d \<longleftrightarrow>
     (\<forall>r \<in> set (db_journal d). list_all snd (journal_checks r) \<and> jr_transaction_id r \<in> tr_id ` set (db_tx d))
     \<and> unique_by (\<lambda>a b. jr_id a = jr_id b) (db_journal d)"

definition inbox_table_ok :: "db \<Rightarrow> bool" where
  "inbox_table_ok d \<longleftrightarrow> (\<forall>r \<in> set (db_inbox d). ir_wager_transaction_id r \<in> tr_id ` set (db_tx d))
     \<and> unique_by (\<lambda>a b. ir_consumer_name a = ir_consumer_name b \<and> ir_message_id a = ir_message_id b) (db_inbox d)"

definition outbox_table_ok :: "db \<Rightarrow> bool" where
  "outbox_table_ok d \<longleftrightarrow> unique_by (\<lambda>a b. or_event_id a = or_event_id b) (db_outbox d)"

definition schema_ok :: "db \<Rightarrow> bool" where
  "schema_ok d \<longleftrightarrow> wallet_table_ok d \<and> tx_table_ok d \<and> ledger_table_ok d \<and> journal_table_ok d
     \<and> inbox_table_ok d \<and> outbox_table_ok d"

lemmas table_ok_defs = wallet_table_ok_def tx_table_ok_def ledger_table_ok_def journal_table_ok_def
  inbox_table_ok_def outbox_table_ok_def

lemma schema_ok_empty [simp]: "schema_ok empty_db"
  by (simp add: schema_ok_def table_ok_defs empty_db_def)

lemma references_iff: "(\<exists>x \<in> S. f x = k) \<longleftrightarrow> k \<in> f ` S"
  by auto

lemma if_Some_None: "((if b then Some x else None) = None) = (\<not> b)"
  by simp

lemma guarded_Inr_list_all: "guarded errs x = Inr y \<longleftrightarrow> list_all (\<lambda>e. e = None) errs \<and> y = x"
  by (simp add: list_all_iff)

lemma insert_wallet_Inr:
  "insert_wallet r t d = Inr (u, d') \<longleftrightarrow> list_all snd (wallet_checks r)
     \<and> (\<forall>w \<in> set (db_wallet d). wr_id w \<noteq> wr_id r \<and> \<not> same_player_currency w r)
     \<and> d' = d\<lparr>db_wallet := db_wallet d @ [r]\<rparr>"
  by (auto simp: insert_wallet_def violated_None_iff same_player_currency_def)

lemma update_wallet_Inr:
  "update_wallet_balance i v b ver tm t d = Inr (n, d') \<longleftrightarrow>
     (\<forall>r \<in> set (db_wallet d). wr_id r = i \<longrightarrow> wr_version r = v \<longrightarrow> list_all snd (wallet_checks
        (r\<lparr>wr_balance_minor_units := b, wr_version := ver, wr_updated_at := tm\<rparr>)))
     \<and> n = length (filter (\<lambda>r. wr_id r = i \<and> wr_version r = v) (db_wallet d))
     \<and> d' = d\<lparr>db_wallet := map (\<lambda>r. if wr_id r = i \<and> wr_version r = v
          then r\<lparr>wr_balance_minor_units := b, wr_version := ver, wr_updated_at := tm\<rparr> else r) (db_wallet d)\<rparr>"
  by (auto simp: update_wallet_balance_def Let_def violated_None_iff)

lemma insert_tx_Inr:
  "insert_tx r t d = Inr (u, d') \<longleftrightarrow> list_all snd (tx_checks r) \<and> list_all snd (tx_foreign_keys r d)
     \<and> (\<forall>x \<in> set (db_tx d). tr_id x \<noteq> tr_id r \<and> \<not> same_operation x r
          \<and> \<not> same_key (tr_idempotency_key x) (tr_idempotency_key r) \<and> \<not> same_opening x r)
     \<and> d' = d\<lparr>db_tx := db_tx d @ [r]\<rparr>"
  by (auto simp: insert_tx_def violated_None_iff same_operation_def same_opening_def)

lemma update_tx_rows_Inr:
  "update_tx_rows hit upd t d = Inr (n, d') \<longleftrightarrow>
     (\<forall>r \<in> set (db_tx d). hit r \<longrightarrow> \<not> terminal_status (tr_status r)
        \<and> list_all snd (tx_checks (upd r)) \<and> list_all snd (tx_foreign_keys (upd r) d))
     \<and> n = length (filter hit (db_tx d))
     \<and> d' = d\<lparr>db_tx := map (\<lambda>r. if hit r then upd r else r) (db_tx d)\<rparr>"
  unfolding update_tx_rows_def guarded_Inr_list_all
  by (simp add: list.pred_map comp_def violated_None_iff list_all_iff [where xs = "filter hit (db_tx d)"]
      if_Some_None) blast

lemma insert_ledger_Inr:
  "insert_ledger r t d = Inr (u, d') \<longleftrightarrow> list_all snd (ledger_checks r)
     \<and> lr_wallet_id r \<in> wr_id ` set (db_wallet d) \<and> lr_transaction_id r \<in> tr_id ` set (db_tx d)
     \<and> (\<forall>l \<in> set (db_ledger d). lr_id l \<noteq> lr_id r
          \<and> \<not> (lr_wallet_id l = lr_wallet_id r \<and> lr_transaction_id l = lr_transaction_id r))
     \<and> d' = d\<lparr>db_ledger := db_ledger d @ [r]\<rparr>"
  by (simp add: insert_ledger_def violated_None_iff references_iff [where f = wr_id] references_iff [where f = tr_id] ball_conj_distrib; argo)

lemma insert_journal_Inr:
  "insert_journal r t d = Inr (u, d') \<longleftrightarrow> list_all snd (journal_checks r)
     \<and> jr_transaction_id r \<in> tr_id ` set (db_tx d) \<and> (\<forall>j \<in> set (db_journal d). jr_id j \<noteq> jr_id r)
     \<and> d' = d\<lparr>db_journal := db_journal d @ [r]\<rparr>"
  by (simp add: insert_journal_def violated_None_iff references_iff [where f = wr_id] references_iff [where f = tr_id]; argo)

lemma insert_inbox_Inr:
  "insert_inbox r t d = Inr (u, d') \<longleftrightarrow> ir_wager_transaction_id r \<in> tr_id ` set (db_tx d)
     \<and> (\<forall>i \<in> set (db_inbox d). \<not> (ir_consumer_name i = ir_consumer_name r \<and> ir_message_id i = ir_message_id r))
     \<and> d' = d\<lparr>db_inbox := db_inbox d @ [r]\<rparr>"
  by (simp add: insert_inbox_def violated_None_iff references_iff [where f = wr_id] references_iff [where f = tr_id]; argo)

lemma insert_outbox_Inr:
  "insert_outbox r t d = Inr (u, d') \<longleftrightarrow> (\<forall>x \<in> set (db_outbox d). or_event_id x \<noteq> or_event_id r)
     \<and> d' = d\<lparr>db_outbox := db_outbox d @ [r]\<rparr>"
  by (auto simp: insert_outbox_def violated_None_iff)

lemmas statement_Inr = insert_wallet_Inr update_wallet_Inr insert_tx_Inr update_tx_rows_Inr
  insert_ledger_Inr insert_journal_Inr insert_inbox_Inr insert_outbox_Inr

text \<open>An update that keeps the identities of the rows keeps what only looks at them.\<close>

lemma unique_by_update:
  assumes "unique_by same rs" and "\<And>a b. same (upd a) b = same a b" and "\<And>a b. same a (upd b) = same a b"
  shows "unique_by same (map (\<lambda>r. if hit r then upd r else r) rs)"
  using assms by (subst unique_by_map) auto

lemma image_update:
  "(\<And>r. f (upd r) = f r) \<Longrightarrow> f ` set (map (\<lambda>r. if hit r then upd r else r) rs) = f ` set rs"
  by (induction rs) auto

lemma tx_foreign_keys_ok:
  "list_all snd (tx_foreign_keys r d) \<longleftrightarrow> tr_wallet_id r \<in> wr_id ` set (db_wallet d)
     \<and> (\<forall>i. tr_reference_transaction_id r = Some i \<longrightarrow> i = tr_id r \<or> i \<in> tr_id ` set (db_tx d))"
  by (simp add: tx_foreign_keys_def references_iff [where f = wr_id] references_iff [where f = tr_id] split: option.splits)

lemma tx_identity_updates:
  "tr_id (tx_update_row tx r) = tr_id r" "tr_kind (tx_update_row tx r) = tr_kind r"
  "tr_wallet_id (tx_update_row tx r) = tr_wallet_id r"
  "same_operation (tx_update_row tx a) b = same_operation a b"
  "same_operation a (tx_update_row tx b) = same_operation a b"
  "same_opening (tx_update_row tx a) b = same_opening a b"
  "same_opening a (tx_update_row tx b) = same_opening a b"
  "tr_idempotency_key (tx_update_row tx r) = tr_idempotency_key r"
  by (simp_all add: tx_update_row_def same_operation_def same_opening_def)

lemma tx_table_ok_update:
  assumes ok: "tx_table_ok d" and run: "update_tx_rows hit upd t d = Inr (n, d')"
    and ident: "\<And>r. tr_id (upd r) = tr_id r" "\<And>r. tr_kind (upd r) = tr_kind r"
      "\<And>r. tr_wallet_id (upd r) = tr_wallet_id r" "\<And>r. tr_idempotency_key (upd r) = tr_idempotency_key r"
      "\<And>r. tr_provider_id (upd r) = tr_provider_id r"
      "\<And>r. tr_external_transaction_id (upd r) = tr_external_transaction_id r"
  shows "tx_table_ok d' \<and> tr_id ` set (db_tx d') = tr_id ` set (db_tx d)
    \<and> d' = d\<lparr>db_tx := db_tx d'\<rparr>"
proof -
  have d': "d' = d\<lparr>db_tx := map (\<lambda>r. if hit r then upd r else r) (db_tx d)\<rparr>"
    and new: "\<forall>r \<in> set (db_tx d). hit r \<longrightarrow> list_all snd (tx_checks (upd r)) \<and> list_all snd (tx_foreign_keys (upd r) d)"
    using run by (simp_all add: update_tx_rows_Inr)
  have ids: "tr_id ` set (db_tx d') = tr_id ` set (db_tx d)"
    using image_update [of tr_id upd hit "db_tx d"] ident by (simp add: d' del: set_map)
  have fk: "list_all snd (tx_foreign_keys r d') = list_all snd (tx_foreign_keys r d)" for r
    using ids by (simp add: tx_foreign_keys_ok d')
  have "\<forall>r \<in> set (db_tx d'). list_all snd (tx_checks r) \<and> list_all snd (tx_foreign_keys r d')"
    unfolding fk using ok new by (auto simp: d' tx_table_ok_def)
  moreover have "unique_by (\<lambda>a b. tr_id a = tr_id b) (db_tx d')" "unique_by same_operation (db_tx d')"
    "unique_by (\<lambda>a b. same_key (tr_idempotency_key a) (tr_idempotency_key b)) (db_tx d')"
    "unique_by same_opening (db_tx d')"
    using ok by (simp_all add: d' tx_table_ok_def unique_by_update ident same_operation_def same_opening_def)
  ultimately show ?thesis using ids by (simp add: tx_table_ok_def d')
qed

lemma schema_ok_tx_update:
  assumes "schema_ok d" "tx_table_ok d' \<and> tr_id ` set (db_tx d') = tr_id ` set (db_tx d) \<and> d' = d\<lparr>db_tx := db_tx d'\<rparr>"
  shows "schema_ok d'"
proof -
  obtain t where d': "d' = d\<lparr>db_tx := t\<rparr>" and ids: "tr_id ` set t = tr_id ` set (db_tx d)"
    using assms(2) by (metis db.select_convs(2) db.surjective db.update_convs(2))
  show ?thesis using assms ids
    by (simp add: schema_ok_def d' ledger_table_ok_def journal_table_ok_def inbox_table_ok_def
        wallet_table_ok_def outbox_table_ok_def)
qed

lemma schema_ok_outbox_update:
  assumes "schema_ok d" and "d' = d\<lparr>db_outbox := map (\<lambda>r. if hit r then upd r else r) (db_outbox d)\<rparr>"
    and "\<And>r. or_event_id (upd r) = or_event_id r"
  shows "schema_ok d'"
  using assms by (simp add: schema_ok_def table_ok_defs tx_foreign_keys_ok unique_by_update)

interpretation schema: statement_invariant schema_ok
proof
  fix d d' :: db and t :: time and u :: unit and n :: nat
  note defs = schema_ok_def table_ok_defs tx_foreign_keys_ok
  show "schema_ok d'" if "schema_ok d" "insert_wallet r t d = Inr (u, d')" for r
    using that by (auto simp: defs insert_wallet_Inr)
  show "schema_ok d'" if "schema_ok d" "update_wallet_balance i v b ver tm t d = Inr (n, d')" for i v b ver tm
  proof -
    let ?upd = "\<lambda>r. r\<lparr>wr_balance_minor_units := b, wr_version := ver, wr_updated_at := tm\<rparr>"
    let ?ws = "map (\<lambda>r. if wr_id r = i \<and> wr_version r = v then ?upd r else r) (db_wallet d)"
    have d': "d' = d\<lparr>db_wallet := ?ws\<rparr>" using that(2) by (simp add: update_wallet_Inr)
    have "\<forall>r \<in> set ?ws. list_all snd (wallet_checks r)"
      using that by (auto simp: update_wallet_Inr schema_ok_def wallet_table_ok_def)
    moreover have "unique_by (\<lambda>a b. wr_id a = wr_id b) ?ws" "unique_by same_player_currency ?ws"
      using that(1) by (simp_all add: schema_ok_def wallet_table_ok_def unique_by_update same_player_currency_def)
    moreover have "wr_id ` set ?ws = wr_id ` set (db_wallet d)" by (rule image_update) simp
    ultimately show ?thesis using that(1) by (simp add: defs d')
  qed
  show "schema_ok d'" if "schema_ok d" "insert_tx r t d = Inr (u, d')" for r
    using that by (auto simp: defs insert_tx_Inr)
  show "schema_ok d'" if "schema_ok d" "update_tx tx t d = Inr (n, d')" for tx
    by (rule schema_ok_tx_update [OF that(1) tx_table_ok_update [OF _ that(2) [unfolded update_tx_def]]])
      (use that(1) in \<open>simp_all add: schema_ok_def tx_update_row_def\<close>)
  show "schema_ok d'" if "schema_ok d" "update_reference_attempt i a tm t d = Inr (n, d')" for i a tm
    by (rule schema_ok_tx_update [OF that(1) tx_table_ok_update [OF _ that(2) [unfolded update_reference_attempt_def]]])
      (use that(1) in \<open>simp_all add: schema_ok_def\<close>)
  show "schema_ok d'" if "schema_ok d" "insert_ledger r t d = Inr (u, d')" for r
    using that by (auto simp: defs insert_ledger_Inr)
  show "schema_ok d'" if "schema_ok d" "insert_journal r t d = Inr (u, d')" for r
    using that by (auto simp: defs insert_journal_Inr)
  show "schema_ok d'" if "schema_ok d" "insert_inbox r t d = Inr (u, d')" for r
    using that by (auto simp: defs insert_inbox_Inr)
  show "schema_ok d'" if "schema_ok d" "insert_outbox r t d = Inr (u, d')" for r
    using that by (auto simp: defs insert_outbox_Inr)
  show "schema_ok d'" if "schema_ok d" "claim_outbox ow l un tm t d = Inr (rs, d')" for ow l un tm rs
    using that schema_ok_outbox_update [of d d' "\<lambda>r. or_event_id r \<in> set (map or_event_id (claimed_rows l tm d))"
        "\<lambda>r. r\<lparr>or_locked_by := Some ow, or_locked_until := Some (timestamptz un)\<rparr>"]
    by (simp add: claim_outbox_def Let_def del: set_map)
  show "schema_ok d'" if "schema_ok d" "update_published i tm t d = Inr (n, d')" for i tm
    using that schema_ok_outbox_update [of d d' "\<lambda>r. or_event_id r = i \<and> or_published_at r = None"
        "\<lambda>r. r\<lparr>or_published_at := Some (timestamptz tm), or_locked_by := None, or_locked_until := None\<rparr>"]
    by (simp add: update_published_def update_outbox_rows_def)
  show "schema_ok d'" if "schema_ok d" "update_rescheduled i a tm t d = Inr (n, d')" for i a tm
    using that schema_ok_outbox_update [of d d' "\<lambda>r. or_event_id r = i \<and> or_published_at r = None"
        "\<lambda>r. r\<lparr>or_attempts := a, or_next_attempt_at := timestamptz tm, or_locked_by := None, or_locked_until := None\<rparr>"]
    by (simp add: update_rescheduled_def update_outbox_rows_def)
qed

end
