(* ===== verification/History.thy ===== *)
theory History
  imports Schema
begin

text \<open>
  How the tables may change over time, whatever the program does: rows are never removed; the
  ledger, the journal and the inbox are append-only; a transaction keeps what it was created with
  and is frozen once its status is terminal; a wallet keeps its identity; an event keeps its
  content and stays published once it is.
\<close>

text \<open>The rows of a table and its later rows: each old row has its successor in the same place.\<close>

definition grows :: "('a \<Rightarrow> 'a \<Rightarrow> bool) \<Rightarrow> 'a list \<Rightarrow> 'a list \<Rightarrow> bool" where
  "grows R old new \<longleftrightarrow> length old \<le> length new \<and> list_all2 R old (take (length old) new)"

lemma grows_refl: "(\<And>x. R x x) \<Longrightarrow> grows R xs xs"
  by (simp add: grows_def list_all2_refl)

lemma grows_snoc: "grows R xs ys \<Longrightarrow> grows R xs (ys @ [y])"
  by (auto simp: grows_def)

lemma grows_map:
  assumes "grows R xs ys" and "\<And>x y. y \<in> set ys \<Longrightarrow> R x y \<Longrightarrow> R x (f y)"
  shows "grows R xs (map f ys)"
  using assms by (auto simp: grows_def take_map list.rel_map elim!: list_all2_mono [rotated] list.rel_mono_strong
      dest: in_set_takeD)

lemma grows_trans:
  assumes "grows R xs ys" "grows R ys zs" and "\<And>x y z. R x y \<Longrightarrow> R y z \<Longrightarrow> R x z"
  shows "grows R xs zs"
proof -
  have "list_all2 R (take (length xs) ys) (take (length xs) (take (length ys) zs))"
    using assms(2) by (intro list_all2_takeI) (simp add: grows_def)
  moreover have "take (length xs) (take (length ys) zs) = take (length xs) zs"
    using assms(1) by (simp add: grows_def min_def)
  ultimately have "list_all2 R xs (take (length xs) zs)"
    using assms(1,3) list_all2_trans [of R R R xs "take (length xs) ys" "take (length xs) zs"]
    by (simp add: grows_def)
  then show ?thesis using assms(1,2) by (simp add: grows_def)
qed

lemma grows_eq_prefix: "grows (=) xs ys \<longleftrightarrow> (\<exists>zs. ys = xs @ zs)"
  by (auto simp: grows_def list.rel_eq) (metis append_take_drop_id)

lemma grows_member: "grows R xs ys \<Longrightarrow> x \<in> set xs \<Longrightarrow> \<exists>y \<in> set ys. R x y"
  unfolding grows_def list_all2_conv_all_nth
  by (metis in_set_conv_nth in_set_takeD length_take min.absorb2)

definition same_wallet :: "wallet_row \<Rightarrow> wallet_row \<Rightarrow> bool" where
  "same_wallet a b \<longleftrightarrow> wr_id a = wr_id b \<and> wr_player_id a = wr_player_id b
     \<and> wr_currency a = wr_currency b \<and> wr_created_at a = wr_created_at b"

definition same_tx :: "tx_row \<Rightarrow> tx_row \<Rightarrow> bool" where
  "same_tx a b \<longleftrightarrow> (if terminal_status (tr_status a) then b = a
     else b = a\<lparr>tr_status := tr_status b, tr_reference_transaction_id := tr_reference_transaction_id b,
       tr_failure_code := tr_failure_code b,
       tr_resulting_balance_minor_units := tr_resulting_balance_minor_units b,
       tr_updated_at := tr_updated_at b, tr_reference_attempts := tr_reference_attempts b,
       tr_reference_next_attempt_at := tr_reference_next_attempt_at b\<rparr>)"

definition same_event :: "outbox_row \<Rightarrow> outbox_row \<Rightarrow> bool" where
  "same_event a b \<longleftrightarrow> b = a\<lparr>or_attempts := or_attempts b, or_next_attempt_at := or_next_attempt_at b,
       or_published_at := or_published_at b, or_locked_by := or_locked_by b, or_locked_until := or_locked_until b\<rparr>
     \<and> (or_published_at a \<noteq> None \<longrightarrow> or_published_at b = or_published_at a)"

definition db_extends :: "db \<Rightarrow> db \<Rightarrow> bool" where
  "db_extends old new \<longleftrightarrow> grows same_wallet (db_wallet old) (db_wallet new)
     \<and> grows same_tx (db_tx old) (db_tx new)
     \<and> grows (=) (db_ledger old) (db_ledger new)
     \<and> grows (=) (db_journal old) (db_journal new)
     \<and> grows (=) (db_inbox old) (db_inbox new)
     \<and> grows same_event (db_outbox old) (db_outbox new)"

lemma db_extends_refl [simp]: "db_extends d d"
  by (simp add: db_extends_def grows_refl same_wallet_def same_tx_def same_event_def)

lemma same_tx_trans: "same_tx a b \<Longrightarrow> same_tx b c \<Longrightarrow> same_tx a c"
  by (cases a; cases b; cases c) (auto simp: same_tx_def split: if_splits)

lemma same_event_trans: "same_event a b \<Longrightarrow> same_event b c \<Longrightarrow> same_event a c"
  by (cases a; cases b; cases c) (auto simp: same_event_def)

lemma db_extends_trans: "db_extends a b \<Longrightarrow> db_extends b c \<Longrightarrow> db_extends a c"
  unfolding db_extends_def
  by (intro conjI; elim conjE; erule grows_trans; assumption?)
    (auto simp: same_wallet_def intro: same_tx_trans same_event_trans)

lemma same_tx_update:
  assumes "same_tx a b" and "hit b \<Longrightarrow> \<not> terminal_status (tr_status b)"
    and "\<And>r. \<not> terminal_status (tr_status r) \<Longrightarrow> same_tx r (upd r)"
  shows "same_tx a (if hit b then upd b else b)"
  using assms same_tx_trans by auto

lemma db_extends_tx_update:
  assumes "db_extends d0 d" and run: "update_tx_rows hit upd t d = Inr (n, d')"
    and "\<And>r. \<not> terminal_status (tr_status r) \<Longrightarrow> same_tx r (upd r)"
  shows "db_extends d0 d'"
proof -
  have "grows same_tx (db_tx d0) (map (\<lambda>r. if hit r then upd r else r) (db_tx d))"
    using assms by (intro grows_map same_tx_update) (auto simp: db_extends_def update_tx_rows_Inr)
  then show ?thesis using assms(1) run by (simp add: db_extends_def update_tx_rows_Inr)
qed

lemma db_extends_outbox_update:
  assumes "db_extends d0 d" and "d' = d\<lparr>db_outbox := map (\<lambda>r. if hit r then upd r else r) (db_outbox d)\<rparr>"
    and "\<And>r. hit r \<Longrightarrow> same_event r (upd r)"
  shows "db_extends d0 d'"
proof -
  have "grows same_event (db_outbox d0) (map (\<lambda>r. if hit r then upd r else r) (db_outbox d))"
    using assms by (intro grows_map) (auto simp: db_extends_def intro: same_event_trans)
  then show ?thesis using assms by (simp add: db_extends_def)
qed

interpretation history: statement_invariant "db_extends d0" for d0
proof
  fix d d' :: db and t :: time and u :: unit and n :: nat
  assume ext: "db_extends d0 d"
  show "db_extends d0 d'" if "insert_wallet r t d = Inr (u, d')" for r
    using that ext by (simp add: db_extends_def insert_wallet_Inr grows_snoc)
  show "db_extends d0 d'" if "update_wallet_balance i v b ver tm t d = Inr (n, d')" for i v b ver tm
  proof -
    let ?upd = "\<lambda>r. r\<lparr>wr_balance_minor_units := b, wr_version := ver, wr_updated_at := tm\<rparr>"
    have "grows same_wallet (db_wallet d0) (map (\<lambda>r. if wr_id r = i \<and> wr_version r = v then ?upd r else r) (db_wallet d))"
      using ext by (intro grows_map) (simp_all add: db_extends_def same_wallet_def)
    then show ?thesis using that ext by (simp add: db_extends_def update_wallet_Inr)
  qed
  show "db_extends d0 d'" if "insert_tx r t d = Inr (u, d')" for r
    using that ext by (simp add: db_extends_def insert_tx_Inr grows_snoc)
  show "db_extends d0 d'" if "update_tx tx t d = Inr (n, d')" for tx
    by (rule db_extends_tx_update [OF ext that [unfolded update_tx_def]])
      (simp add: same_tx_def tx_update_row_def)
  show "db_extends d0 d'" if "update_reference_attempt i a tm t d = Inr (n, d')" for i a tm
    by (rule db_extends_tx_update [OF ext that [unfolded update_reference_attempt_def]])
      (simp add: same_tx_def)
  show "db_extends d0 d'" if "insert_ledger r t d = Inr (u, d')" for r
    using that ext by (simp add: db_extends_def insert_ledger_Inr grows_snoc)
  show "db_extends d0 d'" if "insert_journal r t d = Inr (u, d')" for r
    using that ext by (simp add: db_extends_def insert_journal_Inr grows_snoc)
  show "db_extends d0 d'" if "insert_inbox r t d = Inr (u, d')" for r
    using that ext by (simp add: db_extends_def insert_inbox_Inr grows_snoc)
  show "db_extends d0 d'" if "insert_outbox r t d = Inr (u, d')" for r
    using that ext by (simp add: db_extends_def insert_outbox_Inr grows_snoc)
  show "db_extends d0 d'" if "claim_outbox ow l un tm t d = Inr (rs, d')" for ow l un tm rs
    using that db_extends_outbox_update [OF ext, of d' "\<lambda>r. or_event_id r \<in> set (map or_event_id (claimed_rows l tm d))"
        "\<lambda>r. r\<lparr>or_locked_by := Some ow, or_locked_until := Some (timestamptz un)\<rparr>"]
    by (simp add: claim_outbox_def Let_def same_event_def del: set_map)
  show "db_extends d0 d'" if "update_published i tm t d = Inr (n, d')" for i tm
    using that db_extends_outbox_update [OF ext, of d' "\<lambda>r. or_event_id r = i \<and> or_published_at r = None"
        "\<lambda>r. r\<lparr>or_published_at := Some (timestamptz tm), or_locked_by := None, or_locked_until := None\<rparr>"]
    by (simp add: update_published_def update_outbox_rows_def same_event_def)
  show "db_extends d0 d'" if "update_rescheduled i a tm t d = Inr (n, d')" for i a tm
    using that db_extends_outbox_update [OF ext, of d' "\<lambda>r. or_event_id r = i \<and> or_published_at r = None"
        "\<lambda>r. r\<lparr>or_attempts := a, or_next_attempt_at := timestamptz tm, or_locked_by := None, or_locked_until := None\<rparr>"]
    by (simp add: update_rescheduled_def update_outbox_rows_def same_event_def)
qed

end
