(* ===== verification/Runs.thy ===== *)
theory Runs
  imports History
begin

text \<open>
  Reading a successful repository call backwards: what it found and how the tables changed. With
  the \<open>run_simps\<close> of the combinators these lemmas turn a successful run of a use case into the
  sequence of its statements.
\<close>

section \<open>Programs that only read\<close>

definition read_only :: "'a prog \<Rightarrow> bool" where
  "read_only f \<longleftrightarrow> (\<forall>d. keeps (\<lambda>d'. d' = d) f)"

lemma read_onlyI: "(\<And>d. keeps (\<lambda>d'. d' = d) f) \<Longrightarrow> read_only f"
  by (simp add: read_only_def)

lemma read_onlyD: "read_only f \<Longrightarrow> f w = (r, w') \<Longrightarrow> wd_db w' = wd_db w"
  unfolding read_only_def using keepsD by blast

lemma read_only_reads:
  "read_only (walletRepo_get E q i)" "read_only (walletRepo_ExistsForPlayerCurrency E q p c)"
  "read_only (transactionRepo_scanOne E q P)" "read_only (transactionRepo_HasSuccessfulReversal E q i)"
  "read_only (transactionRepo_ClaimPendingReference E q l t)" "read_only (transactionRepo_CountPendingReference E q)"
  "read_only (ledgerRepo_Totals E q i)" "read_only (inboxRepo_Get E q c m)"
  "read_only (outboxRepo_OldestPending E q t)" "read_only (journalRepo_ByTransaction E q i)"
  "read_only (journalRepo_GlobalImbalance E q)" "read_only (journalRepo_AccountBalance E q acct)"
  unfolding walletRepo_get_def walletRepo_ExistsForPlayerCurrency_def transactionRepo_scanOne_def
    transactionRepo_HasSuccessfulReversal_def transactionRepo_ClaimPendingReference_def
    transactionRepo_CountPendingReference_def ledgerRepo_Totals_def inboxRepo_Get_def
    outboxRepo_OldestPending_def journalRepo_ByTransaction_def journalRepo_GlobalImbalance_def
    journalRepo_AccountBalance_def
  by (intro read_onlyI keeps_intros)+

section \<open>Statements behind successful calls\<close>

lemma query_run: "sql E q (query f) w = (Inr x, w') \<Longrightarrow> (\<exists>t. x = f t (wd_db w)) \<and> wd_db w' = wd_db w"
  by (erule sql_run_db) (auto simp: query_def)

lemma walletRepo_get_run:
  assumes "walletRepo_get E q i w = (Inr x, w')"
  obtains row where "find (\<lambda>r. wr_id r = i) (db_wallet (wd_db w)) = Some row" "wallet_of_row row = Inr x"
    "wd_db w' = wd_db w"
proof -
  obtain r w1 where s: "sql E q (select_wallet i) w = (Inr r, w1)"
    and x: "(case r of None \<Rightarrow> failP (AppErr ErrNotFound) | Some row \<Rightarrow> liftR (wallet_of_row row)) w1 = (Inr x, w')"
    using assms by (auto simp: walletRepo_get_def run_simps)
  from s have "find (\<lambda>r. wr_id r = i) (db_wallet (wd_db w)) = r" "wd_db w1 = wd_db w"
    by (auto elim!: sql_run_db simp: select_wallet_def)
  with x show ?thesis using that by (cases r) (auto simp: run_simps)
qed

lemmas walletRepo_GetForUpdate_run = walletRepo_get_run [folded walletRepo_GetForUpdate_def]
  and walletRepo_Get_run = walletRepo_get_run [folded walletRepo_Get_def]

lemma scanOne_run:
  assumes "transactionRepo_scanOne E q P w = (Inr t, w')"
  obtains row where "find P (db_tx (wd_db w)) = Some row" "toDomain row = Inr t" "wd_db w' = wd_db w"
proof -
  obtain r w1 where s: "sql E q (select_tx P) w = (Inr r, w1)"
    and x: "(case r of None \<Rightarrow> failP (AppErr ErrNotFound) | Some row \<Rightarrow> liftR (toDomain row)) w1 = (Inr t, w')"
    using assms by (auto simp: transactionRepo_scanOne_def run_simps)
  from s have "find P (db_tx (wd_db w)) = r" "wd_db w1 = wd_db w"
    by (auto elim!: sql_run_db simp: select_tx_def)
  with x show ?thesis using that by (cases r) (auto simp: run_simps)
qed

lemmas GetByID_run = scanOne_run [where P = "\<lambda>r. tr_id r = i" for i, folded transactionRepo_GetByID_def]

text \<open>The errors of the server and the driver are none of the sentinels.\<close>

lemma sql_error:
  assumes "sql E q stmt w = (Inl e, w')" and "\<And>t d e. stmt t d = Inl e \<Longrightarrow> \<exists>c n. e = PgErr c n"
  shows "(\<exists>s. e = DriverErr s) \<or> (\<exists>c n. e = PgErr c n)"
  using assms
  by (auto simp: sql_def Let_def split: option.splits driver_failure.splits if_splits sum.splits prod.splits)

lemma toDomain_error: "toDomain r = Inl e \<Longrightarrow> root_cause e \<noteq> AppErr a"
  by (auto simp: toDomain_def wagertx_Rehydrate_def split: if_splits)

text \<open>A lookup reports \<open>ErrNotFound\<close> exactly when there is no row.\<close>

lemma scanOne_NotFound:
  assumes "transactionRepo_scanOne E q P w = (Inl e, w')" "errors_Is e (AppErr ErrNotFound)"
  shows "find P (db_tx (wd_db w)) = None"
proof (cases "sql E q (select_tx P) w")
  case (Pair r w1)
  show ?thesis
  proof (cases r)
    case (Inl err)
    then have "e = WrapErr ''selecting wager transaction'' err"
      using assms(1) Pair by (simp add: transactionRepo_scanOne_def bindP_def wrapP_def)
    moreover have "(\<exists>s. err = DriverErr s) \<or> (\<exists>c n. err = PgErr c n)"
      using Pair Inl sql_error [of E q "select_tx P" w err w1] by (simp add: select_tx_def)
    ultimately show ?thesis using assms(2) by auto
  next
    case (Inr found)
    then have f: "found = find P (db_tx (wd_db w))"
      using Pair by (auto elim!: sql_run_db simp: select_tx_def)
    show ?thesis
    proof (cases found)
      case (Some row)
      then have "toDomain row = Inl e"
        using assms(1) Pair Inr by (simp add: transactionRepo_scanOne_def bindP_def wrapP_def liftR_def)
      then show ?thesis using toDomain_error assms(2) by auto
    qed (simp add: f [symmetric])
  qed
qed

lemma transactionRepo_Insert_run:
  assumes "transactionRepo_Insert E q t w = (Inr u, w')"
  obtains now where "insert_tx (tx_to_row t now) now (wd_db w) = Inr ((), wd_db w')"
proof -
  obtain r w1 where s: "sql E q (\<lambda>now. insert_tx (tx_to_row t now) now) w = (r, w1)"
    and x: "(case r of Inr _ \<Rightarrow> retP () | Inl err \<Rightarrow>
         if constraintViolation err = Some ''wager_transaction_idempotency_key_unique''
           then failP (AppErr ErrIdempotencyConflict)
         else if constraintViolation err = Some ''wager_transaction_provider_external_unique''
           then failP (AppErr ErrOperationIdentityConflict)
         else if constraintViolation err = Some ''wager_transaction_one_opening_per_wallet''
           then failP (AppErr ErrWalletAlreadyExists)
         else failP (WrapErr ''inserting wager transaction'' err)) w1 = (Inr u, w')"
    using assms by (auto simp: transactionRepo_Insert_def run_simps)
  then obtain v where "r = Inr v" "w1 = w'"
    by (cases r) (auto simp: run_simps split: if_splits)
  with s show ?thesis using that by (auto elim!: sql_run_db)
qed

lemma walletRepo_Insert_run:
  assumes "walletRepo_Insert E q x w = (Inr u, w')"
  obtains now where "insert_wallet (wallet_to_row x) now (wd_db w) = Inr ((), wd_db w')"
proof -
  obtain r w1 where s: "sql E q (insert_wallet (wallet_to_row x)) w = (r, w1)"
    and x: "(case r of Inr _ \<Rightarrow> retP () | Inl err \<Rightarrow>
       if constraintViolation err = Some ''wallet_player_currency_unique''
       then failP (AppErr ErrWalletAlreadyExists)
       else failP (WrapErr ''inserting wallet'' err)) w1 = (Inr u, w')"
    using assms by (auto simp: walletRepo_Insert_def run_simps)
  then obtain v where "r = Inr v" "w1 = w'"
    by (cases r) (auto simp: run_simps split: if_splits)
  with s show ?thesis using that by (auto elim!: sql_run_db)
qed

lemma transactionRepo_Update_run:
  assumes "transactionRepo_Update E q t w = (Inr u, w')"
  obtains n now where "update_tx t now (wd_db w) = Inr (n, wd_db w')" "n \<noteq> 0"
  using assms
  by (fastforce simp: transactionRepo_Update_def run_simps split: if_splits elim!: sql_run_db)

lemma UpdateBalance_run:
  assumes "walletRepo_UpdateBalance E q x v w = (Inr u, w')"
  obtains n now where "update_wallet_balance (wlt_id x) v (minorUnits (wlt_balance x)) (wlt_version x)
      (timestamptz (wlt_updatedAt x)) now (wd_db w) = Inr (n, wd_db w')" "n \<noteq> 0"
  using assms
  by (fastforce simp: walletRepo_UpdateBalance_def run_simps split: if_splits elim!: sql_run_db)

lemma ledgerRepo_Insert_run:
  assumes "ledgerRepo_Insert E q e w = (Inr u, w')"
  obtains now where "insert_ledger (ledger_to_row e) now (wd_db w) = Inr ((), wd_db w')"
  using assms by (auto simp: ledgerRepo_Insert_def run_simps elim!: sql_run_db)

lemma inboxRepo_Insert_run:
  assumes "inboxRepo_Insert E q rec w = (Inr u, w')"
  obtains now where "insert_inbox (inbox_to_row rec) now (wd_db w) = Inr ((), wd_db w')"
  using assms by (auto simp: inboxRepo_Insert_def run_simps elim!: sql_run_db)

text \<open>The loops over journal entries and events append their rows.\<close>

lemma journalRepo_Insert_run:
  "journalRepo_Insert E q es w = (Inr u, w') \<Longrightarrow>
     wd_db w' = (wd_db w)\<lparr>db_journal := db_journal (wd_db w) @ map journal_to_row es\<rparr>"
proof (induction es arbitrary: w)
  case (Cons e es)
  from Cons.prems obtain v w1 where s: "sql E q (insert_journal (journal_to_row e)) w = (Inr v, w1)"
    and r: "journalRepo_Insert E q es w1 = (Inr u, w')"
    by (auto simp: run_simps)
  from s have "wd_db w1 = (wd_db w)\<lparr>db_journal := db_journal (wd_db w) @ [journal_to_row e]\<rparr>"
    by (auto elim!: sql_run_db simp: insert_journal_Inr)
  with Cons.IH [OF r] show ?case by simp
qed (simp add: run_simps)

lemma outboxRepo_Insert_run:
  "outboxRepo_Insert E q es w = (Inr u, w') \<Longrightarrow>
     \<exists>traces. length traces = length es
       \<and> wd_db w' = (wd_db w)\<lparr>db_outbox := db_outbox (wd_db w) @ map2 (outbox_to_row E) es traces\<rparr>"
proof (induction es arbitrary: w)
  case (Cons e es)
  let ?t = "traceparent E (wd_calls w)"
  from Cons.prems obtain v w1 where s: "sql E q (insert_outbox (outbox_to_row E e ?t)) w = (Inr v, w1)"
    and r: "outboxRepo_Insert E q es w1 = (Inr u, w')"
    by (auto simp: run_simps)
  from s have d1: "wd_db w1 = (wd_db w)\<lparr>db_outbox := db_outbox (wd_db w) @ [outbox_to_row E e ?t]\<rparr>"
    by (auto elim!: sql_run_db simp: insert_outbox_Inr)
  from Cons.IH [OF r] obtain traces where "length traces = length es"
    "wd_db w' = (wd_db w1)\<lparr>db_outbox := db_outbox (wd_db w1) @ map2 (outbox_to_row E) es traces\<rparr>" by blast
  with d1 show ?case by (intro exI [of _ "?t # traces"]) simp
qed (simp add: run_simps)

lemma HasSuccessfulReversal_run:
  "transactionRepo_HasSuccessfulReversal E q i w = (Inr b, w') \<Longrightarrow>
     b = (\<exists>r \<in> set (db_tx (wd_db w)). is_successful_reversal_of i r) \<and> wd_db w' = wd_db w"
  unfolding transactionRepo_HasSuccessfulReversal_def wrapP_run
  by (drule query_run) (auto simp: list_ex_iff)

end
