(* ===== verification/ProcessWager.thy ===== *)
theory ProcessWager
  imports Runs
begin

text \<open>
  \<open>internal/app/process_wager.go\<close>: the use case that applies one operation of a provider to a
  wallet, with the decision it takes (\<open>decide\<close>, \<open>decideReversal\<close>), its settlement (\<open>settle\<close>,
  \<open>reject\<close>) and the replies to repeated requests. Tracing spans are left out. A pointer to the
  transaction becomes a transaction that is returned; identifiers that a constructor draws are
  drawn just before it is called.
\<close>

record process_command =
  pc_ProviderID :: string
  pc_ExternalTransactionID :: string
  pc_IdempotencyKey :: string
  pc_PayloadHash :: string
  pc_PlayerID :: uuid
  pc_WalletID :: uuid
  pc_RoundID :: string
  pc_GameID :: string
  pc_Kind :: kind
  pc_Money :: money
  pc_ReferenceExternalTransactionID :: string
  pc_CorrelationID :: uuid
  pc_ConsumerName :: string
  pc_MessageID :: string

record process_result =
  ps_Transaction :: wager_tx
  ps_Balance :: money
  ps_IdempotentReplay :: bool

datatype decision_kind = DecisionProcess | DecisionReject | DecisionPendingReference

text \<open>The zero values of the Go struct stand where a decision does not name a field.\<close>

record decision =
  dc_kind :: decision_kind
  dc_movesFunds :: bool
  dc_direction :: direction
  dc_failure :: failure_code

definition decision_process :: "direction \<Rightarrow> decision" where
  "decision_process dir = \<lparr>dc_kind = DecisionProcess, dc_movesFunds = True, dc_direction = dir, dc_failure = NoFailure\<rparr>"

definition decision_still :: decision where
  "decision_still = \<lparr>dc_kind = DecisionProcess, dc_movesFunds = False, dc_direction = UnknownDirection [], dc_failure = NoFailure\<rparr>"

definition decision_reject :: "failure_code \<Rightarrow> decision" where
  "decision_reject code = \<lparr>dc_kind = DecisionReject, dc_movesFunds = False, dc_direction = UnknownDirection [], dc_failure = code\<rparr>"

definition decision_pending :: decision where
  "decision_pending = \<lparr>dc_kind = DecisionPendingReference, dc_movesFunds = False, dc_direction = UnknownDirection [], dc_failure = NoFailure\<rparr>"

text \<open>\<open>switch\<close> on the error of a lookup: found, \<open>ErrNotFound\<close>, or any other error, wrapped.\<close>

definition found_or_absent :: "string \<Rightarrow> 'a prog \<Rightarrow> 'a option prog" where
  "found_or_absent s f = bindP (tryP f) (\<lambda>r. case r of
     Inr x \<Rightarrow> retP (Some x)
   | Inl err \<Rightarrow> if errors_Is err (AppErr ErrNotFound) then retP None else failP (WrapErr s err))"

section \<open>Replays\<close>

definition replayResult :: "wager_tx \<Rightarrow> process_result" where
  "replayResult t = \<lparr>ps_Transaction = t, ps_Balance = fst (Tx_ResultingBalance t), ps_IdempotentReplay = True\<rparr>"

definition fastReplay :: "env \<Rightarrow> process_command \<Rightarrow> process_result option prog" where
  "fastReplay E cmd =
     bindP (found_or_absent ''reading transaction by idempotency key''
       (transactionRepo_GetByIdempotencyKey E Pool (pc_IdempotencyKey cmd))) (\<lambda>found. case found of
       None \<Rightarrow> retP None
     | Some existing \<Rightarrow>
         if tx_payloadHash existing \<noteq> pc_PayloadHash cmd then failP (AppErr ErrIdempotencyConflict)
         else if \<not> Tx_IsTerminal existing then retP None
         else if pc_MessageID cmd \<noteq> [] then retP None
         else retP (Some (replayResult existing)))"

definition recordInbox :: "env \<Rightarrow> process_command \<Rightarrow> uuid \<Rightarrow> time \<Rightarrow> unit prog" where
  "recordInbox E cmd transactionID now =
     (if pc_MessageID cmd = [] then retP ()
      else inboxRepo_Insert E Tx \<lparr>in_ConsumerName = pc_ConsumerName cmd, in_MessageID = pc_MessageID cmd,
        in_PayloadHash = pc_PayloadHash cmd, in_WagerTransactionID = transactionID,
        in_ReceivedAt = now, in_CompletedAt = now\<rparr>)"

section \<open>The decision\<close>

definition reversalDirection :: "kind \<Rightarrow> kind \<Rightarrow> direction option" where
  "reversalDirection k refKind =
     (if k = Refund then (if refKind \<noteq> Bet then None else Some Credit)
      else if refKind = Bet then Some Credit
      else if refKind = Win \<or> refKind = Refund then Some Debit
      else None)"

definition attachOptionalReference :: "env \<Rightarrow> querier \<Rightarrow> wager_tx \<Rightarrow> wager_tx prog" where
  "attachOptionalReference E q tx =
     (if tx_referenceExternalTxID tx = [] then retP tx
      else bindP (tryP (transactionRepo_GetByProviderExternalID E q (tx_providerID tx) (tx_referenceExternalTxID tx)))
        (\<lambda>r. case r of
           Inl _ \<Rightarrow> retP tx
         | Inr ref \<Rightarrow> (case ResolveReference tx (tx_id ref) of Inl _ \<Rightarrow> retP tx | Inr tx' \<Rightarrow> retP tx')))"

definition decideReversal :: "env \<Rightarrow> querier \<Rightarrow> wager_tx \<Rightarrow> (decision \<times> wager_tx) prog" where
  "decideReversal E q tx =
     bindP (found_or_absent ''resolving reference''
       (transactionRepo_GetByProviderExternalID E q (tx_providerID tx) (tx_referenceExternalTxID tx))) (\<lambda>found.
     case found of
       None \<Rightarrow> retP (decision_pending, tx)
     | Some ref \<Rightarrow>
         if tx_status ref = Pending \<or> tx_status ref = PendingReference then retP (decision_pending, tx)
         else if tx_status ref = Rejected \<or> tx_status ref = Failed
           then retP (decision_reject FailureReferenceNotSuccessful, tx)
         else if tx_playerID ref \<noteq> tx_playerID tx \<or> tx_walletID ref \<noteq> tx_walletID tx
              \<or> tx_roundID ref \<noteq> tx_roundID tx
              \<or> moneyCurrency (tx_money ref) \<noteq> moneyCurrency (tx_money tx)
           then retP (decision_reject FailureReferenceMismatch, tx)
         else if \<not> Money_Equal (tx_money ref) (tx_money tx)
           then retP (decision_reject FailureReferenceMismatch, tx)
         else case reversalDirection (tx_kind tx) (tx_kind ref) of
           None \<Rightarrow> retP (decision_reject FailureReferenceMismatch, tx)
         | Some dir \<Rightarrow>
             bindP (wrapP ''checking existing reversal'' (transactionRepo_HasSuccessfulReversal E q (tx_id ref)))
               (\<lambda>reversed.
             if reversed then retP (decision_reject FailureDuplicateReversal, tx)
             else bindP (liftR (ResolveReference tx (tx_id ref))) (\<lambda>tx'.
               retP (decision_process dir, tx'))))"

definition decide :: "env \<Rightarrow> querier \<Rightarrow> wager_tx \<Rightarrow> wallet \<Rightarrow> (decision \<times> wager_tx) prog" where
  "decide E q tx w =
     (if moneyCurrency (tx_money tx) \<noteq> wlt_currency w
        then retP (decision_reject FailureCurrencyMismatch, tx)
      else case tx_kind tx of
        Bet \<Rightarrow> retP (decision_process Debit, tx)
      | Win \<Rightarrow> bindP (attachOptionalReference E q tx) (\<lambda>tx'. retP (decision_process Credit, tx'))
      | Loss \<Rightarrow> retP (decision_still, tx)
      | Refund \<Rightarrow> decideReversal E q tx
      | Rollback \<Rightarrow> decideReversal E q tx
      | k \<Rightarrow> failP (WrapErr (kind_string k) (TxErr ErrInvalidKind)))"

section \<open>Settlement\<close>

fun applyMovement :: "wallet \<Rightarrow> direction \<Rightarrow> money \<Rightarrow> time \<Rightarrow> goerr + wallet" where
  "applyMovement w Debit amount now = Wallet_Debit w amount now"
| "applyMovement w Credit amount now = Wallet_Credit w amount now"
| "applyMovement w (UnknownDirection s) amount now = Inl (WrapErr s (LedgerErr ErrInvalidDirection))"

definition recordDoubleEntry :: "env \<Rightarrow> querier \<Rightarrow> wager_tx \<Rightarrow> direction \<Rightarrow> time \<Rightarrow> unit prog" where
  "recordDoubleEntry E q tx dir now =
     (let walletAccount = WalletAccount E (tx_walletID tx);
          counterparty = ProviderAccount (tx_providerID tx);
          (from, to) = (if dir = Debit then (walletAccount, counterparty) else (counterparty, walletAccount))
      in bindP (new_uuid E) (\<lambda>id1. bindP (new_uuid E) (\<lambda>id2.
         bindP (wrapP ''building journal entries'' (liftR (NewMovement
           \<lparr>mp_TransactionID = tx_id tx, mp_From = from, mp_To = to, mp_Amount = tx_money tx, mp_Now = now\<rparr> id1 id2)))
         (\<lambda>entries.
         case AssertBalanced entries of
           Some err \<Rightarrow> failP err
         | None \<Rightarrow> wrapP ''inserting journal entries'' (journalRepo_Insert E q entries)))))"

type_synonym save = "wager_tx \<Rightarrow> unit prog"

definition reject :: "env \<Rightarrow> querier \<Rightarrow> wager_tx \<Rightarrow> wallet \<Rightarrow> failure_code \<Rightarrow> meta \<Rightarrow> time \<Rightarrow> save \<Rightarrow> process_result prog" where
  "reject E q tx w code meta now save =
     bindP (liftR (MarkRejected tx code now)) (\<lambda>tx.
     bindP (wrapP ''saving rejected transaction'' (save tx)) (\<lambda>_.
     bindP (new_uuid E) (\<lambda>i.
     bindP (liftR (NewWagerTransactionRejected E i tx meta)) (\<lambda>evt.
     bindP (wrapP ''inserting outbox event'' (outboxRepo_Insert E q [evt])) (\<lambda>_.
     retP \<lparr>ps_Transaction = tx, ps_Balance = wlt_balance w, ps_IdempotentReplay = False\<rparr>)))))"

definition settle_pending :: "env \<Rightarrow> querier \<Rightarrow> wager_tx \<Rightarrow> wallet \<Rightarrow> meta \<Rightarrow> time \<Rightarrow> save \<Rightarrow> process_result prog" where
  "settle_pending E q tx w meta now save =
     bindP (liftR (MarkPendingReference tx now)) (\<lambda>tx.
     bindP (wrapP ''saving pending-reference transaction'' (save tx)) (\<lambda>_.
     bindP (new_uuid E) (\<lambda>i.
     bindP (liftR (NewWagerTransactionPendingReference E i tx meta)) (\<lambda>evt.
     bindP (wrapP ''inserting outbox event'' (outboxRepo_Insert E q [evt])) (\<lambda>_.
     retP \<lparr>ps_Transaction = tx, ps_Balance = wlt_balance w, ps_IdempotentReplay = False\<rparr>)))))"

definition settle_still :: "env \<Rightarrow> querier \<Rightarrow> wager_tx \<Rightarrow> wallet \<Rightarrow> meta \<Rightarrow> time \<Rightarrow> save \<Rightarrow> process_result prog" where
  "settle_still E q tx w meta now save =
     bindP (liftR (MarkProcessed tx (wlt_balance w) now)) (\<lambda>tx.
     bindP (wrapP ''saving transaction'' (save tx)) (\<lambda>_.
     bindP (new_uuid E) (\<lambda>i.
     bindP (liftR (NewWagerTransactionProcessed E i tx (wlt_balance w) meta)) (\<lambda>evt.
     bindP (wrapP ''inserting outbox event'' (outboxRepo_Insert E q [evt])) (\<lambda>_.
     retP \<lparr>ps_Transaction = tx, ps_Balance = wlt_balance w, ps_IdempotentReplay = False\<rparr>)))))"

text \<open>The part of \<open>settle\<close> after the movement succeeded; \<open>w\<close> is the moved wallet.\<close>

definition post_movement ::
  "env \<Rightarrow> querier \<Rightarrow> wager_tx \<Rightarrow> wallet \<Rightarrow> money \<Rightarrow> int64 \<Rightarrow> direction \<Rightarrow> meta \<Rightarrow> time \<Rightarrow> save \<Rightarrow> process_result prog" where
  "post_movement E q tx w balanceBefore expectedVersion dir meta now save =
     bindP (liftR (MarkProcessed tx (wlt_balance w) now)) (\<lambda>tx.
     bindP (wrapP ''saving transaction'' (save tx)) (\<lambda>_.
     bindP (walletRepo_UpdateBalance E q w expectedVersion) (\<lambda>_.
     bindP (new_uuid E) (\<lambda>lid.
     bindP (liftR (NewWalletLedgerEntry \<lparr>nl_ID = lid, nl_WalletID = wlt_id w, nl_TransactionID = tx_id tx,
       nl_Direction = dir, nl_Amount = tx_money tx, nl_BalanceBefore = balanceBefore, nl_Now = now\<rparr>)) (\<lambda>entry.
     bindP (wrapP ''inserting ledger entry'' (ledgerRepo_Insert E q entry)) (\<lambda>_.
     bindP (recordDoubleEntry E q tx dir now) (\<lambda>_.
     bindP (new_uuid E) (\<lambda>i.
     bindP (liftR (NewWagerTransactionProcessed E i tx (wlt_balance w) meta)) (\<lambda>processed.
     bindP (new_uuid E) (\<lambda>j.
     bindP (liftR (NewWalletBalanceChanged E j entry (wlt_version w) (meta\<lparr>mt_CausationID := Some (tx_id tx)\<rparr>))) (\<lambda>changed.
     bindP (wrapP ''inserting outbox events'' (outboxRepo_Insert E q [processed, changed])) (\<lambda>_.
     retP \<lparr>ps_Transaction = tx, ps_Balance = wlt_balance w, ps_IdempotentReplay = False\<rparr>))))))))))))"

definition settle ::
  "env \<Rightarrow> querier \<Rightarrow> wager_tx \<Rightarrow> wallet \<Rightarrow> decision \<Rightarrow> meta \<Rightarrow> time \<Rightarrow> save \<Rightarrow> process_result prog" where
  "settle E q tx w d meta now save =
     (case dc_kind d of
        DecisionPendingReference \<Rightarrow> settle_pending E q tx w meta now save
      | DecisionReject \<Rightarrow> reject E q tx w (dc_failure d) meta now save
      | DecisionProcess \<Rightarrow>
          if \<not> dc_movesFunds d then settle_still E q tx w meta now save
          else case applyMovement w (dc_direction d) (tx_money tx) now of
            Inl err \<Rightarrow>
              if errors_Is err (WalletErr ErrInsufficientBalance)
              then reject E q tx w (if Kind_RequiresReference (tx_kind tx)
                     then FailureInsufficientBalanceForReversal else FailureInsufficientBalance) meta now save
              else failP err
          | Inr w' \<Rightarrow> post_movement E q tx w' (wlt_balance w) (wlt_version w) (dc_direction d) meta now save)"

section \<open>Execute\<close>

text \<open>The checks of \<open>Execute\<close> inside its transaction that answer a repeated request.\<close>

definition replayed_message :: "env \<Rightarrow> process_command \<Rightarrow> process_result option prog" where
  "replayed_message E cmd =
     (if pc_MessageID cmd = [] then retP None
      else bindP (wrapP ''reading inbox'' (inboxRepo_Get E Tx (pc_ConsumerName cmd) (pc_MessageID cmd))) (\<lambda>found.
        case found of
          None \<Rightarrow> retP None
        | Some rec \<Rightarrow>
            if in_PayloadHash rec \<noteq> pc_PayloadHash cmd then failP (AppErr ErrIdempotencyConflict)
            else bindP (wrapP ''loading transaction for replayed message''
                (transactionRepo_GetByID E Tx (in_WagerTransactionID rec))) (\<lambda>existing.
              retP (Some (replayResult existing)))))"

definition replayed_key :: "env \<Rightarrow> process_command \<Rightarrow> time \<Rightarrow> process_result option prog" where
  "replayed_key E cmd now =
     bindP (found_or_absent ''reading transaction by idempotency key''
       (transactionRepo_GetByIdempotencyKey E Tx (pc_IdempotencyKey cmd))) (\<lambda>found. case found of
       None \<Rightarrow> retP None
     | Some existing \<Rightarrow>
         if tx_payloadHash existing \<noteq> pc_PayloadHash cmd then failP (AppErr ErrIdempotencyConflict)
         else bindP (recordInbox E cmd (tx_id existing) now) (\<lambda>_. retP (Some (replayResult existing))))"

definition replayed_identity :: "env \<Rightarrow> process_command \<Rightarrow> time \<Rightarrow> process_result option prog" where
  "replayed_identity E cmd now =
     bindP (found_or_absent ''reading transaction by provider identity''
       (transactionRepo_GetByProviderExternalID E Tx (pc_ProviderID cmd) (pc_ExternalTransactionID cmd))) (\<lambda>found.
     case found of
       None \<Rightarrow> retP None
     | Some byIdentity \<Rightarrow>
         if tx_idempotencyKey byIdentity \<noteq> pc_IdempotencyKey cmd then failP (AppErr ErrOperationIdentityConflict)
         else bindP (recordInbox E cmd (tx_id byIdentity) now) (\<lambda>_. retP (Some (replayResult byIdentity))))"

definition external_params :: "process_command \<Rightarrow> uuid \<Rightarrow> time \<Rightarrow> new_external_params" where
  "external_params cmd i now = \<lparr>ne_ID = i, ne_ProviderID = pc_ProviderID cmd,
     ne_ExternalTransactionID = pc_ExternalTransactionID cmd, ne_IdempotencyKey = pc_IdempotencyKey cmd,
     ne_PayloadHash = pc_PayloadHash cmd, ne_WalletID = pc_WalletID cmd, ne_PlayerID = pc_PlayerID cmd,
     ne_RoundID = pc_RoundID cmd, ne_GameID = pc_GameID cmd, ne_Kind = pc_Kind cmd,
     ne_Money = pc_Money cmd,
     ne_ReferenceExternalTransactionID = pc_ReferenceExternalTransactionID cmd, ne_Now = now\<rparr>"

definition execute_new :: "env \<Rightarrow> process_command \<Rightarrow> wallet \<Rightarrow> time \<Rightarrow> process_result prog" where
  "execute_new E cmd w now =
     bindP (new_uuid E) (\<lambda>i.
     bindP (liftR (NewExternal (external_params cmd i now))) (\<lambda>tx.
     bindP (decide E Tx tx w) (\<lambda>(d, tx).
     bindP (settle E Tx tx w d
         \<lparr>mt_CorrelationID = pc_CorrelationID cmd, mt_CausationID = None, mt_OccurredAt = now\<rparr> now
         (transactionRepo_Insert E Tx)) (\<lambda>outcome.
     bindP (recordInbox E cmd (tx_id tx) now) (\<lambda>_. retP outcome)))))"

text \<open>\<open>or_else\<close>: the first of two steps that answers the request.\<close>

definition or_else :: "'a option prog \<Rightarrow> 'a prog \<Rightarrow> 'a prog" where
  "or_else f g = bindP f (\<lambda>r. case r of Some x \<Rightarrow> retP x | None \<Rightarrow> g)"

definition execute_body :: "env \<Rightarrow> process_command \<Rightarrow> time \<Rightarrow> process_result prog" where
  "execute_body E cmd now =
     bindP (walletRepo_GetForUpdate E Tx (pc_WalletID cmd)) (\<lambda>w.
     if wlt_playerID w \<noteq> pc_PlayerID cmd then failP (AppErr ErrWalletMismatch)
     else or_else (replayed_message E cmd)
         (or_else (replayed_key E cmd now)
         (or_else (replayed_identity E cmd now)
         (execute_new E cmd w now))))"

definition ProcessWager_Execute :: "env \<Rightarrow> process_command \<Rightarrow> process_result prog" where
  "ProcessWager_Execute E cmd =
     bindP (read_clock E) (\<lambda>now.
     or_else (fastReplay E cmd) (within E (execute_body E cmd now)))"

section \<open>What every run keeps\<close>

lemma keeps_case_kind [keeps_intros]:
  "(k = Bet \<Longrightarrow> keeps I a) \<Longrightarrow> (k = Win \<Longrightarrow> keeps I b) \<Longrightarrow> (k = Loss \<Longrightarrow> keeps I c)
   \<Longrightarrow> (k = Refund \<Longrightarrow> keeps I e) \<Longrightarrow> (k = Rollback \<Longrightarrow> keeps I f) \<Longrightarrow> keeps I g
   \<Longrightarrow> (\<And>s. keeps I (h s))
   \<Longrightarrow> keeps I (case k of Opening \<Rightarrow> g | Bet \<Rightarrow> a | Win \<Rightarrow> b | Loss \<Rightarrow> c | Refund \<Rightarrow> e | Rollback \<Rightarrow> f
        | UnknownKind s \<Rightarrow> h s)"
  by (cases k) simp_all

lemma keeps_case_decision [keeps_intros]:
  "keeps I a \<Longrightarrow> keeps I b \<Longrightarrow> keeps I c
   \<Longrightarrow> keeps I (case k of DecisionProcess \<Rightarrow> a | DecisionReject \<Rightarrow> b | DecisionPendingReference \<Rightarrow> c)"
  by (cases k) simp_all

context statement_invariant
begin

lemma keeps_found_or_absent [keeps_intros]: "keeps I f \<Longrightarrow> keeps I (found_or_absent s f)"
  unfolding found_or_absent_def by (intro keeps_intros)

lemma keeps_or_else [keeps_intros]: "keeps I f \<Longrightarrow> keeps I g \<Longrightarrow> keeps I (or_else f g)"
  unfolding or_else_def by (intro keeps_intros)

lemma keeps_fastReplay: "keeps I (fastReplay E cmd)"
  unfolding fastReplay_def by (intro keeps_intros keeps_all)

lemma keeps_recordInbox: "keeps I (recordInbox E cmd i t)"
  unfolding recordInbox_def by (intro keeps_intros keeps_all)

lemma keeps_decideReversal: "keeps I (decideReversal E q tx)"
  unfolding decideReversal_def by (intro keeps_intros keeps_all)

lemma keeps_decide: "keeps I (decide E q tx w)"
  unfolding decide_def attachOptionalReference_def by (intro keeps_intros keeps_all keeps_decideReversal)

lemma keeps_recordDoubleEntry: "keeps I (recordDoubleEntry E q tx dir t)"
  unfolding recordDoubleEntry_def Let_def by (intro keeps_intros keeps_all)

lemma keeps_reject: "(\<And>tx. keeps I (save tx)) \<Longrightarrow> keeps I (reject E q tx w code meta t save)"
  unfolding reject_def by (intro keeps_intros keeps_all) assumption+

lemma keeps_settle:
  assumes "\<And>tx. keeps I (save tx)"
  shows "keeps I (settle E q tx w d meta t save)"
  unfolding settle_def settle_pending_def settle_still_def post_movement_def
  by (intro keeps_intros keeps_all keeps_reject keeps_recordDoubleEntry assms)

lemma keeps_execute_body: "keeps I (execute_body E cmd t)"
  unfolding execute_body_def replayed_message_def replayed_key_def replayed_identity_def execute_new_def
  by (intro keeps_intros keeps_all keeps_recordInbox keeps_decide keeps_settle)

lemma keeps_ProcessWager: "keeps I (ProcessWager_Execute E cmd)"
  unfolding ProcessWager_Execute_def by (intro keeps_intros keeps_fastReplay keeps_execute_body)

end

end
