(* ===== verification/Settlement.thy ===== *)
theory Settlement
  imports ProcessWager
begin

text \<open>
  What a successful settlement does to the tables. The locale \<open>saver\<close> is the contract of the \<open>save\<close>
  argument of \<open>settle\<close>, which both \<open>Insert\<close> and \<open>Update\<close> of the transaction repository fulfil;
  \<open>effect_still\<close> and \<open>effect_moved\<close> are the two effects a settlement can have.
\<close>

definition tx_inserted :: "wager_tx \<Rightarrow> db \<Rightarrow> db \<Rightarrow> bool" where
  "tx_inserted t d d' \<longleftrightarrow> (\<exists>now. insert_tx (tx_to_row t now) now d = Inr ((), d'))"

definition tx_updated :: "wager_tx \<Rightarrow> db \<Rightarrow> db \<Rightarrow> bool" where
  "tx_updated t d d' \<longleftrightarrow> (\<exists>n now. update_tx t now d = Inr (n, d') \<and> n \<noteq> 0)"

locale saver =
  fixes save :: "wager_tx \<Rightarrow> unit prog" and S :: "wager_tx \<Rightarrow> db \<Rightarrow> db \<Rightarrow> bool"
  assumes saved: "save t x = (Inr u, x') \<Longrightarrow> S t (wd_db x) (wd_db x')"
    and saved_db: "S t d d' \<Longrightarrow> \<exists>txs. d' = d\<lparr>db_tx := txs\<rparr>"

interpretation save_insert: saver "transactionRepo_Insert E q" tx_inserted for E q
  by unfold_locales (auto simp: tx_inserted_def insert_tx_Inr elim!: transactionRepo_Insert_run)

interpretation save_update: saver "transactionRepo_Update E q" tx_updated for E q
proof
  show "tx_updated t (wd_db x) (wd_db x')" if "transactionRepo_Update E q t x = (Inr u, x')" for t x u x'
    by (rule transactionRepo_Update_run [OF that]) (auto simp: tx_updated_def)
  show "\<exists>txs. d' = d\<lparr>db_tx := txs\<rparr>" if "tx_updated t d d'" for t d d'
    using that by (auto simp: tx_updated_def update_tx_def update_tx_rows_Inr)
qed

text \<open>The transaction is saved, events are appended, and nothing else changes.\<close>

definition effect_still :: "(wager_tx \<Rightarrow> db \<Rightarrow> db \<Rightarrow> bool) \<Rightarrow> wager_tx \<Rightarrow> string \<Rightarrow> db \<Rightarrow> db \<Rightarrow> bool" where
  "effect_still S t event d d' \<longleftrightarrow> (\<exists>o1. S t d (d\<lparr>db_tx := db_tx d'\<rparr>)
     \<and> or_event_type o1 = event \<and> or_published_at o1 = None
     \<and> d' = d\<lparr>db_tx := db_tx d', db_outbox := db_outbox d @ [o1]\<rparr>)"

text \<open>The transaction is saved, the wallet goes from \<open>w\<close> to \<open>w'\<close>, one ledger row and the two
  journal rows of the movement are appended, and two events.\<close>

definition movement_accounts :: "env \<Rightarrow> wager_tx \<Rightarrow> direction \<Rightarrow> account \<times> account" where
  "movement_accounts E t dir = (if dir = Debit
     then (WalletAccount E (tx_walletID t), ProviderAccount (tx_providerID t))
     else (ProviderAccount (tx_providerID t), WalletAccount E (tx_walletID t)))"

definition effect_moved :: "env \<Rightarrow> (wager_tx \<Rightarrow> db \<Rightarrow> db \<Rightarrow> bool) \<Rightarrow> wager_tx \<Rightarrow> wallet \<Rightarrow> wallet \<Rightarrow> direction \<Rightarrow> time \<Rightarrow> db \<Rightarrow> db \<Rightarrow> bool" where
  "effect_moved E S t w w' dir now d d' \<longleftrightarrow> (\<exists>entry es o1 o2 n t0 i1 i2 lid.
     S t d (d\<lparr>db_tx := db_tx d'\<rparr>)
     \<and> update_wallet_balance (wlt_id w') (wlt_version w) (minorUnits (wlt_balance w')) (wlt_version w')
         (timestamptz (wlt_updatedAt w')) t0 d = Inr (n, d\<lparr>db_wallet := db_wallet d'\<rparr>) \<and> n \<noteq> 0
     \<and> NewWalletLedgerEntry \<lparr>nl_ID = lid, nl_WalletID = wlt_id w', nl_TransactionID = tx_id t,
         nl_Direction = dir, nl_Amount = tx_money t, nl_BalanceBefore = wlt_balance w, nl_Now = now\<rparr> = Inr entry
     \<and> NewMovement \<lparr>mp_TransactionID = tx_id t, mp_From = fst (movement_accounts E t dir),
         mp_To = snd (movement_accounts E t dir), mp_Amount = tx_money t, mp_Now = now\<rparr> i1 i2 = Inr es
     \<and> map or_event_type [o1, o2] = [''WagerTransactionProcessed'', ''WalletBalanceChanged'']
     \<and> or_published_at o1 = None \<and> or_published_at o2 = None
     \<and> (\<forall>l \<in> set (db_ledger d). \<not> (lr_wallet_id l = wlt_id w' \<and> lr_transaction_id l = tx_id t))
     \<and> d' = d\<lparr>db_tx := db_tx d', db_wallet := db_wallet d', db_ledger := db_ledger d @ [ledger_to_row entry],
         db_journal := db_journal d @ map journal_to_row es, db_outbox := db_outbox d @ [o1, o2]\<rparr>)"

definition outcome :: "wager_tx \<Rightarrow> money \<Rightarrow> process_result" where
  "outcome t b = \<lparr>ps_Transaction = t, ps_Balance = b, ps_IdempotentReplay = False\<rparr>"

definition insufficient_code :: "wager_tx \<Rightarrow> failure_code" where
  "insufficient_code tx = (if Kind_RequiresReference (tx_kind tx)
     then FailureInsufficientBalanceForReversal else FailureInsufficientBalance)"

text \<open>The abstract settlement: the five ways a decision takes effect on the tables.\<close>

inductive settles ::
  "env \<Rightarrow> (wager_tx \<Rightarrow> db \<Rightarrow> db \<Rightarrow> bool) \<Rightarrow> wager_tx \<Rightarrow> wallet \<Rightarrow> decision \<Rightarrow> time \<Rightarrow> db \<Rightarrow> db
    \<Rightarrow> process_result \<Rightarrow> bool"
  for E S tx w dec now d d'
where
  pended: "dc_kind dec = DecisionPendingReference \<Longrightarrow> MarkPendingReference tx now = Inr t
    \<Longrightarrow> effect_still S t ''WagerTransactionPendingReference'' d d'
    \<Longrightarrow> settles E S tx w dec now d d' (outcome t (wlt_balance w))"
| rejected: "dc_kind dec = DecisionReject \<Longrightarrow> MarkRejected tx (dc_failure dec) now = Inr t
    \<Longrightarrow> effect_still S t ''WagerTransactionRejected'' d d'
    \<Longrightarrow> settles E S tx w dec now d d' (outcome t (wlt_balance w))"
| refused: "dc_kind dec = DecisionProcess \<Longrightarrow> dc_movesFunds dec
    \<Longrightarrow> applyMovement w (dc_direction dec) (tx_money tx) now = Inl err
    \<Longrightarrow> errors_Is err (WalletErr ErrInsufficientBalance)
    \<Longrightarrow> MarkRejected tx (insufficient_code tx) now = Inr t
    \<Longrightarrow> effect_still S t ''WagerTransactionRejected'' d d'
    \<Longrightarrow> settles E S tx w dec now d d' (outcome t (wlt_balance w))"
| still: "dc_kind dec = DecisionProcess \<Longrightarrow> \<not> dc_movesFunds dec
    \<Longrightarrow> MarkProcessed tx (wlt_balance w) now = Inr t
    \<Longrightarrow> effect_still S t ''WagerTransactionProcessed'' d d'
    \<Longrightarrow> settles E S tx w dec now d d' (outcome t (wlt_balance w))"
| moved: "dc_kind dec = DecisionProcess \<Longrightarrow> dc_movesFunds dec
    \<Longrightarrow> applyMovement w (dc_direction dec) (tx_money tx) now = Inr w'
    \<Longrightarrow> MarkProcessed tx (wlt_balance w') now = Inr t
    \<Longrightarrow> effect_moved E S t w w' (dc_direction dec) now d d'
    \<Longrightarrow> settles E S tx w dec now d d' (outcome t (wlt_balance w'))"

inductive_cases settlesE [consumes 1, case_names pended rejected refused still moved]: "settles E S tx w dec now d d' out"

lemma outbox_row_fields:
  "or_event_type (outbox_to_row E e trace) = event_type_string (ev_EventType e)"
  "or_published_at (outbox_to_row E e trace) = None"
  by (simp_all add: outbox_to_row_def)

text \<open>An event is published under the type of its payload.\<close>

lemma new_event_types:
  "NewWagerTransactionProcessed E i t b m = Inr e \<Longrightarrow> ev_EventType e = TypeWagerTransactionProcessed"
  "NewWagerTransactionRejected E i t m = Inr e \<Longrightarrow> ev_EventType e = TypeWagerTransactionRejected"
  "NewWagerTransactionPendingReference E i t m = Inr e \<Longrightarrow> ev_EventType e = TypeWagerTransactionPendingReference"
  "NewWalletBalanceChanged E i entry v m = Inr e \<Longrightarrow> ev_EventType e = TypeWalletBalanceChanged"
  by (auto simp: new_event_defs dest!: newEnvelope_Inr)

lemma outbox_one_run:
  assumes "outboxRepo_Insert E q [e] w = (Inr u, w')"
  obtains trace where "wd_db w' = (wd_db w)\<lparr>db_outbox := db_outbox (wd_db w) @ [outbox_to_row E e trace]\<rparr>"
  using outboxRepo_Insert_run [OF assms] by (auto simp: length_Suc_conv)

lemma outbox_two_run:
  assumes "outboxRepo_Insert E q [e, f] w = (Inr u, w')"
  obtains t1 t2 where "wd_db w' = (wd_db w)\<lparr>db_outbox := db_outbox (wd_db w) @ [outbox_to_row E e t1, outbox_to_row E f t2]\<rparr>"
  using outboxRepo_Insert_run [OF assms] by (auto simp: length_Suc_conv)

context saver
begin

lemma effect_stillI:
  assumes "S t d d1" and "d' = d1\<lparr>db_outbox := db_outbox d1 @ [o1]\<rparr>"
    and "or_event_type o1 = event" "or_published_at o1 = None"
  shows "effect_still S t event d d'"
proof -
  obtain txs where d1: "d1 = d\<lparr>db_tx := txs\<rparr>" using saved_db [OF assms(1)] by blast
  then show ?thesis using assms by (auto simp: effect_still_def)
qed

lemma reject_run:
  assumes "reject E q tx w code meta now save x = (Inr out, x')"
  obtains t where "MarkRejected tx code now = Inr t" "out = outcome t (wlt_balance w)"
    "effect_still S t ''WagerTransactionRejected'' (wd_db x) (wd_db x')"
proof -
  from assms obtain t x1 i evt x2 u v where m: "MarkRejected tx code now = Inr t" and s: "save t x = (Inr u, x1)"
    and e: "NewWagerTransactionRejected E i t meta = Inr evt"
    and o1: "outboxRepo_Insert E q [evt] (x1\<lparr>wd_uuids := Suc (wd_uuids x1)\<rparr>) = (Inr v, x2)"
    and r: "out = outcome t (wlt_balance w)" "x' = x2"
    by (auto simp: reject_def outcome_def run_simps simp del: outboxRepo_Insert.simps)
  from outbox_one_run [OF o1] obtain trace where
    "wd_db x2 = (wd_db x1)\<lparr>db_outbox := db_outbox (wd_db x1) @ [outbox_to_row E evt trace]\<rparr>" by auto
  from effect_stillI [OF saved [OF s] this] have "effect_still S t ''WagerTransactionRejected'' (wd_db x) (wd_db x')"
    by (simp add: r outbox_row_fields new_event_types(2) [OF e])
  then show ?thesis using m r that by blast
qed

lemma settle_pending_run:
  assumes "settle_pending E q tx w meta now save x = (Inr out, x')"
  obtains t where "MarkPendingReference tx now = Inr t" "out = outcome t (wlt_balance w)"
    "effect_still S t ''WagerTransactionPendingReference'' (wd_db x) (wd_db x')"
proof -
  from assms obtain t x1 i evt x2 u v where m: "MarkPendingReference tx now = Inr t" and s: "save t x = (Inr u, x1)"
    and e: "NewWagerTransactionPendingReference E i t meta = Inr evt"
    and o1: "outboxRepo_Insert E q [evt] (x1\<lparr>wd_uuids := Suc (wd_uuids x1)\<rparr>) = (Inr v, x2)"
    and r: "out = outcome t (wlt_balance w)" "x' = x2"
    by (auto simp: settle_pending_def outcome_def run_simps simp del: outboxRepo_Insert.simps)
  from outbox_one_run [OF o1] obtain trace where
    "wd_db x2 = (wd_db x1)\<lparr>db_outbox := db_outbox (wd_db x1) @ [outbox_to_row E evt trace]\<rparr>" by auto
  from effect_stillI [OF saved [OF s] this]
  have "effect_still S t ''WagerTransactionPendingReference'' (wd_db x) (wd_db x')"
    by (simp add: r outbox_row_fields new_event_types(3) [OF e])
  then show ?thesis using m r that by blast
qed

lemma settle_still_run:
  assumes "settle_still E q tx w meta now save x = (Inr out, x')"
  obtains t where "MarkProcessed tx (wlt_balance w) now = Inr t" "out = outcome t (wlt_balance w)"
    "effect_still S t ''WagerTransactionProcessed'' (wd_db x) (wd_db x')"
proof -
  from assms obtain t x1 i evt x2 u v where m: "MarkProcessed tx (wlt_balance w) now = Inr t"
    and s: "save t x = (Inr u, x1)"
    and e: "NewWagerTransactionProcessed E i t (wlt_balance w) meta = Inr evt"
    and o1: "outboxRepo_Insert E q [evt] (x1\<lparr>wd_uuids := Suc (wd_uuids x1)\<rparr>) = (Inr v, x2)"
    and r: "out = outcome t (wlt_balance w)" "x' = x2"
    by (auto simp: settle_still_def outcome_def run_simps simp del: outboxRepo_Insert.simps)
  from outbox_one_run [OF o1] obtain trace where
    "wd_db x2 = (wd_db x1)\<lparr>db_outbox := db_outbox (wd_db x1) @ [outbox_to_row E evt trace]\<rparr>" by auto
  from effect_stillI [OF saved [OF s] this]
  have "effect_still S t ''WagerTransactionProcessed'' (wd_db x) (wd_db x')"
    by (simp add: r outbox_row_fields new_event_types(1) [OF e])
  then show ?thesis using m r that by blast
qed

lemma recordDoubleEntry_run:
  assumes "recordDoubleEntry E q tx dir now x = (Inr u, x')"
  obtains i1 i2 es where "NewMovement \<lparr>mp_TransactionID = tx_id tx, mp_From = fst (movement_accounts E tx dir),
         mp_To = snd (movement_accounts E tx dir), mp_Amount = tx_money tx, mp_Now = now\<rparr> i1 i2 = Inr es"
    "wd_db x' = (wd_db x)\<lparr>db_journal := db_journal (wd_db x) @ map journal_to_row es\<rparr>"
proof -
  let ?i1 = "fresh_uuid E (wd_uuids x)" and ?i2 = "fresh_uuid E (Suc (wd_uuids x))"
  let ?x1 = "x\<lparr>wd_uuids := Suc (Suc (wd_uuids x))\<rparr>"
  from assms obtain es where m: "NewMovement \<lparr>mp_TransactionID = tx_id tx, mp_From = fst (movement_accounts E tx dir),
         mp_To = snd (movement_accounts E tx dir), mp_Amount = tx_money tx, mp_Now = now\<rparr> ?i1 ?i2 = Inr es"
    and rest: "(case AssertBalanced es of Some err \<Rightarrow> failP err
         | None \<Rightarrow> wrapP ''inserting journal entries'' (journalRepo_Insert E q es)) ?x1 = (Inr u, x')"
    by (cases "dir = Debit") (auto simp: recordDoubleEntry_def movement_accounts_def run_simps)
  from rest have "journalRepo_Insert E q es ?x1 = (Inr u, x')"
    by (auto simp: run_simps split: option.splits)
  from journalRepo_Insert_run [OF this] m show ?thesis using that by simp
qed

lemma post_movement_run:
  assumes "post_movement E q tx w' (wlt_balance w) (wlt_version w) dir meta now save x = (Inr out, x')"
  obtains t where "MarkProcessed tx (wlt_balance w') now = Inr t" "out = outcome t (wlt_balance w')"
    "effect_moved E S t w w' dir now (wd_db x) (wd_db x')"
proof -
  from assms obtain t x1 x2 lid entry x3 x4 x5 i processed j changed u1 u2 u3 u4 u5
    where m: "MarkProcessed tx (wlt_balance w') now = Inr t" and s: "save t x = (Inr u1, x1)"
    and ub: "walletRepo_UpdateBalance E q w' (wlt_version w) x1 = (Inr u2, x2)"
    and le: "NewWalletLedgerEntry \<lparr>nl_ID = lid, nl_WalletID = wlt_id w', nl_TransactionID = tx_id t,
       nl_Direction = dir, nl_Amount = tx_money t, nl_BalanceBefore = wlt_balance w, nl_Now = now\<rparr> = Inr entry"
    and li: "ledgerRepo_Insert E q entry (x2\<lparr>wd_uuids := Suc (wd_uuids x2)\<rparr>) = (Inr u3, x3)"
    and de: "recordDoubleEntry E q t dir now x3 = (Inr u4, x4)"
    and e1: "NewWagerTransactionProcessed E i t (wlt_balance w') meta = Inr processed"
    and e2: "NewWalletBalanceChanged E j entry (wlt_version w') (meta\<lparr>mt_CausationID := Some (tx_id t)\<rparr>) = Inr changed"
    and oi: "outboxRepo_Insert E q [processed, changed] (x4\<lparr>wd_uuids := Suc (Suc (wd_uuids x4))\<rparr>) = (Inr u5, x5)"
    and r: "out = outcome t (wlt_balance w')" "x' = x5"
    by (auto simp: post_movement_def outcome_def run_simps simp del: outboxRepo_Insert.simps)
  from saved [OF s] have sv: "S t (wd_db x) (wd_db x1)" .
  then obtain txs where d1: "wd_db x1 = (wd_db x)\<lparr>db_tx := txs\<rparr>" using saved_db by blast
  obtain n t0 where upd: "update_wallet_balance (wlt_id w') (wlt_version w) (minorUnits (wlt_balance w'))
      (wlt_version w') (timestamptz (wlt_updatedAt w')) t0 (wd_db x1) = Inr (n, wd_db x2)" "n \<noteq> 0"
    by (rule UpdateBalance_run [OF ub])
  obtain t1 where lei: "insert_ledger (ledger_to_row entry) t1 (wd_db x2) = Inr ((), wd_db x3)"
    using ledgerRepo_Insert_run [OF li] by auto
  obtain i1 i2 es where mv: "NewMovement \<lparr>mp_TransactionID = tx_id t, mp_From = fst (movement_accounts E t dir),
         mp_To = snd (movement_accounts E t dir), mp_Amount = tx_money t, mp_Now = now\<rparr> i1 i2 = Inr es"
    "wd_db x4 = (wd_db x3)\<lparr>db_journal := db_journal (wd_db x3) @ map journal_to_row es\<rparr>"
    by (rule recordDoubleEntry_run [OF de])
  obtain t2 t3 where ob: "wd_db x5 = (wd_db x4)\<lparr>db_outbox := db_outbox (wd_db x4)
      @ [outbox_to_row E processed t2, outbox_to_row E changed t3]\<rparr>"
    using outbox_two_run [OF oi] by auto
  let ?ws = "map (\<lambda>r. if wr_id r = wlt_id w' \<and> wr_version r = wlt_version w
      then r\<lparr>wr_balance_minor_units := minorUnits (wlt_balance w'), wr_version := wlt_version w',
             wr_updated_at := timestamptz (wlt_updatedAt w')\<rparr> else r) (db_wallet (wd_db x))"
  have d2: "wd_db x2 = (wd_db x1)\<lparr>db_wallet := ?ws\<rparr>"
    using upd(1) by (simp add: update_wallet_Inr d1)
  have upd': "update_wallet_balance (wlt_id w') (wlt_version w) (minorUnits (wlt_balance w'))
      (wlt_version w') (timestamptz (wlt_updatedAt w')) t0 (wd_db x) = Inr (n, (wd_db x)\<lparr>db_wallet := ?ws\<rparr>)"
    using upd(1) unfolding update_wallet_Inr by (simp add: d1)
  have ent: "le_walletID entry = wlt_id w'" "le_transactionID entry = tx_id t"
    using le by (auto simp: NewWalletLedgerEntry_def bindR_Inr_iff split: if_splits)
  have d3: "wd_db x3 = (wd_db x2)\<lparr>db_ledger := db_ledger (wd_db x2) @ [ledger_to_row entry]\<rparr>"
    and fresh: "\<forall>l \<in> set (db_ledger (wd_db x)). \<not> (lr_wallet_id l = wlt_id w' \<and> lr_transaction_id l = tx_id t)"
    using lei by (simp_all add: insert_ledger_Inr d1 d2 ledger_to_row_def ent)
  have "effect_moved E S t w w' dir now (wd_db x) (wd_db x5)"
    unfolding effect_moved_def
    apply (rule exI [of _ entry], rule exI [of _ es], rule exI [of _ "outbox_to_row E processed t2"],
        rule exI [of _ "outbox_to_row E changed t3"], rule exI [of _ n], rule exI [of _ t0],
        rule exI [of _ i1], rule exI [of _ i2], rule exI [of _ lid])
    using sv upd' upd(2) le mv(1) fresh new_event_types(1) [OF e1] new_event_types(4) [OF e2]
    by (simp add: ob mv(2) d3 d2 d1 outbox_row_fields)
  then show ?thesis using m r that by blast
qed

text \<open>Settling refines the abstract settlement, on every branch.\<close>

lemma settle_run:
  assumes "settle E q tx w dec meta now save x = (Inr out, x')"
  shows "settles E S tx w dec now (wd_db x) (wd_db x') out"
proof (cases "dc_kind dec")
  case DecisionPendingReference
  with assms show ?thesis by (auto simp: settle_def elim!: settle_pending_run intro: settles.pended)
next
  case DecisionReject
  with assms show ?thesis by (auto simp: settle_def elim!: reject_run intro: settles.rejected)
next
  case DecisionProcess
  show ?thesis
  proof (cases "dc_movesFunds dec")
    case False
    with DecisionProcess assms show ?thesis
      by (auto simp: settle_def elim!: settle_still_run intro: settles.still)
  next
    case True
    show ?thesis
    proof (cases "applyMovement w (dc_direction dec) (tx_money tx) now")
      case (Inl err)
      have ins: "errors_Is err (WalletErr ErrInsufficientBalance)"
        and rej: "reject E q tx w (insufficient_code tx) meta now save x = (Inr out, x')"
        using assms DecisionProcess True Inl
        by (auto simp: settle_def insufficient_code_def failP_run split: if_splits)
      from rej show ?thesis
        by (rule reject_run) (use DecisionProcess True Inl ins in \<open>auto intro: settles.refused\<close>)
    next
      case (Inr w')
      with assms DecisionProcess True
      have "post_movement E q tx w' (wlt_balance w) (wlt_version w) (dc_direction dec) meta now save x = (Inr out, x')"
        by (simp add: settle_def)
      then show ?thesis
        by (rule post_movement_run) (use DecisionProcess True Inr in \<open>auto intro: settles.moved\<close>)
    qed
  qed
qed

end

end
