(* ===== verification/Outcome.thy ===== *)
theory Outcome
  imports Settlement
begin

text \<open>
  The abstract specification of \<open>ProcessWager.Execute\<close>: what a successful call may answer and
  store, as a relation on the tables before and after (\<open>wager_spec\<close>), with the decision on a
  reversal as a pure function (\<open>reversal_decision\<close>). Every successful run of the detailed program
  is one of its steps.
\<close>

section \<open>Decisions\<close>

definition find_operation :: "string \<Rightarrow> string \<Rightarrow> db \<Rightarrow> tx_row option" where
  "find_operation p k d = find (\<lambda>r. tr_provider_id r = Some p \<and> tr_external_transaction_id r = Some k) (db_tx d)"

definition find_key :: "string \<Rightarrow> db \<Rightarrow> tx_row option" where
  "find_key k d = find (\<lambda>r. tr_idempotency_key r = Some k) (db_tx d)"

definition already_reversed :: "uuid \<Rightarrow> db \<Rightarrow> bool" where
  "already_reversed i d \<longleftrightarrow> (\<exists>r \<in> set (db_tx d). is_successful_reversal_of i r)"

text \<open>May \<open>tx\<close> reverse \<open>ref\<close>? The reference settled, and it is the same operation of the same round.\<close>

definition reversible :: "wager_tx \<Rightarrow> wager_tx \<Rightarrow> bool" where
  "reversible tx ref \<longleftrightarrow> tx_playerID ref = tx_playerID tx \<and> tx_walletID ref = tx_walletID tx
     \<and> tx_roundID ref = tx_roundID tx \<and> tx_money ref = tx_money tx"

definition reversal_decision :: "wager_tx \<Rightarrow> wager_tx \<Rightarrow> bool \<Rightarrow> decision" where
  "reversal_decision tx ref reversed =
     (case tx_status ref of
        Processed \<Rightarrow>
          (case reversalDirection (tx_kind tx) (tx_kind ref) of
             Some dir \<Rightarrow>
               if \<not> reversible tx ref then decision_reject FailureReferenceMismatch
               else if reversed then decision_reject FailureDuplicateReversal
               else decision_process dir
           | None \<Rightarrow> decision_reject FailureReferenceMismatch)
      | Rejected \<Rightarrow> decision_reject FailureReferenceNotSuccessful
      | Failed \<Rightarrow> decision_reject FailureReferenceNotSuccessful
      | _ \<Rightarrow> decision_pending)"

text \<open>The decision on a reversal, and the transaction with its reference resolved.\<close>

inductive decides_reversal :: "db \<Rightarrow> wager_tx \<Rightarrow> decision \<Rightarrow> wager_tx \<Rightarrow> bool" for d tx where
  absent: "find_operation (tx_providerID tx) (tx_referenceExternalTxID tx) d = None
    \<Longrightarrow> decides_reversal d tx decision_pending tx"
| present: "find_operation (tx_providerID tx) (tx_referenceExternalTxID tx) d = Some row
    \<Longrightarrow> toDomain row = Inr ref
    \<Longrightarrow> dec = reversal_decision tx ref (already_reversed (tx_id ref) d)
    \<Longrightarrow> (if dc_kind dec = DecisionProcess then ResolveReference tx (tx_id ref) = Inr tx' else tx' = tx)
    \<Longrightarrow> decides_reversal d tx dec tx'"

inductive_cases decides_reversalE [consumes 1, case_names absent present]: "decides_reversal d tx dec tx'"

inductive decides :: "db \<Rightarrow> wager_tx \<Rightarrow> wallet \<Rightarrow> decision \<Rightarrow> wager_tx \<Rightarrow> bool" for d tx w where
  foreign: "moneyCurrency (tx_money tx) \<noteq> wlt_currency w
    \<Longrightarrow> decides d tx w (decision_reject FailureCurrencyMismatch) tx"
| bet: "moneyCurrency (tx_money tx) = wlt_currency w \<Longrightarrow> tx_kind tx = Bet
    \<Longrightarrow> decides d tx w (decision_process Debit) tx"
| win: "moneyCurrency (tx_money tx) = wlt_currency w \<Longrightarrow> tx_kind tx = Win
    \<Longrightarrow> tx' = tx \<or> (\<exists>row ref. find_operation (tx_providerID tx) (tx_referenceExternalTxID tx) d = Some row
          \<and> toDomain row = Inr ref \<and> ResolveReference tx (tx_id ref) = Inr tx')
    \<Longrightarrow> decides d tx w (decision_process Credit) tx'"
| loss: "moneyCurrency (tx_money tx) = wlt_currency w \<Longrightarrow> tx_kind tx = Loss
    \<Longrightarrow> decides d tx w decision_still tx"
| reversal: "moneyCurrency (tx_money tx) = wlt_currency w \<Longrightarrow> tx_kind tx = Refund \<or> tx_kind tx = Rollback
    \<Longrightarrow> decides_reversal d tx dec tx' \<Longrightarrow> decides d tx w dec tx'"

inductive_cases decidesE [consumes 1, case_names foreign bet win loss reversal]: "decides d tx w dec tx'"

lemma toDomain_valid: "toDomain row = Inr t \<Longrightarrow> Status_IsValid (tx_status t) \<and> Kind_IsValid (tx_kind t)"
  by (auto simp: toDomain_def wagertx_Rehydrate_def split: if_splits)

lemma find_operation_run:
  assumes "found_or_absent s (transactionRepo_GetByProviderExternalID E q p k) x = (Inr r, x')"
  shows "wd_db x' = wd_db x \<and> (case r of None \<Rightarrow> find_operation p k (wd_db x) = None
     | Some t \<Rightarrow> \<exists>row. find_operation p k (wd_db x) = Some row \<and> toDomain row = Inr t)"
proof -
  let ?P = "\<lambda>r. tr_provider_id r = Some p \<and> tr_external_transaction_id r = Some k"
  obtain c x1 where get: "transactionRepo_scanOne E q ?P x = (c, x1)" by fastforce
  have x1: "wd_db x1 = wd_db x" by (rule read_onlyD [OF read_only_reads(3) get])
  show ?thesis
  proof (cases c)
    case (Inl e)
    with get assms have "errors_Is e (AppErr ErrNotFound)" "r = None" "x' = x1"
      by (auto simp: found_or_absent_def transactionRepo_GetByProviderExternalID_def run_simps split: if_splits)
    then show ?thesis using scanOne_NotFound [of E q ?P x e x1] get Inl x1 by (simp add: find_operation_def)
  next
    case (Inr t)
    with get assms have "r = Some t" "x' = x1"
      by (auto simp: found_or_absent_def transactionRepo_GetByProviderExternalID_def run_simps)
    then show ?thesis using get Inr x1 by (auto simp: find_operation_def elim!: scanOne_run)
  qed
qed

lemma find_key_run:
  assumes "found_or_absent s (transactionRepo_GetByIdempotencyKey E q k) x = (Inr r, x')"
  shows "wd_db x' = wd_db x \<and> (case r of None \<Rightarrow> find_key k (wd_db x) = None
     | Some t \<Rightarrow> \<exists>row. find_key k (wd_db x) = Some row \<and> toDomain row = Inr t)"
proof -
  let ?P = "\<lambda>r. tr_idempotency_key r = Some k"
  obtain c x1 where get: "transactionRepo_scanOne E q ?P x = (c, x1)" by fastforce
  have x1: "wd_db x1 = wd_db x" by (rule read_onlyD [OF read_only_reads(3) get])
  show ?thesis
  proof (cases c)
    case (Inl e)
    with get assms have "errors_Is e (AppErr ErrNotFound)" "r = None" "x' = x1"
      by (auto simp: found_or_absent_def transactionRepo_GetByIdempotencyKey_def run_simps split: if_splits)
    then show ?thesis using scanOne_NotFound [of E q ?P x e x1] get Inl x1 by (simp add: find_key_def)
  next
    case (Inr t)
    with get assms have "r = Some t" "x' = x1"
      by (auto simp: found_or_absent_def transactionRepo_GetByIdempotencyKey_def run_simps)
    then show ?thesis using get Inr x1 by (auto simp: find_key_def elim!: scanOne_run)
  qed
qed

lemma decideReversal_run:
  assumes "decideReversal E q tx x = (Inr (dec, tx'), x')"
  shows "wd_db x' = wd_db x \<and> decides_reversal (wd_db x) tx dec tx'"
proof -
  from assms obtain found x1 where look: "found_or_absent ''resolving reference''
       (transactionRepo_GetByProviderExternalID E q (tx_providerID tx) (tx_referenceExternalTxID tx)) x = (Inr found, x1)"
    by (auto simp: decideReversal_def run_simps)
  note look_run = find_operation_run [OF look]
  show ?thesis
  proof (cases found)
    case None
    then have "dec = decision_pending" "tx' = tx" "x' = x1"
      using assms look by (auto simp: decideReversal_def bindP_def retP_def)
    then show ?thesis using look_run None by (auto intro: decides_reversal.absent)
  next
    case (Some ref)
    then obtain row where row: "find_operation (tx_providerID tx) (tx_referenceExternalTxID tx) (wd_db x) = Some row"
      "toDomain row = Inr ref" and x1: "wd_db x1 = wd_db x" using look_run by auto
    have valid: "Status_IsValid (tx_status ref)" using toDomain_valid [OF row(2)] by simp
    let ?rev = "already_reversed (tx_id ref) (wd_db x)"
    have "wd_db x' = wd_db x \<and> dec = reversal_decision tx ref ?rev
      \<and> (if dc_kind dec = DecisionProcess then ResolveReference tx (tx_id ref) = Inr tx' else tx' = tx)"
    proof (cases "tx_status ref = Processed \<and> reversible tx ref \<and> reversalDirection (tx_kind tx) (tx_kind ref) \<noteq> None")
      case False
      then show ?thesis
        using assms look Some x1 valid
        by (cases "tx_status ref"; cases "reversalDirection (tx_kind tx) (tx_kind ref)")
          (auto simp: decideReversal_def bindP_def retP_def reversal_decision_def reversible_def decision_reject_def
            decision_pending_def Money_Equal_def sameCurrency_def split: if_splits)
    next
      case True
      then obtain dir where dir: "reversalDirection (tx_kind tx) (tx_kind ref) = Some dir" by auto
      obtain reversed x2 where h: "transactionRepo_HasSuccessfulReversal E q (tx_id ref) x1 = (Inr reversed, x2)"
        and rest: "(if reversed then retP (decision_reject FailureDuplicateReversal, tx)
             else bindP (liftR (ResolveReference tx (tx_id ref))) (\<lambda>tx'. retP (decision_process dir, tx'))) x2
             = (Inr (dec, tx'), x')"
        using assms look Some True dir
        by (auto simp: decideReversal_def run_simps reversible_def Money_Equal_def sameCurrency_def)
      have "reversed = ?rev" "wd_db x2 = wd_db x"
        using HasSuccessfulReversal_run [OF h] x1 by (simp_all add: already_reversed_def)
      then show ?thesis using rest True dir
        by (auto simp: reversal_decision_def run_simps decision_reject_def decision_process_def split: if_splits)
    qed
    then show ?thesis using row by (auto intro!: decides_reversal.present)
  qed
qed

lemma decide_run:
  assumes "decide E q tx w x = (Inr (dec, tx'), x')" and "Kind_IsValidExternal (tx_kind tx)"
  shows "wd_db x' = wd_db x \<and> decides (wd_db x) tx w dec tx'"
proof (cases "moneyCurrency (tx_money tx) = wlt_currency w")
  case False
  then show ?thesis using assms(1) by (auto simp: decide_def run_simps intro: decides.foreign)
next
  case True
  show ?thesis
  proof (cases "tx_kind tx")
    case Win
    with assms True have att: "attachOptionalReference E q tx x = (Inr tx', x')" and dec: "dec = decision_process Credit"
      by (auto simp: decide_def run_simps)
    show ?thesis
    proof (cases "tx_referenceExternalTxID tx = []")
      case True
      with att have "x' = x" "tx' = tx" by (simp_all add: attachOptionalReference_def run_simps)
      then show ?thesis
        using dec Win \<open>moneyCurrency (tx_money tx) = wlt_currency w\<close> by (auto intro: decides.win)
    next
      case False
      let ?P = "\<lambda>r. tr_provider_id r = Some (tx_providerID tx)
         \<and> tr_external_transaction_id r = Some (tx_referenceExternalTxID tx)"
      obtain c x1 where get: "transactionRepo_scanOne E q ?P x = (c, x1)" by fastforce
      have x1: "wd_db x1 = wd_db x" by (rule read_onlyD [OF read_only_reads(3) get])
      have "x' = x1 \<and> (tx' = tx \<or> (\<exists>ref. c = Inr ref \<and> ResolveReference tx (tx_id ref) = Inr tx'))"
        using att get False
        by (auto simp: attachOptionalReference_def transactionRepo_GetByProviderExternalID_def run_simps
            split: sum.splits)
      moreover have "\<exists>row. find_operation (tx_providerID tx) (tx_referenceExternalTxID tx) (wd_db x) = Some row
          \<and> toDomain row = Inr ref" if "c = Inr ref" for ref
        using get that by (auto simp: find_operation_def elim!: scanOne_run)
      ultimately show ?thesis
        using dec Win True x1 by (auto intro!: decides.win)
    qed
  next
    case Refund
    with assms True show ?thesis
      using decideReversal_run [of E q tx x dec tx' x'] by (auto simp: decide_def intro: decides.reversal)
  next
    case Rollback
    with assms True show ?thesis
      using decideReversal_run [of E q tx x dec tx' x'] by (auto simp: decide_def intro: decides.reversal)
  qed (use assms True in \<open>auto simp: decide_def run_simps Kind_IsValidExternal_def
        intro: decides.bet decides.loss\<close>)
qed

section \<open>Execute\<close>

definition wallet_at :: "db \<Rightarrow> uuid \<Rightarrow> wallet \<Rightarrow> bool" where
  "wallet_at d i w \<longleftrightarrow> (\<exists>row. find (\<lambda>r. wr_id r = i) (db_wallet d) = Some row \<and> wallet_of_row row = Inr w)"

definition inbox_row_for :: "process_command \<Rightarrow> uuid \<Rightarrow> time \<Rightarrow> inbox_row" where
  "inbox_row_for cmd i now = \<lparr>ir_consumer_name = pc_ConsumerName cmd, ir_message_id = pc_MessageID cmd,
     ir_payload_hash = pc_PayloadHash cmd, ir_wager_transaction_id = i,
     ir_received_at = timestamptz now, ir_completed_at = timestamptz now\<rparr>"

definition inbox_recorded :: "process_command \<Rightarrow> uuid \<Rightarrow> time \<Rightarrow> db \<Rightarrow> db \<Rightarrow> bool" where
  "inbox_recorded cmd i now d d' \<longleftrightarrow>
     (if pc_MessageID cmd = [] then d' = d
      else d' = d\<lparr>db_inbox := db_inbox d @ [inbox_row_for cmd i now]\<rparr>)"

definition find_message :: "process_command \<Rightarrow> db \<Rightarrow> inbox_row option" where
  "find_message cmd d = (if pc_MessageID cmd = [] then None
     else find (\<lambda>r. ir_consumer_name r = pc_ConsumerName cmd \<and> ir_message_id r = pc_MessageID cmd) (db_inbox d))"

inductive wager_spec :: "env \<Rightarrow> process_command \<Rightarrow> time \<Rightarrow> db \<Rightarrow> db \<Rightarrow> process_result \<Rightarrow> bool"
  for E cmd now d
where
  fast: "find_key (pc_IdempotencyKey cmd) d = Some row \<Longrightarrow> toDomain row = Inr t
    \<Longrightarrow> tx_payloadHash t = pc_PayloadHash cmd \<Longrightarrow> Tx_IsTerminal t \<Longrightarrow> pc_MessageID cmd = []
    \<Longrightarrow> wager_spec E cmd now d d (replayResult t)"
| message: "wallet_at d (pc_WalletID cmd) w \<Longrightarrow> wlt_playerID w = pc_PlayerID cmd
    \<Longrightarrow> find_message cmd d = Some rec \<Longrightarrow> ir_payload_hash rec = pc_PayloadHash cmd
    \<Longrightarrow> find (\<lambda>r. tr_id r = ir_wager_transaction_id rec) (db_tx d) = Some row \<Longrightarrow> toDomain row = Inr t
    \<Longrightarrow> wager_spec E cmd now d d (replayResult t)"
| key: "wallet_at d (pc_WalletID cmd) w \<Longrightarrow> wlt_playerID w = pc_PlayerID cmd
    \<Longrightarrow> find_message cmd d = None
    \<Longrightarrow> find_key (pc_IdempotencyKey cmd) d = Some row \<Longrightarrow> toDomain row = Inr t
    \<Longrightarrow> tx_payloadHash t = pc_PayloadHash cmd \<Longrightarrow> inbox_recorded cmd (tx_id t) now d d'
    \<Longrightarrow> wager_spec E cmd now d d' (replayResult t)"
| identity: "wallet_at d (pc_WalletID cmd) w \<Longrightarrow> wlt_playerID w = pc_PlayerID cmd
    \<Longrightarrow> find_message cmd d = None \<Longrightarrow> find_key (pc_IdempotencyKey cmd) d = None
    \<Longrightarrow> find_operation (pc_ProviderID cmd) (pc_ExternalTransactionID cmd) d = Some row \<Longrightarrow> toDomain row = Inr t
    \<Longrightarrow> tx_idempotencyKey t = pc_IdempotencyKey cmd \<Longrightarrow> inbox_recorded cmd (tx_id t) now d d'
    \<Longrightarrow> wager_spec E cmd now d d' (replayResult t)"
| fresh: "wallet_at d (pc_WalletID cmd) w \<Longrightarrow> wlt_playerID w = pc_PlayerID cmd
    \<Longrightarrow> find_message cmd d = None \<Longrightarrow> find_key (pc_IdempotencyKey cmd) d = None
    \<Longrightarrow> find_operation (pc_ProviderID cmd) (pc_ExternalTransactionID cmd) d = None
    \<Longrightarrow> NewExternal (external_params cmd i now) = Inr tx
    \<Longrightarrow> decides d tx w dec tx' \<Longrightarrow> settles E tx_inserted tx' w dec now d d1 out
    \<Longrightarrow> inbox_recorded cmd i now d1 d'
    \<Longrightarrow> wager_spec E cmd now d d' out"

inductive_cases wager_specE [consumes 1, case_names fast message key identity fresh]: "wager_spec E cmd now d d' out"

lemma recordInbox_run:
  "recordInbox E cmd i now x = (Inr u, x') \<Longrightarrow> inbox_recorded cmd i now (wd_db x) (wd_db x')"
  by (auto simp: recordInbox_def inbox_recorded_def run_simps inbox_to_row_def inbox_row_for_def insert_inbox_Inr
      elim!: inboxRepo_Insert_run split: if_splits)

lemma inboxRepo_Get_run:
  "inboxRepo_Get E q c m x = (Inr r, x') \<Longrightarrow> wd_db x' = wd_db x
     \<and> r = map_option (\<lambda>row. \<lparr>in_ConsumerName = ir_consumer_name row, in_MessageID = ir_message_id row,
         in_PayloadHash = ir_payload_hash row, in_WagerTransactionID = ir_wager_transaction_id row,
         in_ReceivedAt = ir_received_at row, in_CompletedAt = ir_completed_at row\<rparr>)
         (find (\<lambda>r. ir_consumer_name r = c \<and> ir_message_id r = m) (db_inbox (wd_db x)))"
  by (auto simp: inboxRepo_Get_def run_simps select_inbox_def elim!: sql_run_db)

lemma replayed_message_run:
  assumes "replayed_message E cmd x = (Inr r, x')"
  shows "wd_db x' = wd_db x \<and> (case r of None \<Rightarrow> find_message cmd (wd_db x) = None
     | Some out \<Rightarrow> \<exists>rec row t. find_message cmd (wd_db x) = Some rec \<and> ir_payload_hash rec = pc_PayloadHash cmd
         \<and> find (\<lambda>r. tr_id r = ir_wager_transaction_id rec) (db_tx (wd_db x)) = Some row
         \<and> toDomain row = Inr t \<and> out = replayResult t)"
proof (cases "pc_MessageID cmd = []")
  case True
  with assms show ?thesis by (simp add: replayed_message_def find_message_def run_simps)
next
  case False
  then obtain found x1 where get: "inboxRepo_Get E Tx (pc_ConsumerName cmd) (pc_MessageID cmd) x = (Inr found, x1)"
    and rest: "(case found of None \<Rightarrow> retP None
        | Some rec \<Rightarrow>
            if in_PayloadHash rec \<noteq> pc_PayloadHash cmd then failP (AppErr ErrIdempotencyConflict)
            else bindP (wrapP ''loading transaction for replayed message''
                (transactionRepo_GetByID E Tx (in_WagerTransactionID rec))) (\<lambda>existing.
              retP (Some (replayResult existing)))) x1 = (Inr r, x')"
    using assms by (auto simp: replayed_message_def run_simps)
  show ?thesis
  proof (cases "find_message cmd (wd_db x)")
    case None
    then show ?thesis using inboxRepo_Get_run [OF get] rest False by (simp add: find_message_def run_simps)
  next
    case (Some rec)
    then obtain t where "transactionRepo_GetByID E Tx (ir_wager_transaction_id rec) x1 = (Inr t, x')"
      "r = Some (replayResult t)" "ir_payload_hash rec = pc_PayloadHash cmd" "wd_db x1 = wd_db x"
      using inboxRepo_Get_run [OF get] rest False by (auto simp: find_message_def run_simps split: if_splits)
    then show ?thesis using Some by (auto elim!: GetByID_run)
  qed
qed

lemma replayed_key_run:
  assumes "replayed_key E cmd now x = (Inr r, x')"
  shows "case r of None \<Rightarrow> find_key (pc_IdempotencyKey cmd) (wd_db x) = None \<and> wd_db x' = wd_db x
     | Some out \<Rightarrow> \<exists>row t. find_key (pc_IdempotencyKey cmd) (wd_db x) = Some row \<and> toDomain row = Inr t
         \<and> tx_payloadHash t = pc_PayloadHash cmd \<and> inbox_recorded cmd (tx_id t) now (wd_db x) (wd_db x')
         \<and> out = replayResult t"
proof -
  obtain found x1 where get: "found_or_absent ''reading transaction by idempotency key''
       (transactionRepo_GetByIdempotencyKey E Tx (pc_IdempotencyKey cmd)) x = (Inr found, x1)"
    using assms by (auto simp: replayed_key_def run_simps)
  with assms show ?thesis using find_key_run [OF get]
    by (cases found) (auto simp: replayed_key_def bindP_def retP_def failP_def dest: recordInbox_run
        split: prod.splits sum.splits if_splits)
qed

lemma replayed_identity_run:
  assumes "replayed_identity E cmd now x = (Inr r, x')"
  shows "case r of None \<Rightarrow> find_operation (pc_ProviderID cmd) (pc_ExternalTransactionID cmd) (wd_db x) = None
        \<and> wd_db x' = wd_db x
     | Some out \<Rightarrow> \<exists>row t. find_operation (pc_ProviderID cmd) (pc_ExternalTransactionID cmd) (wd_db x) = Some row
         \<and> toDomain row = Inr t \<and> tx_idempotencyKey t = pc_IdempotencyKey cmd
         \<and> inbox_recorded cmd (tx_id t) now (wd_db x) (wd_db x') \<and> out = replayResult t"
proof -
  obtain found x1 where get: "found_or_absent ''reading transaction by provider identity''
       (transactionRepo_GetByProviderExternalID E Tx (pc_ProviderID cmd) (pc_ExternalTransactionID cmd)) x = (Inr found, x1)"
    using assms by (auto simp: replayed_identity_def run_simps)
  with assms show ?thesis using find_operation_run [OF get]
    by (cases found) (auto simp: replayed_identity_def bindP_def retP_def failP_def dest: recordInbox_run
        split: prod.splits sum.splits if_splits)
qed

lemma or_else_run:
  "or_else f g x = (Inr y, x') \<longleftrightarrow> f x = (Inr (Some y), x') \<or> (\<exists>x1. f x = (Inr None, x1) \<and> g x1 = (Inr y, x'))"
  by (auto simp: or_else_def run_simps split: option.splits)

lemma execute_body_run:
  assumes "execute_body E cmd now x = (Inr out, x')"
  shows "wager_spec E cmd now (wd_db x) (wd_db x') out"
proof -
  obtain w x1 where get: "walletRepo_GetForUpdate E Tx (pc_WalletID cmd) x = (Inr w, x1)"
    and pl: "wlt_playerID w = pc_PlayerID cmd"
    and rest: "or_else (replayed_message E cmd) (or_else (replayed_key E cmd now)
         (or_else (replayed_identity E cmd now) (execute_new E cmd w now))) x1 = (Inr out, x')"
    using assms by (auto simp: execute_body_def run_simps split: if_splits)
  have w: "wallet_at (wd_db x) (pc_WalletID cmd) w" and x1: "wd_db x1 = wd_db x"
    using get by (auto simp: wallet_at_def elim!: walletRepo_GetForUpdate_run)
  note found = wager_spec.message [OF w pl] wager_spec.key [OF w pl] wager_spec.identity [OF w pl]
  consider "replayed_message E cmd x1 = (Inr (Some out), x')"
    | x2 where "replayed_message E cmd x1 = (Inr None, x2)" "replayed_key E cmd now x2 = (Inr (Some out), x')"
    | x2 x3 where "replayed_message E cmd x1 = (Inr None, x2)" "replayed_key E cmd now x2 = (Inr None, x3)"
        "replayed_identity E cmd now x3 = (Inr (Some out), x')"
    | x2 x3 x4 where "replayed_message E cmd x1 = (Inr None, x2)" "replayed_key E cmd now x2 = (Inr None, x3)"
        "replayed_identity E cmd now x3 = (Inr None, x4)" "execute_new E cmd w now x4 = (Inr out, x')"
    using rest unfolding or_else_run by blast
  then show ?thesis
  proof cases
    case 1
    from replayed_message_run [OF this] show ?thesis using x1 by (auto intro: found(1))
  next
    case 2
    from replayed_message_run [OF 2(1)] replayed_key_run [OF 2(2)] show ?thesis
      using x1 by (auto intro: found(2))
  next
    case 3
    from replayed_message_run [OF 3(1)] replayed_key_run [OF 3(2)] replayed_identity_run [OF 3(3)] show ?thesis
      using x1 by (auto intro: found(3))
  next
    case 4
    from replayed_message_run [OF 4(1)] replayed_key_run [OF 4(2)] replayed_identity_run [OF 4(3)]
    have none: "find_message cmd (wd_db x) = None" "find_key (pc_IdempotencyKey cmd) (wd_db x) = None"
      "find_operation (pc_ProviderID cmd) (pc_ExternalTransactionID cmd) (wd_db x) = None"
      and x4: "wd_db x4 = wd_db x" using x1 by simp_all
    let ?i = "fresh_uuid E (wd_uuids x4)"
      and ?meta = "\<lparr>mt_CorrelationID = pc_CorrelationID cmd, mt_CausationID = None, mt_OccurredAt = now\<rparr>"
    from 4(4) obtain tx dec tx' x5 x6 u where new: "NewExternal (external_params cmd ?i now) = Inr tx"
      and de: "decide E Tx tx w (x4\<lparr>wd_uuids := Suc (wd_uuids x4)\<rparr>) = (Inr (dec, tx'), x5)"
      and se: "settle E Tx tx' w dec ?meta now (transactionRepo_Insert E Tx) x5 = (Inr out, x6)"
      and ri: "recordInbox E cmd (tx_id tx') now x6 = (Inr u, x')"
      by (auto simp: execute_new_def run_simps)
    have d: "wd_db x5 = wd_db x" "decides (wd_db x) tx w dec tx'"
      using decide_run [OF de] NewExternal_wf [OF new] x4 by auto
    have "tx_id tx = ?i" using NewExternal_fields(1) [OF new] by (simp add: external_params_def)
    moreover have "tx_id tx' = tx_id tx"
      using d(2) by (auto elim!: decidesE decides_reversalE simp: ResolveReference_Inr_iff split: if_splits)
    ultimately have rec: "inbox_recorded cmd ?i now (wd_db x6) (wd_db x')"
      using recordInbox_run [OF ri] by simp
    show ?thesis
      using wager_spec.fresh [OF w pl none new d(2) _ rec] save_insert.settle_run [OF se] d(1) by simp
  qed
qed

text \<open>Every successful run of \<open>Execute\<close> is a step of the specification. A failed one leaves the
  tables alone, but for a commit whose acknowledgement was lost, which made such a step.\<close>

lemma fastReplay_run:
  assumes "fastReplay E cmd x = (Inr r, x')"
  shows "wd_db x' = wd_db x \<and> (\<forall>out. r = Some out \<longrightarrow> wager_spec E cmd now (wd_db x) (wd_db x) out)"
proof -
  obtain found x1 where get: "found_or_absent ''reading transaction by idempotency key''
       (transactionRepo_GetByIdempotencyKey E Pool (pc_IdempotencyKey cmd)) x = (Inr found, x1)"
    using assms by (auto simp: fastReplay_def run_simps)
  with assms show ?thesis using find_key_run [OF get]
    by (cases found) (auto simp: fastReplay_def bindP_def retP_def failP_def intro: wager_spec.fast
        split: prod.splits sum.splits if_splits)
qed

lemma read_only_fastReplay: "read_only (fastReplay E cmd)"
  unfolding fastReplay_def found_or_absent_def transactionRepo_GetByIdempotencyKey_def transactionRepo_scanOne_def
  by (intro read_onlyI keeps_intros)

definition wager_effect :: "env \<Rightarrow> process_command \<Rightarrow> db \<Rightarrow> db \<Rightarrow> goerr + process_result \<Rightarrow> bool" where
  "wager_effect E cmd d d' r \<longleftrightarrow> (\<exists>now out. wager_spec E cmd now d d' out \<and> journal_must_balance d d' = None
     \<and> (r = Inr out \<or> (\<exists>e. r = Inl e \<and> unacknowledged E e)))"

lemma ProcessWager_effect:
  assumes run: "ProcessWager_Execute E cmd w = (r, w')"
  shows "wager_effect E cmd (wd_db w) (wd_db w') r \<or> (\<exists>e. r = Inl e) \<and> wd_db w' = wd_db w"
proof -
  let ?now = "clock_Now E (wd_clock w)" and ?w0 = "w\<lparr>wd_clock := Suc (wd_clock w)\<rparr>"
  obtain c w1 where fr: "fastReplay E cmd ?w0 = (c, w1)" by fastforce
  have w1: "wd_db w1 = wd_db w" using read_onlyD [OF read_only_fastReplay fr] by simp
  have self: "journal_must_balance d d = None" for d by (simp add: journal_must_balance_def)
  show ?thesis
  proof (cases c)
    case (Inl e)
    with run fr w1 show ?thesis
      by (auto simp: ProcessWager_Execute_def bindP_def read_clock_def or_else_def)
  next
    case (Inr found)
    show ?thesis
    proof (cases found)
      case (Some out)
      with run fr Inr have "r = Inr out" "w' = w1"
        by (simp_all add: ProcessWager_Execute_def bindP_def read_clock_def or_else_def retP_def)
      moreover have "wager_spec E cmd ?now (wd_db w) (wd_db w) out"
        using fastReplay_run [OF fr [unfolded Inr], of ?now] Some by simp
      ultimately show ?thesis using w1 self by (auto simp: wager_effect_def)
    next
      case None
      with run fr Inr have within: "within E (execute_body E cmd ?now) w1 = (r, w')"
        by (simp add: ProcessWager_Execute_def bindP_def read_clock_def or_else_def)
      from within_cases [OF within] show ?thesis
        using w1 by (auto simp: stored_def wager_effect_def dest!: execute_body_run begin_tx_run_db)
    qed
  qed
qed

end
