(* ===== verification/OpenWallet.thy ===== *)
theory OpenWallet
  imports Runs
begin

text \<open>
  \<open>internal/app/open_wallet.go\<close>: opening a wallet, with the credit that funds it. \<open>cmd\<close> has the
  fields of \<open>OpenWalletCommand\<close>; the result is the wallet of \<open>OpenWalletResult\<close>.
\<close>

record open_command =
  oc_PlayerID :: uuid
  oc_InitialBalance :: money
  oc_CorrelationID :: uuid

definition recordOpeningCredit :: "env \<Rightarrow> wallet \<Rightarrow> uuid \<Rightarrow> time \<Rightarrow> unit prog" where
  "recordOpeningCredit E w correlationID now =
     bindP (new_uuid E) (\<lambda>oid.
     bindP (wrapP ''building opening transaction'' (liftR (NewOpening
       \<lparr>no_ID = oid, no_WalletID = wlt_id w, no_PlayerID = wlt_playerID w, no_Money = wlt_balance w, no_Now = now\<rparr>)))
       (\<lambda>opening.
     bindP (wrapP ''inserting opening transaction'' (transactionRepo_Insert E Tx opening)) (\<lambda>_.
     bindP (new_uuid E) (\<lambda>lid.
     bindP (wrapP ''building opening ledger entry'' (liftR (NewWalletLedgerEntry
       \<lparr>nl_ID = lid, nl_WalletID = wlt_id w, nl_TransactionID = tx_id opening, nl_Direction = Credit,
        nl_Amount = wlt_balance w, nl_BalanceBefore = money_Zero (wlt_currency w), nl_Now = now\<rparr>))) (\<lambda>entry.
     bindP (wrapP ''inserting opening ledger entry'' (ledgerRepo_Insert E Tx entry)) (\<lambda>_.
     bindP (new_uuid E) (\<lambda>id1. bindP (new_uuid E) (\<lambda>id2.
     bindP (wrapP ''building opening journal entries'' (liftR (NewMovement
       \<lparr>mp_TransactionID = tx_id opening, mp_From = PlatformFunding, mp_To = WalletAccount E (wlt_id w),
        mp_Amount = wlt_balance w, mp_Now = now\<rparr> id1 id2))) (\<lambda>journalEntries.
     bindP (wrapP ''inserting opening journal entries'' (journalRepo_Insert E Tx journalEntries)) (\<lambda>_.
     bindP (new_uuid E) (\<lambda>i.
     bindP (wrapP ''building processed event'' (liftR (NewWagerTransactionProcessed E i opening (wlt_balance w)
       \<lparr>mt_CorrelationID = correlationID, mt_CausationID = None, mt_OccurredAt = now\<rparr>))) (\<lambda>processed.
     bindP (new_uuid E) (\<lambda>j.
     bindP (wrapP ''building balance changed event'' (liftR (NewWalletBalanceChanged E j entry (wlt_version w)
       \<lparr>mt_CorrelationID = correlationID, mt_CausationID = Some (tx_id opening), mt_OccurredAt = now\<rparr>)))
       (\<lambda>balanceChanged.
     wrapP ''inserting outbox events'' (outboxRepo_Insert E Tx [processed, balanceChanged])))))))))))))))"

definition open_wallet_body :: "env \<Rightarrow> open_command \<Rightarrow> time \<Rightarrow> wallet prog" where
  "open_wallet_body E cmd now =
     (let cur = moneyCurrency (oc_InitialBalance cmd) in
      bindP (wrapP ''checking existing wallet'' (walletRepo_ExistsForPlayerCurrency E Tx (oc_PlayerID cmd) cur)) (\<lambda>exists.
      if exists then failP (AppErr ErrWalletAlreadyExists)
      else
        bindP (new_uuid E) (\<lambda>wid.
        bindP (wrapP ''building wallet'' (liftR (NewWallet \<lparr>nw_ID = wid, nw_PlayerID = oc_PlayerID cmd,
          nw_Currency = cur, nw_InitialBalance = oc_InitialBalance cmd, nw_Now = now\<rparr>))) (\<lambda>w.
        bindP (tryP (walletRepo_Insert E Tx w)) (\<lambda>r. case r of
          Inl err \<Rightarrow>
            if errors_Is err (AppErr ErrWalletAlreadyExists) then failP (AppErr ErrWalletAlreadyExists)
            else failP (WrapErr ''inserting wallet'' err)
        | Inr _ \<Rightarrow>
            if Money_IsZero (oc_InitialBalance cmd) then retP w
            else bindP (recordOpeningCredit E w (oc_CorrelationID cmd) now) (\<lambda>_. retP w))))))"

definition OpenWallet_Execute :: "env \<Rightarrow> open_command \<Rightarrow> wallet prog" where
  "OpenWallet_Execute E cmd = bindP (read_clock E) (\<lambda>now. within E (open_wallet_body E cmd now))"

context statement_invariant
begin

lemma keeps_OpenWallet: "keeps I (OpenWallet_Execute E cmd)"
  unfolding OpenWallet_Execute_def open_wallet_body_def recordOpeningCredit_def Let_def
  by (intro keeps_intros keeps_all)

end

end
