(* ===== verification/Backoff.thy ===== *)
theory Backoff
  imports Prelude
begin

text \<open>
  The two retry policies of \<open>internal/app\<close> (\<open>ReferencePolicy\<close>, \<open>PublishPolicy\<close>) and their
  exponential backoff. The locale \<open>retry_policy\<close> is what the jobs need of a backoff.
\<close>

definition Second :: duration where
  "Second = 1000000000"

text \<open>\<open>math.Pow(2, s)\<close> is exact for \<open>s \<le> 20\<close>; the product of two \<open>Duration\<close> values wraps.\<close>

definition backoff :: "duration \<Rightarrow> duration \<Rightarrow> int \<Rightarrow> duration" where
  "backoff base maximum attempt0 =
     (let attempt = (if attempt0 < 1 then 1 else attempt0);
          shift = (if attempt - 1 > 20 then 20 else attempt - 1);
          delay = word_of_int (2 ^ nat shift) * base
      in if maximum <s delay \<or> delay \<le>s 0 then maximum else delay)"

record reference_policy =
  rp_MaxAttempts :: int
  rp_BaseBackoff :: duration
  rp_MaxBackoff :: duration
  rp_TTL :: duration

definition DefaultReferencePolicy :: reference_policy where
  "DefaultReferencePolicy = \<lparr>rp_MaxAttempts = 10, rp_BaseBackoff = 2 * Second,
     rp_MaxBackoff = 60 * Second, rp_TTL = 900 * Second\<rparr>"

definition ReferencePolicy_backoffFor :: "reference_policy \<Rightarrow> int \<Rightarrow> duration" where
  "ReferencePolicy_backoffFor p attempt = backoff (rp_BaseBackoff p) (rp_MaxBackoff p) attempt"

record publish_policy =
  pp_BatchSize :: int
  pp_MaxPassesPerRun :: nat
  pp_LockFor :: duration
  pp_BaseBackoff :: duration
  pp_MaxBackoff :: duration

definition DefaultPublishPolicy :: publish_policy where
  "DefaultPublishPolicy = \<lparr>pp_BatchSize = 100, pp_MaxPassesPerRun = 20, pp_LockFor = 30 * Second,
     pp_BaseBackoff = Second, pp_MaxBackoff = 60 * Second\<rparr>"

definition PublishPolicy_backoffFor :: "publish_policy \<Rightarrow> int \<Rightarrow> duration" where
  "PublishPolicy_backoffFor p attempt = backoff (pp_BaseBackoff p) (pp_MaxBackoff p) attempt"

section \<open>The interface of a backoff\<close>

locale retry_policy =
  fixes wait :: "int \<Rightarrow> duration" and maximum :: duration
  assumes wait_positive: "0 < sint (wait n)"
    and wait_bounded: "sint (wait n) \<le> sint maximum"
    and wait_mono: "m \<le> n \<Longrightarrow> sint (wait m) \<le> sint (wait n)"
begin

lemma next_attempt_later: "t < time_Add t (wait n)"
  using wait_positive by (simp add: time_Add_def)

lemma next_attempt_bounded: "time_Add t (wait n) \<le> t + sint maximum"
  using wait_bounded by (simp add: time_Add_def)

lemma total_wait: "sum_list (map (\<lambda>n. sint (wait n)) ns) \<le> int (length ns) * sint maximum"
proof (induction ns)
  case (Cons n ns)
  then show ?case using wait_bounded [of n] by (simp add: algebra_simps)
qed simp

end

definition backoff_shift :: "int \<Rightarrow> nat" where
  "backoff_shift attempt = nat (max 0 (min 20 (attempt - 1)))"

text \<open>Without overflow the backoff doubles with each attempt up to the maximum.\<close>

lemma backoff_value:
  assumes "0 < sint base" "sint base * 2 ^ 20 < 2 ^ 63"
  shows "sint (backoff base maximum attempt) =
    (if sint maximum < sint base * 2 ^ backoff_shift attempt then sint maximum
     else sint base * 2 ^ backoff_shift attempt)"
proof -
  let ?k = "backoff_shift attempt"
  have shift: "nat (let a = (if attempt < 1 then 1 else attempt) in if a - 1 > 20 then 20 else a - 1) = ?k"
    by (simp add: backoff_shift_def Let_def)
  have "?k \<le> 20" by (simp add: backoff_shift_def)
  then have "(2 :: int) ^ ?k \<le> 2 ^ 20" by (rule power_increasing) simp
  then have "sint base * 2 ^ ?k \<le> sint base * 2 ^ 20" using assms(1) by simp
  moreover have pos: "0 < sint base * 2 ^ ?k" using assms(1) by simp
  ultimately have fits: "fits64 (sint base * 2 ^ ?k)"
    using assms(2) unfolding fits64_def by linarith
  have "word_of_int (2 ^ ?k) * base = word_of_int (sint base * 2 ^ ?k)"
    by (simp add: mult.commute)
  then have "sint (word_of_int (2 ^ ?k) * base) = sint base * 2 ^ ?k"
    using fits by (simp only: sint_of_int64_fits)
  then show ?thesis
    using pos shift by (simp add: backoff_def Let_def int64_simps split del: if_split) auto
qed

lemma backoff_bounds:
  assumes "0 < sint maximum"
  shows "0 < sint (backoff base maximum attempt) \<and> sint (backoff base maximum attempt) \<le> sint maximum"
  using assms by (auto simp: backoff_def Let_def int64_simps)

lemma backoff_shift_mono: "m \<le> n \<Longrightarrow> backoff_shift m \<le> backoff_shift n"
  by (simp add: backoff_shift_def)

lemma backoff_mono:
  assumes "0 < sint base" "sint base * 2 ^ 20 < 2 ^ 63" "m \<le> n"
  shows "sint (backoff base maximum m) \<le> sint (backoff base maximum n)"
proof -
  have "(2 :: int) ^ backoff_shift m \<le> 2 ^ backoff_shift n"
    by (intro power_increasing backoff_shift_mono assms(3)) simp
  then have "sint base * 2 ^ backoff_shift m \<le> sint base * 2 ^ backoff_shift n"
    using assms(1) by simp
  moreover have "(if c < a then c else a) \<le> (if c < b then c else b)" if "a \<le> b" for a b c :: int
    using that by simp
  ultimately show ?thesis unfolding backoff_value [OF assms(1,2)] by blast
qed

lemma retry_policy_backoff:
  assumes "0 < sint base" "sint base * 2 ^ 20 < 2 ^ 63" "0 < sint maximum"
  shows "retry_policy (backoff base maximum) maximum"
  using backoff_bounds [OF assms(3)] backoff_mono [OF assms(1,2)] by unfold_locales auto

interpretation reference_retry: retry_policy "ReferencePolicy_backoffFor DefaultReferencePolicy" "60 * Second"
proof -
  have "retry_policy (backoff (2 * Second) (60 * Second)) (60 * Second)"
    by (rule retry_policy_backoff) (simp_all add: Second_def)
  moreover have "ReferencePolicy_backoffFor DefaultReferencePolicy = backoff (2 * Second) (60 * Second)"
    by (simp add: fun_eq_iff ReferencePolicy_backoffFor_def DefaultReferencePolicy_def)
  ultimately show "retry_policy (ReferencePolicy_backoffFor DefaultReferencePolicy) (60 * Second)" by simp
qed

interpretation publish_retry: retry_policy "PublishPolicy_backoffFor DefaultPublishPolicy" "60 * Second"
proof -
  have "retry_policy (backoff Second (60 * Second)) (60 * Second)"
    by (rule retry_policy_backoff) (simp_all add: Second_def)
  moreover have "PublishPolicy_backoffFor DefaultPublishPolicy = backoff Second (60 * Second)"
    by (simp add: fun_eq_iff PublishPolicy_backoffFor_def DefaultPublishPolicy_def)
  ultimately show "retry_policy (PublishPolicy_backoffFor DefaultPublishPolicy) (60 * Second)" by simp
qed

section \<open>Properties\<close>

text \<open>Whatever the configured base and attempt number, wrap-around included, the backoff is
  positive and at most the positive maximum; while the base times \<open>2 ^ 20\<close> fits 64 bits it is the
  base doubled with every attempt after the first (20 times at most), capped at the maximum.\<close>

theorem backoff_correct:
  assumes "0 < sint (rp_MaxBackoff p)"
  shows "0 < sint (ReferencePolicy_backoffFor p n) \<and> sint (ReferencePolicy_backoffFor p n) \<le> sint (rp_MaxBackoff p)
    \<and> (0 < sint (rp_BaseBackoff p) \<longrightarrow> sint (rp_BaseBackoff p) * 2 ^ 20 < 2 ^ 63 \<longrightarrow>
       sint (ReferencePolicy_backoffFor p n) =
         min (sint (rp_MaxBackoff p)) (sint (rp_BaseBackoff p) * 2 ^ nat (max 0 (min 20 (n - 1)))))"
  using backoff_bounds [OF assms] backoff_value
  by (simp add: ReferencePolicy_backoffFor_def backoff_shift_def min_def)

theorem backoff_correct_witness:
  "sint (ReferencePolicy_backoffFor DefaultReferencePolicy 4) = 16000000000
   \<and> sint (ReferencePolicy_backoffFor DefaultReferencePolicy 7) = 60000000000"
proof -
  have "0 < sint (rp_MaxBackoff DefaultReferencePolicy)"
    by (simp add: DefaultReferencePolicy_def Second_def)
  from backoff_correct [OF this, of 4] backoff_correct [OF this, of 7] show ?thesis
    by (simp add: DefaultReferencePolicy_def Second_def)
qed

end
