(* ===== verification/ResolveReferences.thy ===== *)
theory ResolveReferences
  imports ProcessWager Backoff
begin

text \<open>
  \<open>internal/app/resolve_references.go\<close>: the background job that settles the reversals whose
  reference had not arrived. Metrics and log entries are left out; a closure that assigns \<open>moved\<close>
  or \<open>recorded\<close> returns the value.
\<close>

section \<open>RunOnce\<close>

definition batchSize :: int where
  "batchSize = 50"

definition claim_references :: "env \<Rightarrow> time \<Rightarrow> pending_record list prog" where
  "claim_references E now =
     within E (bindP (transactionRepo_CountPendingReference E Tx) (\<lambda>backlog.
       transactionRepo_ClaimPendingReference E Tx batchSize now))"

definition settle_one_body :: "env \<Rightarrow> reference_policy \<Rightarrow> pending_record \<Rightarrow> time \<Rightarrow> bool prog" where
  "settle_one_body E p rec now =
     bindP (transactionRepo_GetByID E Tx (tx_id (pr_Transaction rec))) (\<lambda>tx.
     if tx_status tx \<noteq> PendingReference then retP False
     else
       bindP (walletRepo_GetForUpdate E Tx (tx_walletID tx)) (\<lambda>w.
       bindP (decideReversal E Tx tx) (\<lambda>(d, tx).
       bindP (new_uuid E) (\<lambda>correlation.
       let meta = \<lparr>mt_CorrelationID = correlation, mt_CausationID = None, mt_OccurredAt = now\<rparr>;
           attempt = pr_Attempts rec + 1
       in
       if dc_kind d = DecisionPendingReference then
         (let exhausted = rp_MaxAttempts p \<le> attempt \<or> rp_TTL p \<le>s time_Sub now (pr_FirstSeenAt rec)
          in if \<not> exhausted then
               bindP (transactionRepo_RecordReferenceAttempt E Tx (tx_id tx) attempt
                 (time_Add now (ReferencePolicy_backoffFor p attempt))) (\<lambda>_. retP False)
             else
               bindP (reject E Tx tx w FailureReferenceNotFound meta now (transactionRepo_Update E Tx)) (\<lambda>_.
               retP True))
       else
         bindP (settle E Tx tx w d meta now (transactionRepo_Update E Tx)) (\<lambda>_. retP True)))))"

definition settleOne :: "env \<Rightarrow> reference_policy \<Rightarrow> pending_record \<Rightarrow> bool prog" where
  "settleOne E p rec = bindP (read_clock E) (\<lambda>now. within E (settle_one_body E p rec now))"

definition permanent_failure_body :: "env \<Rightarrow> pending_record \<Rightarrow> time \<Rightarrow> bool prog" where
  "permanent_failure_body E rec now =
     bindP (transactionRepo_GetByID E Tx (tx_id (pr_Transaction rec))) (\<lambda>tx.
     if tx_status tx \<noteq> PendingReference then retP False
     else
       bindP (liftR (MarkFailed tx FailureInfrastructure now)) (\<lambda>tx.
       bindP (transactionRepo_Update E Tx tx) (\<lambda>_.
       bindP (new_uuid E) (\<lambda>correlation. bindP (new_uuid E) (\<lambda>i.
       bindP (liftR (NewWagerTransactionRejected E i tx
         \<lparr>mt_CorrelationID = correlation, mt_CausationID = None, mt_OccurredAt = now\<rparr>)) (\<lambda>evt.
       bindP (outboxRepo_Insert E Tx [evt]) (\<lambda>_. retP True)))))))"

definition recordPermanentFailure :: "env \<Rightarrow> reference_policy \<Rightarrow> pending_record \<Rightarrow> bool prog" where
  "recordPermanentFailure E p rec =
     bindP (ctx_err E) (\<lambda>cancelled.
     if cancelled \<noteq> None then retP False
     else if pr_Attempts rec + 1 < rp_MaxAttempts p then retP False
     else
       bindP (read_clock E) (\<lambda>now.
       bindP (tryP (within E (permanent_failure_body E rec now))) (\<lambda>r. case r of
         Inl _ \<Rightarrow> retP False
       | Inr recorded \<Rightarrow> retP recorded)))"

text \<open>The body of the loop over the due records, and the loop with its counter \<open>settled\<close>.\<close>

definition settle_record :: "env \<Rightarrow> reference_policy \<Rightarrow> pending_record \<Rightarrow> bool prog" where
  "settle_record E p rec =
     bindP (tryP (settleOne E p rec)) (\<lambda>r. case r of
       Inl _ \<Rightarrow> recordPermanentFailure E p rec
     | Inr moved \<Rightarrow> retP moved)"

fun settle_due :: "env \<Rightarrow> reference_policy \<Rightarrow> pending_record list \<Rightarrow> int \<Rightarrow> int prog" where
  "settle_due E p [] settled = retP settled"
| "settle_due E p (rec # recs) settled =
     bindP (settle_record E p rec) (\<lambda>moved. settle_due E p recs (if moved then settled + 1 else settled))"

definition ResolveReferences_RunOnce :: "env \<Rightarrow> reference_policy \<Rightarrow> int prog" where
  "ResolveReferences_RunOnce E p =
     bindP (read_clock E) (\<lambda>now.
     bindP (wrapP ''claiming pending references'' (claim_references E now)) (\<lambda>due.
     settle_due E p due 0))"

text \<open>The job keeps what its transactions keep.\<close>

lemma keeps_resolving:
  assumes "\<And>now. keeps I (claim_references E now)"
    and "\<And>rec now. keeps I (within E (settle_one_body E p rec now))"
    and "\<And>rec now. keeps I (within E (permanent_failure_body E rec now))"
  shows "keeps I (ResolveReferences_RunOnce E p)"
proof -
  have "keeps I (settle_due E p recs n)" for recs n
  proof (induction recs arbitrary: n)
    case (Cons rec recs)
    then show ?case
      unfolding settle_due.simps settle_record_def settleOne_def recordPermanentFailure_def
      by (intro keeps_intros assms)
  qed simp
  then show ?thesis unfolding ResolveReferences_RunOnce_def by (intro keeps_intros assms)
qed

context statement_invariant
begin

lemma keeps_claim_references: "keeps I (claim_references E now)"
  unfolding claim_references_def by (intro keeps_intros keeps_all)

lemma keeps_settle_one_body: "keeps I (settle_one_body E p rec now)"
  unfolding settle_one_body_def Let_def
  by (intro keeps_intros keeps_all keeps_reject keeps_settle keeps_decideReversal)

lemma keeps_permanent_failure_body: "keeps I (permanent_failure_body E rec now)"
  unfolding permanent_failure_body_def by (intro keeps_intros keeps_all)

lemma keeps_ResolveReferences: "keeps I (ResolveReferences_RunOnce E p)"
  by (intro keeps_resolving keeps_intros keeps_claim_references keeps_settle_one_body keeps_permanent_failure_body)

end

end
