(* ===== verification/PublishOutbox.thy ===== *)
theory PublishOutbox
  imports Runs Backoff
begin

text \<open>
  \<open>internal/app/publish_outbox.go\<close>: the job that claims batches of unpublished events and hands
  them to a \<open>Publisher\<close>. The publisher is an interface of the sources, an argument here: it may
  fail but does not touch the tables.
\<close>

type_synonym publisher = "outbox_record \<Rightarrow> nat \<Rightarrow> goerr option"

definition claim_batch :: "env \<Rightarrow> publish_policy \<Rightarrow> string \<Rightarrow> time \<Rightarrow> outbox_record list prog" where
  "claim_batch E p owner now =
     within E (bindP (outboxRepo_OldestPending E Tx now) (\<lambda>_.
       outboxRepo_Claim E Tx owner (pp_BatchSize p) (pp_LockFor p) now))"

definition mark_record :: "env \<Rightarrow> publish_policy \<Rightarrow> outbox_record \<Rightarrow> goerr option \<Rightarrow> unit prog" where
  "mark_record E p rec publishErr =
     within E (bindP (read_clock E) (\<lambda>now.
       if publishErr \<noteq> None then
         outboxRepo_Reschedule E Tx (ob_EventID rec) (ob_Attempts rec + 1)
           (time_Add now (PublishPolicy_backoffFor p (ob_Attempts rec + 1)))
       else outboxRepo_MarkPublished E Tx (ob_EventID rec) now))"

text \<open>The loop over a batch: the number of published events, and the error of a cancelled context.
  The publisher sees how many calls to the database came before.\<close>

fun publish_records ::
  "env \<Rightarrow> publish_policy \<Rightarrow> publisher \<Rightarrow> outbox_record list \<Rightarrow> nat \<Rightarrow> (nat \<times> goerr option) prog" where
  "publish_records E p pub [] published = retP (published, None)"
| "publish_records E p pub (rec # recs) published =
     bindP (ctx_err E) (\<lambda>cancelled. case cancelled of
       Some s \<Rightarrow> retP (published, Some (DriverErr s))
     | None \<Rightarrow>
       (\<lambda>w. bindP (tryP (mark_record E p rec (pub rec (wd_calls w)))) (\<lambda>mark. case mark of
          Inl _ \<Rightarrow> publish_records E p pub recs published
        | Inr _ \<Rightarrow> publish_records E p pub recs
            (if pub rec (wd_calls w) = None then Suc published else published)) w))"

text \<open>The three results of \<open>publishBatch\<close>: how many were published, drained, and the error.\<close>

definition publishBatch :: "env \<Rightarrow> publish_policy \<Rightarrow> publisher \<Rightarrow> string \<Rightarrow> (nat \<times> bool \<times> goerr option) prog" where
  "publishBatch E p pub owner =
     bindP (read_clock E) (\<lambda>now.
     bindP (tryP (claim_batch E p owner now)) (\<lambda>r. case r of
       Inl err \<Rightarrow> retP (0, False, Some (WrapErr ''claiming outbox batch'' err))
     | Inr batch \<Rightarrow>
         bindP (publish_records E p pub batch 0) (\<lambda>(published, err). case err of
           Some e \<Rightarrow> retP (published, True, Some e)
         | None \<Rightarrow> retP (published, int (length batch) < pp_BatchSize p, None))))"

text \<open>The loop of \<open>RunOnce\<close>, with \<open>passes\<close> passes left and \<open>total\<close> events published so far.\<close>

fun run_passes :: "env \<Rightarrow> publish_policy \<Rightarrow> publisher \<Rightarrow> string \<Rightarrow> nat \<Rightarrow> nat \<Rightarrow> (nat \<times> goerr option) prog" where
  "run_passes E p pub owner 0 so_far = retP (so_far, None)"
| "run_passes E p pub owner (Suc passes) so_far =
     bindP (publishBatch E p pub owner) (\<lambda>(published, drained, err). case err of
       Some e \<Rightarrow> retP (so_far + published, Some e)
     | None \<Rightarrow>
         if drained then retP (so_far + published, None)
         else bindP (ctx_err E) (\<lambda>cancelled.
           if cancelled \<noteq> None then retP (so_far + published, None)
           else run_passes E p pub owner passes (so_far + published)))"

definition PublishOutbox_RunOnce :: "env \<Rightarrow> publish_policy \<Rightarrow> publisher \<Rightarrow> string \<Rightarrow> (nat \<times> goerr option) prog" where
  "PublishOutbox_RunOnce E p pub owner = run_passes E p pub owner (pp_MaxPassesPerRun p) 0"

text \<open>The loops keep what claiming a batch and marking a record keep, where a record is marked
  with what the publisher answered for it.\<close>

lemma keeps_publish_records:
  assumes "\<And>rec n. keeps I (mark_record E p rec (pub rec n))"
  shows "keeps I (publish_records E p pub recs n)"
proof (induction recs arbitrary: n)
  case (Cons rec recs)
  have "keeps I (bindP (tryP (mark_record E p rec (pub rec k))) (\<lambda>mark. case mark of
          Inl _ \<Rightarrow> publish_records E p pub recs n
        | Inr _ \<Rightarrow> publish_records E p pub recs m))" for k m
    by (intro keeps_intros assms Cons)
  then have "keeps I (\<lambda>w. bindP (tryP (mark_record E p rec (pub rec (wd_calls w)))) (\<lambda>mark. case mark of
          Inl _ \<Rightarrow> publish_records E p pub recs n
        | Inr _ \<Rightarrow> publish_records E p pub recs
            (if pub rec (wd_calls w) = None then Suc n else n)) w)"
    by (simp add: keeps_def)
  then show ?case unfolding publish_records.simps by (intro keeps_intros)
qed simp

lemma keeps_RunOnce:
  assumes "\<And>now. keeps I (claim_batch E p owner now)" "\<And>rec n. keeps I (mark_record E p rec (pub rec n))"
  shows "keeps I (PublishOutbox_RunOnce E p pub owner)"
proof -
  have "keeps I (run_passes E p pub owner k n)" for k n
  proof (induction k arbitrary: n)
    case (Suc k)
    then show ?case unfolding run_passes.simps publishBatch_def
      by (intro keeps_intros keeps_publish_records assms)
  qed simp
  then show ?thesis by (simp add: PublishOutbox_RunOnce_def)
qed

context statement_invariant
begin

lemma keeps_publishing: "keeps I (claim_batch E p owner now)" "keeps I (mark_record E p rec err)"
  unfolding claim_batch_def mark_record_def by (intro keeps_intros keeps_all)+

lemma keeps_PublishOutbox: "keeps I (PublishOutbox_RunOnce E p pub owner)"
  by (intro keeps_RunOnce keeps_publishing)

end

end
