(* ===== verification/Books.thy ===== *)
theory Books
  imports Outcome OpenWallet ResolveReferences PublishOutbox
begin

text \<open>
  The invariant that the application keeps beyond the schema (\<open>books\<close>): the balance of every wallet
  is the sum of its ledger, every ledger row was posted by exactly one processed transaction of the
  same wallet and amount and every processed transaction that moves funds has its row, and a
  processed reversal undoes one processed operation of the same wallet and amount that no other
  reversal undoes.
\<close>

section \<open>The invariant\<close>

definition row_signed :: "ledger_row \<Rightarrow> int" where
  "row_signed l = (if lr_direction l = ''CREDIT'' then sint (lr_amount_minor_units l)
                   else - sint (lr_amount_minor_units l))"

definition ledger_balance :: "db \<Rightarrow> uuid \<Rightarrow> int" where
  "ledger_balance d i = sum_list (map row_signed (ledger_of i d))"

definition balances_ok :: "db \<Rightarrow> bool" where
  "balances_ok d \<longleftrightarrow> (\<forall>w \<in> set (db_wallet d). sint (wr_balance_minor_units w) = ledger_balance d (wr_id w))"

definition posts :: "string \<Rightarrow> string \<Rightarrow> bool" where
  "posts k dir \<longleftrightarrow> k = ''BET'' \<and> dir = ''DEBIT'' \<or> k \<in> {''OPENING'', ''WIN'', ''REFUND''} \<and> dir = ''CREDIT''
     \<or> k = ''ROLLBACK'' \<and> dir \<in> {''DEBIT'', ''CREDIT''}"

definition posted_by :: "tx_row \<Rightarrow> ledger_row \<Rightarrow> bool" where
  "posted_by t l \<longleftrightarrow> tr_id t = lr_transaction_id l \<and> tr_wallet_id t = lr_wallet_id l
     \<and> tr_status t = ''PROCESSED'' \<and> tr_amount_minor_units t = lr_amount_minor_units l
     \<and> posts (tr_kind t) (lr_direction l)"

definition moves_funds :: "tx_row \<Rightarrow> bool" where
  "moves_funds t \<longleftrightarrow> tr_status t = ''PROCESSED'' \<and> tr_kind t \<noteq> ''LOSS''"

definition posted_ok :: "db \<Rightarrow> bool" where
  "posted_ok d \<longleftrightarrow> (\<forall>l \<in> set (db_ledger d). \<exists>t \<in> set (db_tx d). posted_by t l)
     \<and> (\<forall>t \<in> set (db_tx d). moves_funds t \<longrightarrow> (\<exists>l \<in> set (db_ledger d). posted_by t l))"

definition processed_reversal :: "tx_row \<Rightarrow> bool" where
  "processed_reversal r \<longleftrightarrow> tr_kind r \<in> {''REFUND'', ''ROLLBACK''} \<and> tr_status r = ''PROCESSED''"

definition undoes :: "tx_row \<Rightarrow> tx_row \<Rightarrow> bool" where
  "undoes a r \<longleftrightarrow> tr_reference_transaction_id a = Some (tr_id r) \<and> tr_status r = ''PROCESSED''
     \<and> tr_wallet_id r = tr_wallet_id a \<and> tr_amount_minor_units r = tr_amount_minor_units a
     \<and> tr_currency r = tr_currency a
     \<and> (tr_kind a = ''REFUND'' \<and> tr_kind r = ''BET''
        \<or> tr_kind a = ''ROLLBACK'' \<and> tr_kind r \<in> {''BET'', ''WIN'', ''REFUND''})"

definition reversals_ok :: "db \<Rightarrow> bool" where
  "reversals_ok d \<longleftrightarrow> (\<forall>a \<in> set (db_tx d). processed_reversal a \<longrightarrow>
     (\<exists>r \<in> set (db_tx d). undoes a r)
     \<and> (\<forall>b \<in> set (db_tx d). processed_reversal b
          \<longrightarrow> tr_reference_transaction_id b = tr_reference_transaction_id a \<longrightarrow> b = a))"

text \<open>Only reversals wait for a reference.\<close>

definition pending_ok :: "db \<Rightarrow> bool" where
  "pending_ok d \<longleftrightarrow> (\<forall>r \<in> set (db_tx d). tr_status r = ''PENDING_REFERENCE'' \<longrightarrow> tr_kind r \<in> {''REFUND'', ''ROLLBACK''})"

definition books :: "db \<Rightarrow> bool" where
  "books d \<longleftrightarrow> schema_ok d \<and> balances_ok d \<and> posted_ok d \<and> reversals_ok d \<and> pending_ok d"

lemma books_empty [simp]: "books empty_db"
proof -
  have "db_wallet empty_db = []" "db_tx empty_db = []" "db_ledger empty_db = []"
    by (simp_all add: empty_db_def)
  then show ?thesis by (simp add: books_def balances_ok_def posted_ok_def reversals_ok_def pending_ok_def)
qed

section \<open>Saving a transaction\<close>

definition row_core :: "wager_tx \<Rightarrow> tx_row \<Rightarrow> bool" where
  "row_core t r \<longleftrightarrow> tr_wallet_id r = tx_walletID t \<and> tr_player_id r = tx_playerID t
     \<and> tr_kind r = kind_string (tx_kind t) \<and> tr_amount_minor_units r = minorUnits (tx_money t)
     \<and> tr_currency r = moneyCurrency (tx_money t)"

definition row_for :: "wager_tx \<Rightarrow> tx_row \<Rightarrow> bool" where
  "row_for t r \<longleftrightarrow> tr_id r = tx_id t \<and> row_core t r \<and> tr_status r = status_string (tx_status t)
     \<and> tr_reference_transaction_id r = nullUUID (tx_referenceTransactionID t)"

text \<open>The row \<open>r'\<close> of the saved transaction takes the place of a row that was not terminal, if any.\<close>

definition replaced :: "wager_tx \<Rightarrow> tx_row \<Rightarrow> db \<Rightarrow> db \<Rightarrow> bool" where
  "replaced t r' d d' \<longleftrightarrow> row_for t r' \<and> set (db_tx d') = insert r' {r \<in> set (db_tx d). tr_id r \<noteq> tx_id t}
     \<and> (\<forall>r \<in> set (db_tx d). tr_id r = tx_id t \<longrightarrow> \<not> terminal_status (tr_status r))"

text \<open>The rows already stored under the transaction's identifier agree with it.\<close>

definition agrees :: "wager_tx \<Rightarrow> db \<Rightarrow> bool" where
  "agrees t d \<longleftrightarrow> (\<forall>r \<in> set (db_tx d). tr_id r = tx_id t \<longrightarrow> row_core t r)"

lemma toDomain_row: "toDomain r = Inr t \<Longrightarrow> tr_id r = tx_id t \<and> row_core t r
    \<and> tr_status r = status_string (tx_status t)"
  by (auto simp: toDomain_def wagertx_Rehydrate_def row_core_def FromMinorUnits_def split: if_splits)

lemma set_map_update:
  assumes "r0 \<in> set rs" "hit r0" and "\<And>r. r \<in> set rs \<Longrightarrow> hit r \<Longrightarrow> r = r0"
  shows "set (map (\<lambda>r. if hit r then upd r else r) rs) = insert (upd r0) {r \<in> set rs. \<not> hit r}"
proof -
  have "set (map (\<lambda>r. if hit r then upd r else r) rs) = upd ` {r \<in> set rs. hit r} \<union> {r \<in> set rs. \<not> hit r}"
    by (induction rs) auto
  moreover have "{r \<in> set rs. hit r} = {r0}" using assms by blast
  ultimately show ?thesis by simp
qed

text \<open>What the books need of saving: the row appears or takes the place of its predecessor.\<close>

lemma inserted_replaced:
  assumes "tx_inserted t d d'"
  obtains r' where "replaced t r' d d'"
proof -
  obtain now where ins: "insert_tx (tx_to_row t now) now d = Inr ((), d')"
    using assms by (auto simp: tx_inserted_def)
  have "row_for t (tx_to_row t now)" by (simp add: row_for_def row_core_def tx_to_row_def)
  moreover have "tr_id (tx_to_row t now) = tx_id t" by (simp add: tx_to_row_def)
  ultimately have "replaced t (tx_to_row t now) d d'"
    using ins by (auto simp: replaced_def insert_tx_Inr)
  then show thesis by (rule that)
qed

lemma updated_replaced:
  assumes saved: "tx_updated t d d'" and ok: "schema_ok d" and agree: "agrees t d"
  obtains r' where "replaced t r' d d'"
proof -
  obtain n now where upd: "update_tx t now d = Inr (n, d')" and n: "n \<noteq> 0"
    using saved by (auto simp: tx_updated_def)
  let ?hit = "\<lambda>r. tr_id r = tx_id t"
  have d': "db_tx d' = map (\<lambda>r. if ?hit r then tx_update_row t r else r) (db_tx d)"
    and nt: "\<forall>r \<in> set (db_tx d). ?hit r \<longrightarrow> \<not> terminal_status (tr_status r)"
    and len: "length (filter ?hit (db_tx d)) = n"
    using upd by (simp_all add: update_tx_def update_tx_rows_Inr)
  from len n have "filter ?hit (db_tx d) \<noteq> []" by auto
  then obtain r0 where r0: "r0 \<in> set (db_tx d)" "?hit r0" by (auto simp: filter_empty_conv)
  have uniq: "unique_by (\<lambda>a b. tr_id a = tr_id b) (db_tx d)"
    using ok by (simp add: schema_ok_def tx_table_ok_def)
  have only: "r = r0" if "r \<in> set (db_tx d)" "?hit r" for r
    by (rule unique_byD [OF uniq that(1) r0(1)]) (simp_all add: that(2) r0(2))
  have "row_core t r0" using agree r0 by (simp add: agrees_def)
  then have "row_for t (tx_update_row t r0)"
    using r0 by (simp add: row_for_def row_core_def tx_update_row_def)
  moreover have "set (db_tx d') = insert (tx_update_row t r0) {r \<in> set (db_tx d). \<not> ?hit r}"
    unfolding d' by (rule set_map_update [where hit = ?hit, OF r0 only])
  ultimately have "replaced t (tx_update_row t r0) d d'" using nt by (simp add: replaced_def)
  then show thesis by (rule that)
qed

lemma terminal_PROCESSED [simp]: "terminal_status ''PROCESSED''"
  by (simp add: terminal_status_def)

lemma pending_ok_saved:
  "replaced t r' d d' \<Longrightarrow> pending_ok d
     \<Longrightarrow> (tr_status r' = ''PENDING_REFERENCE'' \<Longrightarrow> tr_kind r' \<in> {''REFUND'', ''ROLLBACK''}) \<Longrightarrow> pending_ok d'"
  by (auto simp: replaced_def pending_ok_def)

text \<open>A saved transaction that moved no funds keeps the postings, and one that is no processed
  reversal keeps the reversals.\<close>

lemma posted_ok_quiet:
  assumes "replaced t r' d d'" "\<not> moves_funds r'" "posted_ok d" "db_ledger d' = db_ledger d"
  shows "posted_ok d'"
  unfolding posted_ok_def
proof (intro conjI ballI impI)
  fix l assume "l \<in> set (db_ledger d')"
  then obtain x where x: "x \<in> set (db_tx d)" "posted_by x l" using assms(3,4) by (auto simp: posted_ok_def)
  then have "tr_id x \<noteq> tx_id t" using assms(1) by (auto simp: replaced_def posted_by_def)
  then show "\<exists>t \<in> set (db_tx d'). posted_by t l" using x assms(1) by (auto simp: replaced_def)
next
  fix x assume "x \<in> set (db_tx d')" "moves_funds x"
  then show "\<exists>l \<in> set (db_ledger d'). posted_by x l" using assms by (auto simp: replaced_def posted_ok_def)
qed

lemma posted_ok_posting:
  assumes "replaced t r' d d'" "posted_by r' l" "posted_ok d" "db_ledger d' = db_ledger d @ [l]"
  shows "posted_ok d'"
  unfolding posted_ok_def
proof (intro conjI ballI impI)
  fix k assume k: "k \<in> set (db_ledger d')"
  show "\<exists>t \<in> set (db_tx d'). posted_by t k"
  proof (cases "k = l")
    case False
    then obtain x where x: "x \<in> set (db_tx d)" "posted_by x k"
      using assms(3,4) k by (auto simp: posted_ok_def)
    then have "tr_id x \<noteq> tx_id t" using assms(1) by (auto simp: replaced_def posted_by_def)
    then show ?thesis using x assms(1) by (auto simp: replaced_def)
  qed (use assms(1,2) in \<open>auto simp: replaced_def\<close>)
next
  fix x assume "x \<in> set (db_tx d')" "moves_funds x"
  then show "\<exists>l \<in> set (db_ledger d'). posted_by x l"
    using assms by (auto simp: replaced_def posted_ok_def)
qed

lemma reversals_ok_saved:
  assumes rep: "replaced t r' d d'" and ok: "reversals_ok d"
    and new: "processed_reversal r' \<Longrightarrow> (\<exists>r \<in> set (db_tx d). undoes r' r)
      \<and> (\<forall>b \<in> set (db_tx d). processed_reversal b \<longrightarrow> tr_reference_transaction_id b \<noteq> tr_reference_transaction_id r')"
  shows "reversals_ok d'"
proof -
  have kept: "r \<in> set (db_tx d')" if "r \<in> set (db_tx d)" "tr_status r = ''PROCESSED''" for r
    using rep that by (auto simp: replaced_def)
  have undone: "\<exists>r \<in> set (db_tx d'). undoes a r" if "\<exists>r \<in> set (db_tx d). undoes a r" for a
    using that kept by (auto simp: undoes_def)
  have cases_d': "a = r' \<or> a \<in> set (db_tx d)" if "a \<in> set (db_tx d')" for a
    using rep that by (auto simp: replaced_def)
  show ?thesis
    unfolding reversals_ok_def
  proof (intro ballI impI conjI)
    fix a assume a: "a \<in> set (db_tx d')" "processed_reversal a"
    show "\<exists>r \<in> set (db_tx d'). undoes a r"
      using cases_d' [OF a(1)] a(2) new ok undone by (auto simp: reversals_ok_def)
    fix b assume b: "b \<in> set (db_tx d')" "processed_reversal b"
      "tr_reference_transaction_id b = tr_reference_transaction_id a"
    show "b = a"
      using cases_d' [OF a(1)] cases_d' [OF b(1)] a(2) b(2,3) new ok by (auto simp: reversals_ok_def)
  qed
qed

section \<open>Settlements keep the books\<close>

lemma ledger_balance_snoc:
  "db_ledger d' = db_ledger d @ [l] \<Longrightarrow>
     ledger_balance d' i = ledger_balance d i + (if lr_wallet_id l = i then row_signed l else 0)"
  by (simp add: ledger_balance_def ledger_of_def)

lemma applyMovement_Inr:
  assumes "applyMovement w dir a now = Inr w'" and "wallet_wf w"
  shows "dir \<in> {Debit, Credit} \<and> wallet_wf w' \<and> wallet_minor w' = wallet_minor w + direction_sign dir * money_minor a
    \<and> wlt_id w' = wlt_id w \<and> wlt_version w' = wlt_version w + 1 \<and> wlt_updatedAt w' = now
    \<and> moneyCurrency a = wlt_currency w \<and> 0 < money_minor a"
proof (cases dir)
  case Debit
  then show ?thesis
    using assms debit.move_balance [of w a now w'] debit.move_wf [of w a now w'] debit.move_frame [of w a now w']
      debit.move_amount [of w a now w'] by simp
next
  case Credit
  then show ?thesis
    using assms credit.move_balance [of w a now w'] credit.move_wf [of w a now w'] credit.move_frame [of w a now w']
      credit.move_amount [of w a now w'] by simp
qed (use assms in simp)

lemma wallet_of_row_fields:
  "wallet_of_row row = Inr w \<Longrightarrow> wallet_wf w \<and> wlt_id w = wr_id row \<and> wlt_playerID w = wr_player_id row
     \<and> wlt_currency w = wr_currency row \<and> wallet_minor w = sint (wr_balance_minor_units row)
     \<and> wlt_version w = wr_version row"
  unfolding wallet_of_row_def
  by (frule RehydrateWallet_wf) (auto simp: RehydrateWallet_def FromMinorUnits_def wallet_minor_def split: if_splits)

lemma wallet_atD:
  assumes "wallet_at d i w"
  obtains row where "row \<in> set (db_wallet d)" "wr_id row = i" "wallet_of_row row = Inr w"
  using assms by (auto simp: wallet_at_def find_Some_iff in_set_conv_nth)

lemma row_signed_entry:
  assumes "NewWalletLedgerEntry p = Inr entry" "nl_Direction p \<in> {Debit, Credit}"
  shows "row_signed (ledger_to_row entry) = direction_sign (nl_Direction p) * money_minor (nl_Amount p)"
    and "lr_wallet_id (ledger_to_row entry) = nl_WalletID p"
    and "lr_transaction_id (ledger_to_row entry) = nl_TransactionID p"
    and "lr_amount_minor_units (ledger_to_row entry) = minorUnits (nl_Amount p)"
    and "lr_direction (ledger_to_row entry) = direction_string (nl_Direction p)"
  using assms by (auto simp: NewWalletLedgerEntry_def bindR_Inr_iff ledger_to_row_def row_signed_def
      money_minor_def split: if_splits)

lemma db_wallet_update_eq: "d\<lparr>db_wallet := a\<rparr> = d\<lparr>db_wallet := b\<rparr> \<longleftrightarrow> a = b"
  by (cases d) simp

lemma balances_ok_moved:
  assumes bal: "balances_ok d" and ok: "schema_ok d" and at: "wallet_at d i w"
    and upd: "update_wallet_balance i (wlt_version w) b v tm t0 d = Inr (n, d\<lparr>db_wallet := ws\<rparr>)"
    and d': "db_wallet d' = ws" "db_ledger d' = db_ledger d @ [l]"
    and l: "lr_wallet_id l = i" "sint b = wallet_minor w + row_signed l"
  shows "balances_ok d'"
proof -
  obtain row where row: "row \<in> set (db_wallet d)" "wr_id row = i" "wallet_of_row row = Inr w"
    using at by (rule wallet_atD)
  note fields = wallet_of_row_fields [OF row(3)]
  have uniq: "unique_by (\<lambda>a b. wr_id a = wr_id b) (db_wallet d)"
    using ok by (simp add: schema_ok_def wallet_table_ok_def)
  have only: "r = row" if "r \<in> set (db_wallet d)" "wr_id r = i" for r
    by (rule unique_byD [OF uniq that(1) row(1)]) (simp_all add: that(2) row(2))
  have old: "sint (wr_balance_minor_units r) = ledger_balance d (wr_id r)" if "r \<in> set (db_wallet d)" for r
    using bal that by (simp add: balances_ok_def)
  show ?thesis
    unfolding balances_ok_def
  proof
    fix r assume "r \<in> set (db_wallet d')"
    then obtain r0 where r0: "r0 \<in> set (db_wallet d)"
      and r: "r = (if wr_id r0 = i \<and> wr_version r0 = wlt_version w
        then r0\<lparr>wr_balance_minor_units := b, wr_version := v, wr_updated_at := tm\<rparr> else r0)"
      using upd d'(1) by (auto simp: update_wallet_Inr db_wallet_update_eq)
    show "sint (wr_balance_minor_units r) = ledger_balance d' (wr_id r)"
    proof (cases "wr_id r0 = i")
      case True
      then have "r0 = row" using only r0 by blast
      then show ?thesis
        using r fields old [OF row(1)] l row(2) by (simp add: ledger_balance_snoc [OF d'(2)])
    next
      case False
      then show ?thesis using r old [OF r0] l(1) by (simp add: ledger_balance_snoc [OF d'(2)])
    qed
  qed
qed

text \<open>The invariant of the two effects. \<open>undo\<close> is what a reversal has established beforehand.\<close>

definition undo_ready :: "wager_tx \<Rightarrow> db \<Rightarrow> bool" where
  "undo_ready t d \<longleftrightarrow> (tx_kind t = Refund \<or> tx_kind t = Rollback) \<longrightarrow>
     (\<exists>r \<in> set (db_tx d). tx_referenceTransactionID t = tr_id r \<and> tr_id r \<noteq> uuid_Nil \<and> tr_status r = ''PROCESSED''
        \<and> tr_wallet_id r = tx_walletID t \<and> tr_amount_minor_units r = minorUnits (tx_money t)
        \<and> tr_currency r = moneyCurrency (tx_money t)
        \<and> (tx_kind t = Refund \<and> tr_kind r = ''BET''
           \<or> tx_kind t = Rollback \<and> tr_kind r \<in> {''BET'', ''WIN'', ''REFUND''})
        \<and> \<not> already_reversed (tr_id r) d)"

lemma kind_string_inject:
  "Kind_IsValid k \<Longrightarrow> kind_string k = ''OPENING'' \<longleftrightarrow> k = Opening"
  "Kind_IsValid k \<Longrightarrow> kind_string k = ''BET'' \<longleftrightarrow> k = Bet"
  "Kind_IsValid k \<Longrightarrow> kind_string k = ''WIN'' \<longleftrightarrow> k = Win"
  "Kind_IsValid k \<Longrightarrow> kind_string k = ''LOSS'' \<longleftrightarrow> k = Loss"
  "Kind_IsValid k \<Longrightarrow> kind_string k = ''REFUND'' \<longleftrightarrow> k = Refund"
  "Kind_IsValid k \<Longrightarrow> kind_string k = ''ROLLBACK'' \<longleftrightarrow> k = Rollback"
  by (cases k; simp add: Kind_IsValid_def)+

lemma status_string_PROCESSED:
  "Status_IsValid s \<Longrightarrow> status_string s = ''PROCESSED'' \<longleftrightarrow> s = Processed"
  by (cases s) simp_all

lemma status_string_PENDING_REFERENCE:
  "Status_IsValid s \<Longrightarrow> status_string s = ''PENDING_REFERENCE'' \<longleftrightarrow> s = PendingReference"
  by (cases s) simp_all

lemma books_still:
  assumes books: "books d" and eff: "effect_still S t ev d d'" and saves: "\<And>d'. S t d d' \<Longrightarrow> \<exists>r'. replaced t r' d d'"
    and ok': "schema_ok d'"
    and quiet: "tx_status t = Processed \<Longrightarrow> tx_kind t = Loss" and valid: "Status_IsValid (tx_status t)"
    and parked: "tx_status t = PendingReference \<Longrightarrow> tx_kind t = Refund \<or> tx_kind t = Rollback"
  shows "books d'"
proof -
  obtain o1 where saved: "S t d (d\<lparr>db_tx := db_tx d'\<rparr>)"
    and d': "d' = d\<lparr>db_tx := db_tx d', db_outbox := db_outbox d @ [o1]\<rparr>"
    using eff by (auto simp: effect_still_def)
  have ok: "schema_ok d" using books by (simp add: books_def)
  obtain r' where "replaced t r' d (d\<lparr>db_tx := db_tx d'\<rparr>)"
    using saves [OF saved] by blast
  then have rep: "replaced t r' d d'" by (simp add: replaced_def)
  have led: "db_ledger d' = db_ledger d" and wal: "db_wallet d' = db_wallet d"
    by (subst d', simp)+
  have st: "tr_status r' = ''PROCESSED'' \<longrightarrow> tr_kind r' = ''LOSS''"
    using rep quiet valid by (auto simp: replaced_def row_for_def row_core_def status_string_PROCESSED)
  have "pending_ok d'"
    using pending_ok_saved [OF rep] books rep parked valid
    by (cases "tx_status t = PendingReference") (auto simp: books_def replaced_def row_for_def row_core_def status_string_PENDING_REFERENCE)
  moreover have "posted_ok d'"
    using posted_ok_quiet [OF rep _ _ led] st books by (auto simp: moves_funds_def books_def)
  moreover have "reversals_ok d'"
    using reversals_ok_saved [OF rep] st books by (auto simp: processed_reversal_def books_def)
  moreover have "balances_ok d'"
    using books led wal by (simp add: books_def balances_ok_def ledger_balance_def ledger_of_def)
  ultimately show ?thesis using ok' by (simp add: books_def)
qed

lemma books_moved:
  assumes books: "books d" and eff: "effect_moved E S t w w' dir now d d'"
    and saves: "\<And>d'. S t d d' \<Longrightarrow> \<exists>r'. replaced t r' d d'"
    and ok': "schema_ok d'" and at: "wallet_at d (tx_walletID t) w" and mv: "applyMovement w dir (tx_money t) tm = Inr w'"
    and proc: "tx_status t = Processed" and valid: "Kind_IsValid (tx_kind t)"
    and ps: "posts (kind_string (tx_kind t)) (direction_string dir)"
    and undo: "undo_ready t d"
  shows "books d'"
proof -
  obtain entry es o1 o2 n t0 i1 i2 lid where saved: "S t d (d\<lparr>db_tx := db_tx d'\<rparr>)"
    and upd: "update_wallet_balance (wlt_id w') (wlt_version w) (minorUnits (wlt_balance w')) (wlt_version w')
         (timestamptz (wlt_updatedAt w')) t0 d = Inr (n, d\<lparr>db_wallet := db_wallet d'\<rparr>)"
    and le: "NewWalletLedgerEntry \<lparr>nl_ID = lid, nl_WalletID = wlt_id w', nl_TransactionID = tx_id t,
         nl_Direction = dir, nl_Amount = tx_money t, nl_BalanceBefore = wlt_balance w, nl_Now = now\<rparr> = Inr entry"
    and d': "d' = d\<lparr>db_tx := db_tx d', db_wallet := db_wallet d', db_ledger := db_ledger d @ [ledger_to_row entry],
         db_journal := db_journal d @ map journal_to_row es, db_outbox := db_outbox d @ [o1, o2]\<rparr>"
    using eff unfolding effect_moved_def by blast
  have ok: "schema_ok d" using books by (simp add: books_def)
  obtain r' where "replaced t r' d (d\<lparr>db_tx := db_tx d'\<rparr>)"
    using saves [OF saved] by blast
  then have rep: "replaced t r' d d'" by (simp add: replaced_def)
  have led: "db_ledger d' = db_ledger d @ [ledger_to_row entry]" by (subst d', simp)
  obtain row where row: "row \<in> set (db_wallet d)" "wr_id row = tx_walletID t" "wallet_of_row row = Inr w"
    using at by (rule wallet_atD)
  note fields = wallet_of_row_fields [OF row(3)]
  note mvd = applyMovement_Inr [OF mv]
  have w': "wlt_id w' = tx_walletID t" "dir \<in> {Debit, Credit}" using mvd fields row(2) by simp_all
  note entry = row_signed_entry [OF le, simplified, OF w'(2) [simplified]]
  have "balances_ok d'"
  proof (rule balances_ok_moved [OF _ ok at _ _ led])
    show "balances_ok d" using books by (simp add: books_def)
    show "lr_wallet_id (ledger_to_row entry) = tx_walletID t" using entry w' by simp
    show "update_wallet_balance (tx_walletID t) (wlt_version w) (minorUnits (wlt_balance w')) (wlt_version w')
         (timestamptz (wlt_updatedAt w')) t0 d = Inr (n, d\<lparr>db_wallet := db_wallet d'\<rparr>)"
      using upd w' by simp
    show "sint (minorUnits (wlt_balance w')) = wallet_minor w + row_signed (ledger_to_row entry)"
      using mvd fields entry(1) by (simp add: wallet_minor_def)
  qed simp
  moreover have "pending_ok d'"
    using pending_ok_saved [OF rep] books rep proc by (auto simp: books_def replaced_def row_for_def)
  moreover have "posted_by r' (ledger_to_row entry)"
    using rep entry w' proc ps by (auto simp: replaced_def row_for_def row_core_def posted_by_def)
  with books have "posted_ok d'" using posted_ok_posting [OF rep _ _ led] by (simp add: books_def)
  moreover have "reversals_ok d'"
  proof (rule reversals_ok_saved [OF rep])
    show "reversals_ok d" using books by (simp add: books_def)
    assume rv: "processed_reversal r'"
    then have k: "tx_kind t = Refund \<or> tx_kind t = Rollback"
      using rep valid by (auto simp: processed_reversal_def replaced_def row_for_def row_core_def kind_string_inject)
    then obtain r where r: "r \<in> set (db_tx d)" "tx_referenceTransactionID t = tr_id r" "tr_id r \<noteq> uuid_Nil"
        "tr_status r = ''PROCESSED''" "tr_wallet_id r = tx_walletID t"
        "tr_amount_minor_units r = minorUnits (tx_money t)" "tr_currency r = moneyCurrency (tx_money t)"
        "tx_kind t = Refund \<and> tr_kind r = ''BET'' \<or> tx_kind t = Rollback \<and> tr_kind r \<in> {''BET'', ''WIN'', ''REFUND''}"
        "\<not> already_reversed (tr_id r) d"
      using undo unfolding undo_ready_def by blast
    have ref: "tr_reference_transaction_id r' = Some (tr_id r)"
      using rep r by (simp add: replaced_def row_for_def nullUUID_def)
    have "undoes r' r"
      using rep r ref by (auto simp: undoes_def replaced_def row_for_def row_core_def)
    moreover have "\<forall>b \<in> set (db_tx d). processed_reversal b
        \<longrightarrow> tr_reference_transaction_id b \<noteq> tr_reference_transaction_id r'"
      using r(9) ref by (auto simp: already_reversed_def is_successful_reversal_of_def processed_reversal_def)
    ultimately show "(\<exists>r \<in> set (db_tx d). undoes r' r)
      \<and> (\<forall>b \<in> set (db_tx d). processed_reversal b \<longrightarrow> tr_reference_transaction_id b \<noteq> tr_reference_transaction_id r')"
      using r(1) by blast
  qed
  ultimately show ?thesis using ok' by (simp add: books_def)
qed

section \<open>The use cases keep the books\<close>

lemma reversalDirection_posts:
  "reversalDirection k rk = Some dir \<Longrightarrow> k = Refund \<or> k = Rollback \<Longrightarrow>
     posts (kind_string k) (direction_string dir)
     \<and> (k = Refund \<and> rk = Bet \<or> k = Rollback \<and> rk \<in> {Bet, Win, Refund})"
  by (auto simp: reversalDirection_def posts_def split: if_splits)

lemma decides_reversal_ready:
  assumes dec: "decides_reversal d tx dec tx'" and k: "tx_kind tx = Refund \<or> tx_kind tx = Rollback"
    and p: "dc_kind dec = DecisionProcess"
  shows "undo_ready tx' d \<and> posts (kind_string (tx_kind tx')) (direction_string (dc_direction dec)) \<and> dc_movesFunds dec"
  using dec
proof (cases rule: decides_reversalE)
  case absent
  then show ?thesis using p by (simp add: decision_pending_def)
next
  case (present row ref)
  have tx': "tx' = tx\<lparr>tx_referenceTransactionID := tx_id ref\<rparr>" "tx_id ref \<noteq> uuid_Nil"
    using present(1,4) p by (simp_all add: ResolveReference_Inr_iff)
  have st: "tx_status ref = Processed" "reversible tx ref" "\<not> already_reversed (tx_id ref) d"
    and dir: "\<exists>dir. reversalDirection (tx_kind tx) (tx_kind ref) = Some dir \<and> dec = decision_process dir"
    using present(1) p
    by (auto simp: reversal_decision_def decision_pending_def decision_reject_def
        split: status.splits option.splits if_splits)
  then obtain dir where dir: "reversalDirection (tx_kind tx) (tx_kind ref) = Some dir" "dec = decision_process dir" by blast
  note row = toDomain_row [OF present(3)]
  have mem: "row \<in> set (db_tx d)"
    using present(2) by (auto simp: find_operation_def find_Some_iff in_set_conv_nth)
  have valid: "Kind_IsValid (tx_kind ref)" using toDomain_valid [OF present(3)] by simp
  have "undo_ready tx' d"
    unfolding undo_ready_def
    using reversalDirection_posts [OF dir(1) k] row mem st tx' valid
    by (intro impI bexI [of _ row]) (auto simp: row_core_def reversible_def kind_string_inject)
  then show ?thesis
    using reversalDirection_posts [OF dir(1) k] dir(2) tx' by (simp add: decision_process_def)
qed

lemma decides_frame:
  assumes "decides d tx w dec tx'"
  shows "\<exists>i. tx' = tx\<lparr>tx_referenceTransactionID := i\<rparr>"
proof -
  have self: "\<exists>i. tx = tx\<lparr>tx_referenceTransactionID := i\<rparr>"
    by (rule exI [of _ "tx_referenceTransactionID tx"]) simp
  show ?thesis
    using assms
    by (cases rule: decidesE) (auto elim!: decides_reversalE simp: ResolveReference_Inr_iff
        split: if_splits intro: self)
qed

lemma decides_ready:
  assumes "decides d tx w dec tx'" and "dc_kind dec = DecisionProcess"
  shows "undo_ready tx' d \<and> (dc_movesFunds dec \<longrightarrow> posts (kind_string (tx_kind tx')) (direction_string (dc_direction dec)))
    \<and> (\<not> dc_movesFunds dec \<longrightarrow> tx_kind tx' = Loss)"
  using assms(1)
proof (cases rule: decidesE)
  case reversal
  then show ?thesis using decides_reversal_ready assms(2) by blast
next
  case win
  then have "tx_kind tx' = Win" using decides_frame [OF assms(1)] by auto
  then show ?thesis using win by (simp add: undo_ready_def decision_process_def posts_def)
qed (use assms(2) in \<open>auto simp: undo_ready_def decision_process_def decision_reject_def decision_still_def posts_def\<close>)

text \<open>A settlement whose decision is ready keeps the books.\<close>

lemma Status_valid_outcomes [simp]:
  "Status_IsValid Processed" "Status_IsValid Rejected" "Status_IsValid Failed" "Status_IsValid PendingReference"
  by simp_all

lemma books_settles:
  assumes books: "books d" and st: "settles E S tx w dec now d d' out" and ok': "schema_ok d'"
    and at: "wallet_at d (tx_walletID tx) w" and valid: "Kind_IsValid (tx_kind tx)"
    and saves: "\<And>t d'. tx_frozen t = tx_frozen tx \<Longrightarrow> S t d d' \<Longrightarrow> \<exists>r'. replaced t r' d d'"
    and ready: "dc_kind dec = DecisionProcess \<Longrightarrow> undo_ready tx d
      \<and> (dc_movesFunds dec \<longrightarrow> posts (kind_string (tx_kind tx)) (direction_string (dc_direction dec)))
      \<and> (\<not> dc_movesFunds dec \<longrightarrow> tx_kind tx = Loss)"
  shows "books d'"
  using st
proof (cases rule: settlesE)
  case (pended t)
  show ?thesis
    by (rule books_still [OF books pended(4) saves ok'])
      (use pended in \<open>auto simp: MarkPendingReference_Inr_iff tx_frozen_def Kind_RequiresReference_def\<close>)
next
  case (rejected t)
  show ?thesis
    by (rule books_still [OF books rejected(4) saves ok'])
      (use rejected in \<open>auto simp: MarkRejected_Inr_iff tx_frozen_def\<close>)
next
  case (refused err t)
  show ?thesis
    by (rule books_still [OF books refused(7) saves ok'])
      (use refused in \<open>auto simp: MarkRejected_Inr_iff tx_frozen_def\<close>)
next
  case (still t)
  show ?thesis
    by (rule books_still [OF books still(5) saves ok'])
      (use still ready in \<open>auto simp: MarkProcessed_Inr_iff tx_frozen_def\<close>)
next
  case (moved w' t)
  have t: "t = tx\<lparr>tx_status := Processed, tx_updatedAt := now, tx_resultingBalance := wlt_balance w',
              tx_hasResultingBalance := True\<rparr>"
    using moved(5) by (simp add: MarkProcessed_Inr_iff)
  show ?thesis
    by (rule books_moved [OF books moved(6) saves ok', where tm = now])
      (use moved ready at valid t in \<open>simp_all add: undo_ready_def tx_frozen_def\<close>)
qed

end
