(* ===== verification/Opening.thy ===== *)
theory Opening
  imports OpenWallet Settlement
begin

text \<open>
  The abstract specification of \<open>OpenWallet.Execute\<close>: what a successful call stores.
\<close>

definition new_wallet_of :: "open_command \<Rightarrow> uuid \<Rightarrow> time \<Rightarrow> new_wallet_params" where
  "new_wallet_of cmd i now = \<lparr>nw_ID = i, nw_PlayerID = oc_PlayerID cmd,
     nw_Currency = moneyCurrency (oc_InitialBalance cmd), nw_InitialBalance = oc_InitialBalance cmd, nw_Now = now\<rparr>"

inductive open_spec :: "env \<Rightarrow> open_command \<Rightarrow> time \<Rightarrow> db \<Rightarrow> db \<Rightarrow> wallet \<Rightarrow> bool" for E cmd now d where
  unfunded: "NewWallet (new_wallet_of cmd i now) = Inr w \<Longrightarrow> insert_wallet (wallet_to_row w) t d = Inr ((), d')
    \<Longrightarrow> Money_IsZero (oc_InitialBalance cmd) \<Longrightarrow> open_spec E cmd now d d' w"
| funded: "NewWallet (new_wallet_of cmd i now) = Inr w \<Longrightarrow> insert_wallet (wallet_to_row w) t d = Inr ((), d1)
    \<Longrightarrow> \<not> Money_IsZero (oc_InitialBalance cmd)
    \<Longrightarrow> NewOpening \<lparr>no_ID = oid, no_WalletID = wlt_id w, no_PlayerID = wlt_playerID w,
          no_Money = wlt_balance w, no_Now = now\<rparr> = Inr funding
    \<Longrightarrow> tx_inserted funding d1 d2
    \<Longrightarrow> NewWalletLedgerEntry \<lparr>nl_ID = lid, nl_WalletID = wlt_id w, nl_TransactionID = tx_id funding,
          nl_Direction = Credit, nl_Amount = wlt_balance w, nl_BalanceBefore = money_Zero (wlt_currency w),
          nl_Now = now\<rparr> = Inr entry
    \<Longrightarrow> NewMovement \<lparr>mp_TransactionID = tx_id funding, mp_From = PlatformFunding,
          mp_To = WalletAccount E (wlt_id w), mp_Amount = wlt_balance w, mp_Now = now\<rparr> i1 i2 = Inr es
    \<Longrightarrow> map or_event_type [o1, o2] = [''WagerTransactionProcessed'', ''WalletBalanceChanged'']
    \<Longrightarrow> d' = d2\<lparr>db_ledger := db_ledger d2 @ [ledger_to_row entry],
          db_journal := db_journal d2 @ map journal_to_row es, db_outbox := db_outbox d2 @ [o1, o2]\<rparr>
    \<Longrightarrow> open_spec E cmd now d d' w"

inductive_cases open_specE [consumes 1, case_names unfunded funded]: "open_spec E cmd now d d' w"

lemma open_wallet_body_run:
  assumes "open_wallet_body E cmd now x = (Inr w, x')"
  shows "open_spec E cmd now (wd_db x) (wd_db x') w"
proof -
  obtain x1 where ex: "walletRepo_ExistsForPlayerCurrency E Tx (oc_PlayerID cmd) (moneyCurrency (oc_InitialBalance cmd)) x
      = (Inr False, x1)"
    and rest: "bindP (new_uuid E) (\<lambda>wid.
        bindP (wrapP ''building wallet'' (liftR (NewWallet (new_wallet_of cmd wid now)))) (\<lambda>w.
        bindP (tryP (walletRepo_Insert E Tx w)) (\<lambda>r. case r of
          Inl err \<Rightarrow>
            if errors_Is err (AppErr ErrWalletAlreadyExists) then failP (AppErr ErrWalletAlreadyExists)
            else failP (WrapErr ''inserting wallet'' err)
        | Inr _ \<Rightarrow>
            if Money_IsZero (oc_InitialBalance cmd) then retP w
            else bindP (recordOpeningCredit E w (oc_CorrelationID cmd) now) (\<lambda>_. retP w)))) x1 = (Inr w, x')"
    using assms by (auto simp: open_wallet_body_def new_wallet_of_def Let_def run_simps split: if_splits)
  have x1: "wd_db x1 = wd_db x" by (rule read_onlyD [OF read_only_reads(2) ex])
  obtain v x2 r where nw: "NewWallet (new_wallet_of cmd (fresh_uuid E (wd_uuids x1)) now) = Inr v"
    and ins: "walletRepo_Insert E Tx v (x1\<lparr>wd_uuids := Suc (wd_uuids x1)\<rparr>) = (r, x2)"
    and rest2: "(case r of
          Inl err \<Rightarrow>
            if errors_Is err (AppErr ErrWalletAlreadyExists) then failP (AppErr ErrWalletAlreadyExists)
            else failP (WrapErr ''inserting wallet'' err)
        | Inr _ \<Rightarrow>
            if Money_IsZero (oc_InitialBalance cmd) then retP v
            else bindP (recordOpeningCredit E v (oc_CorrelationID cmd) now) (\<lambda>_. retP v)) x2 = (Inr w, x')"
    using rest by (auto simp: run_simps simp del: errors_Is_sentinels)
  then obtain u where "r = Inr u" by (cases r) (auto simp: failP_def split: if_splits)
  with ins obtain t where ins': "insert_wallet (wallet_to_row v) t (wd_db x) = Inr ((), wd_db x2)"
    using x1 by (auto elim!: walletRepo_Insert_run)
  have v: "v = w" using rest2 \<open>r = Inr u\<close> by (auto simp: run_simps split: if_splits)
  show ?thesis
  proof (cases "Money_IsZero (oc_InitialBalance cmd)")
    case True
    then have "x' = x2" using rest2 \<open>r = Inr u\<close> by (simp add: run_simps)
    then show ?thesis using nw ins' True v by (auto intro: open_spec.unfunded)
  next
    case False
    then have rc: "recordOpeningCredit E w (oc_CorrelationID cmd) now x2 = (Inr (), x')"
      using rest2 \<open>r = Inr u\<close> v by (simp add: run_simps)
    from rc obtain oid funding x3 lid entry x4 es x5 i processed j changed i1 i2 u1 u2 u3 u4
      where op: "NewOpening \<lparr>no_ID = oid, no_WalletID = wlt_id w, no_PlayerID = wlt_playerID w,
          no_Money = wlt_balance w, no_Now = now\<rparr> = Inr funding"
        and ti: "transactionRepo_Insert E Tx funding (x2\<lparr>wd_uuids := Suc (wd_uuids x2)\<rparr>) = (Inr u1, x3)"
        and le: "NewWalletLedgerEntry \<lparr>nl_ID = lid, nl_WalletID = wlt_id w, nl_TransactionID = tx_id funding,
          nl_Direction = Credit, nl_Amount = wlt_balance w, nl_BalanceBefore = money_Zero (wlt_currency w),
          nl_Now = now\<rparr> = Inr entry"
        and li: "ledgerRepo_Insert E Tx entry (x3\<lparr>wd_uuids := Suc (wd_uuids x3)\<rparr>) = (Inr u2, x4)"
        and mv: "NewMovement \<lparr>mp_TransactionID = tx_id funding, mp_From = PlatformFunding,
          mp_To = WalletAccount E (wlt_id w), mp_Amount = wlt_balance w, mp_Now = now\<rparr> i1 i2 = Inr es"
        and ji: "journalRepo_Insert E Tx es (x4\<lparr>wd_uuids := Suc (Suc (wd_uuids x4))\<rparr>) = (Inr u3, x5)"
        and e1: "NewWagerTransactionProcessed E i funding (wlt_balance w)
          \<lparr>mt_CorrelationID = oc_CorrelationID cmd, mt_CausationID = None, mt_OccurredAt = now\<rparr> = Inr processed"
        and e2: "NewWalletBalanceChanged E j entry (wlt_version w)
          \<lparr>mt_CorrelationID = oc_CorrelationID cmd, mt_CausationID = Some (tx_id funding), mt_OccurredAt = now\<rparr> = Inr changed"
        and oi: "outboxRepo_Insert E Tx [processed, changed] (x5\<lparr>wd_uuids := Suc (Suc (wd_uuids x5))\<rparr>) = (Inr u4, x')"
      by (auto simp: recordOpeningCredit_def run_simps simp del: outboxRepo_Insert.simps)
    obtain t1 where ti': "insert_tx (tx_to_row funding t1) t1 (wd_db x2) = Inr ((), wd_db x3)"
      using transactionRepo_Insert_run [OF ti] by auto
    obtain t2 where li': "insert_ledger (ledger_to_row entry) t2 (wd_db x3) = Inr ((), wd_db x4)"
      using ledgerRepo_Insert_run [OF li] by auto
    obtain a b where ob: "wd_db x' = (wd_db x5)\<lparr>db_outbox := db_outbox (wd_db x5)
        @ [outbox_to_row E processed a, outbox_to_row E changed b]\<rparr>"
      using outbox_two_run [OF oi] by auto
    have d': "wd_db x' = (wd_db x3)\<lparr>db_ledger := db_ledger (wd_db x3) @ [ledger_to_row entry],
          db_journal := db_journal (wd_db x3) @ map journal_to_row es,
          db_outbox := db_outbox (wd_db x3) @ [outbox_to_row E processed a, outbox_to_row E changed b]\<rparr>"
      using li' journalRepo_Insert_run [OF ji] ob by (simp add: insert_ledger_Inr)
    have sv: "tx_inserted funding (wd_db x2) (wd_db x3)" using ti' by (auto simp: tx_inserted_def)
    have ty: "map or_event_type [outbox_to_row E processed a, outbox_to_row E changed b]
        = [''WagerTransactionProcessed'', ''WalletBalanceChanged'']"
      by (simp add: outbox_row_fields new_event_types(1) [OF e1] new_event_types(4) [OF e2])
    show ?thesis
      by (rule open_spec.funded [OF nw [unfolded v] ins' [unfolded v] False op sv le mv ty d'])
  qed
qed

end
