(* ===== verification/UseCases.thy ===== *)
theory UseCases
  imports Books Opening
begin

text \<open>
  Every use case keeps the books: the specifications of \<open>Outcome\<close> and \<open>Opening\<close>, those of the
  two background jobs, which this theory states, and the proofs that each of their steps takes
  tables with correct books to tables with correct books.
\<close>

section \<open>Processing a wager\<close>

text \<open>The books do not look at the journal, the inbox or the outbox.\<close>

lemma books_frame:
  assumes "books d" "schema_ok d'" "db_wallet d' = db_wallet d" "db_tx d' = db_tx d" "db_ledger d' = db_ledger d"
  shows "books d'"
  using assms
  by (simp add: books_def balances_ok_def ledger_balance_def ledger_of_def posted_ok_def reversals_ok_def pending_ok_def)

lemma inbox_recorded_schema: "inbox_recorded cmd i now d d' \<Longrightarrow> schema_ok d' \<Longrightarrow> schema_ok d"
  by (auto simp: inbox_recorded_def schema_ok_def table_ok_defs tx_foreign_keys_ok split: if_splits)

lemma books_inbox: "books d \<Longrightarrow> inbox_recorded cmd i now d d' \<Longrightarrow> schema_ok d' \<Longrightarrow> books d'"
  by (rule books_frame [of d]) (auto simp: inbox_recorded_def split: if_splits)

lemma wager_spec_books:
  assumes spec: "wager_spec E cmd now d d' out" and books: "books d" and ok': "schema_ok d'"
  shows "books d'"
  using spec
proof (cases rule: wager_specE)
  case (fresh w i tx dec tx' d1)
  have new: "tx_walletID tx = pc_WalletID cmd" "Kind_IsValid (tx_kind tx)"
    using NewExternal_fields [OF fresh(6)] NewExternal_wf [OF fresh(6)]
    by (simp_all add: external_params_def Kind_IsValid_def Kind_IsValidExternal_def)
  obtain j where tx': "tx' = tx\<lparr>tx_referenceTransactionID := j\<rparr>" using decides_frame [OF fresh(7)] by blast
  have ok1: "schema_ok d1" by (rule inbox_recorded_schema [OF fresh(9) ok'])
  have "books d1"
  proof (rule books_settles [OF books fresh(8) ok1])
    show "wallet_at d (tx_walletID tx') w" using fresh(1) new tx' by simp
    show "Kind_IsValid (tx_kind tx')" using new tx' by simp
    show "\<exists>r'. replaced t r' d e" if "tx_inserted t d e" for t e
      using that by (blast elim: inserted_replaced)
    show "undo_ready tx' d \<and> (dc_movesFunds dec \<longrightarrow> posts (kind_string (tx_kind tx')) (direction_string (dc_direction dec)))
      \<and> (\<not> dc_movesFunds dec \<longrightarrow> tx_kind tx' = Loss)" if "dc_kind dec = DecisionProcess"
      by (rule decides_ready [OF fresh(7) that])
  qed
  then show ?thesis using books_inbox fresh(9) ok' by blast
qed (use books books_inbox ok' in blast)+

section \<open>Opening a wallet\<close>

text \<open>A wallet that is about to be inserted has no ledger: the foreign key of the ledger rows.\<close>

lemma fresh_ledger_empty:
  assumes "schema_ok d" "\<forall>w \<in> set (db_wallet d). wr_id w \<noteq> i"
  shows "ledger_of i d = []"
proof -
  have "lr_wallet_id l \<noteq> i" if "l \<in> set (db_ledger d)" for l
    using assms that by (force simp: schema_ok_def ledger_table_ok_def)
  then show ?thesis by (simp add: ledger_of_def filter_empty_conv)
qed

lemma balances_ok_opened:
  assumes "balances_ok d" "schema_ok d" "\<forall>w \<in> set (db_wallet d). wr_id w \<noteq> wr_id row"
    and "db_wallet d' = db_wallet d @ [row]" "db_ledger d' = db_ledger d @ ls"
    and "\<forall>l \<in> set ls. lr_wallet_id l = wr_id row" "sint (wr_balance_minor_units row) = sum_list (map row_signed ls)"
  shows "balances_ok d'"
proof -
  have own: "ledger_of (wr_id row) d' = ls"
    using fresh_ledger_empty [OF assms(2,3)] assms(5,6) by (simp add: ledger_of_def filter_id_conv)
  have other: "ledger_of i d' = ledger_of i d" if "i \<noteq> wr_id row" for i
    using that assms(5,6) by (simp add: ledger_of_def filter_empty_conv)
  show ?thesis
    unfolding balances_ok_def
  proof
    fix w assume "w \<in> set (db_wallet d')"
    then consider "w = row" | "w \<in> set (db_wallet d)" using assms(4) by auto
    then show "sint (wr_balance_minor_units w) = ledger_balance d' (wr_id w)"
    proof cases
      case 1
      then show ?thesis using own assms(7) by (simp add: ledger_balance_def)
    next
      case 2
      then have "wr_id w \<noteq> wr_id row" using assms(3) by simp
      then show ?thesis using 2 other assms(1) by (simp add: balances_ok_def ledger_balance_def)
    qed
  qed
qed

lemma open_spec_books:
  assumes spec: "open_spec E cmd now d d' w" and books: "books d" and ok': "schema_ok d'"
  shows "books d'"
  using spec
proof (cases rule: open_specE)
  case (unfunded i t)
  have row: "wr_id (wallet_to_row w) = wlt_id w" "wr_balance_minor_units (wallet_to_row w) = minorUnits (wlt_balance w)"
    by (simp_all add: wallet_to_row_def)
  have ins: "d' = d\<lparr>db_wallet := db_wallet d @ [wallet_to_row w]\<rparr>"
    and new: "\<forall>x \<in> set (db_wallet d). wr_id x \<noteq> wr_id (wallet_to_row w)"
    using unfunded(2) by (simp_all add: insert_wallet_Inr)
  have "minorUnits (wlt_balance w) = 0"
    using unfunded(1,3) by (auto simp: NewWallet_def new_wallet_of_def Money_IsZero_def split: if_splits)
  then have "balances_ok d'"
    using balances_ok_opened [OF _ _ new, of d' "[]"] books ins row by (simp add: books_def)
  then show ?thesis
    using books ok' ins by (simp add: books_def posted_ok_def reversals_ok_def pending_ok_def)
next
  case (funded i t d1 oid funding d2 lid entry i1 i2 es o1 o2)
  have row: "wr_id (wallet_to_row w) = wlt_id w" "wr_balance_minor_units (wallet_to_row w) = minorUnits (wlt_balance w)"
    by (simp_all add: wallet_to_row_def)
  have ins: "d1 = d\<lparr>db_wallet := db_wallet d @ [wallet_to_row w]\<rparr>"
    and new: "\<forall>x \<in> set (db_wallet d). wr_id x \<noteq> wr_id (wallet_to_row w)"
    using funded(3) by (simp_all add: insert_wallet_Inr)
  note entry = row_signed_entry [OF funded(7), simplified]
  obtain r' where rep1: "replaced funding r' d1 d2" using funded(6) by (rule inserted_replaced)
  obtain txs where d2: "d2 = d1\<lparr>db_tx := txs\<rparr>" using save_insert.saved_db [OF funded(6)] by blast
  have tabs: "db_wallet d' = db_wallet d @ [wallet_to_row w]" "db_ledger d' = db_ledger d @ [ledger_to_row entry]"
    "db_tx d' = db_tx d2" "db_tx d1 = db_tx d"
    using funded(1) ins d2 by simp_all
  then have rep: "replaced funding r' d d'" using rep1 by (simp add: replaced_def)
  have fund: "tx_kind funding = Opening" "tx_status funding = Processed" "tx_walletID funding = wlt_id w"
    "tx_money funding = wlt_balance w"
    using funded(5) by (auto simp: NewOpening_def split: if_splits)
  have r': "tr_kind r' = ''OPENING''" "tr_status r' = ''PROCESSED''"
    using rep fund by (simp_all add: replaced_def row_for_def row_core_def)
  have "balances_ok d'"
    using balances_ok_opened [OF _ _ new tabs(1,2)] books entry row
    by (simp add: books_def money_minor_def)
  moreover have "posted_by r' (ledger_to_row entry)"
    using rep entry fund by (auto simp: replaced_def row_for_def row_core_def posted_by_def posts_def)
  with books have "posted_ok d'" using posted_ok_posting [OF rep _ _ tabs(2)] by (simp add: books_def)
  moreover have "reversals_ok d'"
    using reversals_ok_saved [OF rep] books r' by (simp add: books_def processed_reversal_def)
  moreover have "pending_ok d'" using pending_ok_saved [OF rep] books r' by (simp add: books_def)
  ultimately show ?thesis using ok' by (simp add: books_def)
qed

section \<open>Resolving references\<close>

text \<open>What one pass over a pending reversal may do, and what recording its failure may do.\<close>

definition stored_tx :: "db \<Rightarrow> uuid \<Rightarrow> wager_tx \<Rightarrow> bool" where
  "stored_tx d i t \<longleftrightarrow> (\<exists>row. find (\<lambda>r. tr_id r = i) (db_tx d) = Some row \<and> toDomain row = Inr t)"

definition exhausted :: "reference_policy \<Rightarrow> pending_record \<Rightarrow> time \<Rightarrow> bool" where
  "exhausted p rec now \<longleftrightarrow> rp_MaxAttempts p \<le> pr_Attempts rec + 1
     \<or> rp_TTL p \<le>s time_Sub now (pr_FirstSeenAt rec)"

inductive reference_spec ::
  "env \<Rightarrow> reference_policy \<Rightarrow> pending_record \<Rightarrow> time \<Rightarrow> db \<Rightarrow> db \<Rightarrow> bool \<Rightarrow> bool"
  for E p rec now d
where
  gone: "stored_tx d (tx_id (pr_Transaction rec)) t \<Longrightarrow> tx_status t \<noteq> PendingReference
    \<Longrightarrow> reference_spec E p rec now d d False"
| waiting: "stored_tx d (tx_id (pr_Transaction rec)) t \<Longrightarrow> tx_status t = PendingReference
    \<Longrightarrow> wallet_at d (tx_walletID t) w \<Longrightarrow> decides_reversal d t dec t1
    \<Longrightarrow> dc_kind dec = DecisionPendingReference \<Longrightarrow> \<not> exhausted p rec now
    \<Longrightarrow> update_reference_attempt (tx_id t) (pr_Attempts rec + 1)
          (time_Add now (ReferencePolicy_backoffFor p (pr_Attempts rec + 1))) s d = Inr (n, d')
    \<Longrightarrow> reference_spec E p rec now d d' False"
| expired: "stored_tx d (tx_id (pr_Transaction rec)) t \<Longrightarrow> tx_status t = PendingReference
    \<Longrightarrow> wallet_at d (tx_walletID t) w \<Longrightarrow> decides_reversal d t dec t1
    \<Longrightarrow> dc_kind dec = DecisionPendingReference \<Longrightarrow> exhausted p rec now
    \<Longrightarrow> MarkRejected t FailureReferenceNotFound now = Inr t'
    \<Longrightarrow> effect_still tx_updated t' ''WagerTransactionRejected'' d d'
    \<Longrightarrow> reference_spec E p rec now d d' True"
| resolved: "stored_tx d (tx_id (pr_Transaction rec)) t \<Longrightarrow> tx_status t = PendingReference
    \<Longrightarrow> wallet_at d (tx_walletID t) w \<Longrightarrow> decides_reversal d t dec t1
    \<Longrightarrow> dc_kind dec \<noteq> DecisionPendingReference
    \<Longrightarrow> settles E tx_updated t1 w dec now d d' out
    \<Longrightarrow> reference_spec E p rec now d d' True"

inductive_cases reference_specE [consumes 1, case_names gone waiting expired resolved]:
  "reference_spec E p rec now d d' moved"

lemma GetByID_stored:
  assumes "transactionRepo_GetByID E q i x = (Inr t, x')"
  shows "stored_tx (wd_db x) i t \<and> wd_db x' = wd_db x"
  by (rule GetByID_run [OF assms]) (auto simp: stored_tx_def)

lemma decision_pending_frame:
  "decides_reversal d t dec t1 \<Longrightarrow> dc_kind dec = DecisionPendingReference \<Longrightarrow> t1 = t"
  by (auto elim!: decides_reversalE split: if_splits)

lemma RecordReferenceAttempt_run:
  assumes "transactionRepo_RecordReferenceAttempt E q i a tm x = (Inr u, x')"
  obtains s n where "update_reference_attempt i a tm s (wd_db x) = Inr (n, wd_db x')"
  using assms
  by (auto simp: transactionRepo_RecordReferenceAttempt_def run_simps int4_arg_def split: if_splits elim!: sql_run_db)

lemma settle_one_body_run:
  assumes run: "settle_one_body E p rec now x = (Inr moved, x')"
  shows "reference_spec E p rec now (wd_db x) (wd_db x') moved"
proof -
  obtain t x1 where get: "transactionRepo_GetByID E Tx (tx_id (pr_Transaction rec)) x = (Inr t, x1)"
    using run by (auto simp: settle_one_body_def run_simps)
  have st: "stored_tx (wd_db x) (tx_id (pr_Transaction rec)) t" and x1: "wd_db x1 = wd_db x"
    using GetByID_stored [OF get] by simp_all
  show ?thesis
  proof (cases "tx_status t = PendingReference")
    case False
    then have "x' = x1" "\<not> moved" using run get by (simp_all add: settle_one_body_def run_simps)
    then show ?thesis using reference_spec.gone [OF st False] x1 by simp
  next
    case True
    let ?meta = "\<lambda>c. \<lparr>mt_CorrelationID = c, mt_CausationID = None, mt_OccurredAt = now\<rparr>"
      and ?a = "pr_Attempts rec + 1"
    obtain w x2 dec t1 x3 where gw: "walletRepo_GetForUpdate E Tx (tx_walletID t) x1 = (Inr w, x2)"
      and de: "decideReversal E Tx t x2 = (Inr (dec, t1), x3)"
      and rest: "(if dc_kind dec = DecisionPendingReference then
         (if \<not> exhausted p rec now then
               bindP (transactionRepo_RecordReferenceAttempt E Tx (tx_id t1) ?a
                 (time_Add now (ReferencePolicy_backoffFor p ?a))) (\<lambda>_. retP False)
             else
               bindP (reject E Tx t1 w FailureReferenceNotFound (?meta (fresh_uuid E (wd_uuids x3))) now
                 (transactionRepo_Update E Tx)) (\<lambda>_. retP True))
       else
         bindP (settle E Tx t1 w dec (?meta (fresh_uuid E (wd_uuids x3))) now (transactionRepo_Update E Tx))
           (\<lambda>_. retP True)) (x3\<lparr>wd_uuids := Suc (wd_uuids x3)\<rparr>) = (Inr moved, x')"
      using run get True by (auto simp: settle_one_body_def [unfolded Let_def, folded exhausted_def] run_simps)
    have at: "wallet_at (wd_db x) (tx_walletID t) w" and x2: "wd_db x2 = wd_db x"
      using gw x1 by (auto simp: wallet_at_def elim!: walletRepo_GetForUpdate_run)
    have dr: "decides_reversal (wd_db x) t dec t1" and x3: "wd_db x3 = wd_db x"
      using decideReversal_run [OF de] x2 by simp_all
    show ?thesis
    proof (cases "dc_kind dec = DecisionPendingReference")
      case False
      with rest obtain out x4 where "settle E Tx t1 w dec (?meta (fresh_uuid E (wd_uuids x3))) now
          (transactionRepo_Update E Tx) (x3\<lparr>wd_uuids := Suc (wd_uuids x3)\<rparr>) = (Inr out, x4)" "moved" "x' = x4"
        by (auto simp: run_simps)
      then show ?thesis
        using reference_spec.resolved [OF st True at dr False] save_update.settle_run x3 by fastforce
    next
      case pend: True
      note t1 = decision_pending_frame [OF dr pend]
      show ?thesis
      proof (cases "exhausted p rec now")
        case False
        with rest pend t1 have rec: "transactionRepo_RecordReferenceAttempt E Tx (tx_id t) ?a
            (time_Add now (ReferencePolicy_backoffFor p ?a)) (x3\<lparr>wd_uuids := Suc (wd_uuids x3)\<rparr>) = (Inr (), x')"
          and "\<not> moved" by (auto simp: run_simps)
        then show ?thesis using x3
          by (auto elim!: RecordReferenceAttempt_run intro: reference_spec.waiting [OF st True at dr pend False])
      next
        case ex: True
        with rest pend t1 obtain out x4 where "reject E Tx t w FailureReferenceNotFound
            (?meta (fresh_uuid E (wd_uuids x3))) now (transactionRepo_Update E Tx)
            (x3\<lparr>wd_uuids := Suc (wd_uuids x3)\<rparr>) = (Inr out, x4)" "moved" "x' = x4"
          by (auto simp: run_simps)
        then show ?thesis using x3
          by (auto elim!: save_update.reject_run intro: reference_spec.expired [OF st True at dr pend ex])
      qed
    qed
  qed
qed

text \<open>The stored transaction agrees with its row, and so does every transaction made from it.\<close>

lemma stored_tx_agrees:
  assumes st: "stored_tx d i t" and ok: "schema_ok d" and fr: "tx_frozen t' = tx_frozen t"
  shows "agrees t' d"
proof -
  obtain row where row: "row \<in> set (db_tx d)" "tr_id row = i" "toDomain row = Inr t"
    using st by (auto simp: stored_tx_def find_Some_iff in_set_conv_nth)
  have core: "tx_id t' = tx_id t \<and> tx_walletID t' = tx_walletID t \<and> tx_playerID t' = tx_playerID t
      \<and> tx_kind t' = tx_kind t \<and> tx_money t' = tx_money t"
    using fr by (cases t; cases t') (simp add: tx_frozen_def)
  have uniq: "unique_by (\<lambda>a b. tr_id a = tr_id b) (db_tx d)"
    using ok by (simp add: schema_ok_def tx_table_ok_def)
  have "r = row" if "r \<in> set (db_tx d)" "tr_id r = tx_id t'" for r
    using unique_byD [OF uniq that(1) row(1)] that(2) core toDomain_row [OF row(3)] by simp
  then show ?thesis
    unfolding agrees_def using toDomain_row [OF row(3)] core by (auto simp: row_core_def)
qed

lemma stored_tx_saves:
  assumes "stored_tx d i t" "schema_ok d" "tx_frozen t' = tx_frozen t" "tx_updated t' d d'"
  shows "\<exists>r'. replaced t' r' d d'"
  using updated_replaced [OF assms(4,2) stored_tx_agrees [OF assms(1-3)]] by blast

lemma books_attempt:
  assumes books: "books d" and upd: "update_reference_attempt i a tm s d = Inr (n, d')" and ok': "schema_ok d'"
  shows "books d'"
proof -
  define g :: "tx_row \<Rightarrow> tx_row" where "g r = (if tr_id r = i \<and> tr_status r = ''PENDING_REFERENCE''
    then r\<lparr>tr_reference_attempts := a, tr_reference_next_attempt_at := timestamptz tm\<rparr> else r)" for r
  have d': "d' = d\<lparr>db_tx := map g (db_tx d)\<rparr>"
    using upd by (simp add: update_reference_attempt_def update_tx_rows_Inr g_def)
  have g: "tr_id (g r) = tr_id r" "tr_kind (g r) = tr_kind r" "tr_status (g r) = tr_status r"
    "tr_wallet_id (g r) = tr_wallet_id r" "tr_amount_minor_units (g r) = tr_amount_minor_units r"
    "tr_currency (g r) = tr_currency r" "tr_reference_transaction_id (g r) = tr_reference_transaction_id r" for r
    by (simp_all add: g_def)
  have tx: "db_tx d' = map g (db_tx d)" "db_wallet d' = db_wallet d" "db_ledger d' = db_ledger d"
    by (simp_all add: d')
  have "balances_ok d'" using books by (simp add: books_def balances_ok_def ledger_balance_def ledger_of_def tx)
  moreover have "posted_ok d'" using books by (simp add: books_def posted_ok_def posted_by_def moves_funds_def tx g)
  moreover have "pending_ok d'" using books by (simp add: books_def pending_ok_def tx g)
  moreover have "reversals_ok d'"
    unfolding reversals_ok_def
  proof (intro ballI impI conjI)
    fix x assume "x \<in> set (db_tx d')" "processed_reversal x"
    then obtain x0 where x0: "x = g x0" "x0 \<in> set (db_tx d)" "processed_reversal x0"
      by (auto simp: tx processed_reversal_def g)
    then obtain r where "r \<in> set (db_tx d)" "undoes x0 r" using books by (auto simp: books_def reversals_ok_def)
    then show "\<exists>r \<in> set (db_tx d'). undoes x r" using x0(1) by (auto simp: tx undoes_def g)
    fix y assume "y \<in> set (db_tx d')" "processed_reversal y"
      and ref: "tr_reference_transaction_id y = tr_reference_transaction_id x"
    then obtain y0 where y0: "y = g y0" "y0 \<in> set (db_tx d)" "processed_reversal y0"
      by (auto simp: tx processed_reversal_def g)
    moreover have "tr_reference_transaction_id y0 = tr_reference_transaction_id x0"
      using ref by (simp add: x0(1) y0(1) g)
    moreover have "reversals_ok d" using books by (simp add: books_def)
    ultimately have "y0 = x0" using x0 unfolding reversals_ok_def by blast
    then show "y = x" using x0(1) y0(1) by simp
  qed
  ultimately show ?thesis using ok' by (simp add: books_def)
qed

text \<open>Only reversals are pending, so what is stored as pending is one.\<close>

lemma stored_pending_reversal:
  assumes "stored_tx d i t" "tx_status t = PendingReference" "books d"
  shows "tx_kind t = Refund \<or> tx_kind t = Rollback"
proof -
  obtain row where row: "row \<in> set (db_tx d)" "toDomain row = Inr t"
    using assms(1) by (auto simp: stored_tx_def find_Some_iff in_set_conv_nth)
  have "tr_kind row \<in> {''REFUND'', ''ROLLBACK''}"
    using assms(2,3) row toDomain_row [OF row(2)] by (auto simp: books_def pending_ok_def)
  then show ?thesis
    using toDomain_row [OF row(2)] toDomain_valid [OF row(2)] by (auto simp: row_core_def kind_string_inject)
qed

lemma reference_spec_books:
  assumes spec: "reference_spec E p rec now d d' moved" and books: "books d" and ok': "schema_ok d'"
  shows "books d'"
proof -
  have ok: "schema_ok d" using books by (simp add: books_def)
  show ?thesis
    using spec
  proof (cases rule: reference_specE)
    case (waiting t w dec t1 s n)
    then show ?thesis using books_attempt [OF books _ ok'] by blast
  next
    case (expired t w dec t1 t')
    have t': "tx_frozen t' = tx_frozen t" "tx_status t' = Rejected"
      using expired by (auto simp: MarkRejected_Inr_iff tx_frozen_def)
    show ?thesis
      by (rule books_still [OF books expired(9) stored_tx_saves [OF expired(2) ok t'(1)] ok']) (simp_all add: t')
  next
    case (resolved t w dec t1 out)
    have k: "tx_kind t = Refund \<or> tx_kind t = Rollback"
      by (rule stored_pending_reversal [OF resolved(2,3) books])
    obtain j where t1: "t1 = t\<lparr>tx_referenceTransactionID := j\<rparr>"
      using decides_frame [OF decides.reversal [where w = "w\<lparr>wlt_currency := moneyCurrency (tx_money t)\<rparr>", OF _ k resolved(5)]]
      by auto
    show ?thesis
    proof (rule books_settles [OF books resolved(7) ok'])
      show "wallet_at d (tx_walletID t1) w" using resolved(4) t1 by simp
      show "Kind_IsValid (tx_kind t1)" using k t1 by (auto simp: Kind_IsValid_def)
      show "\<exists>r'. replaced u r' d e" if "tx_frozen u = tx_frozen t1" "tx_updated u d e" for u e
        using stored_tx_saves [OF resolved(2) ok _ that(2)] that(1) t1 by (simp add: tx_frozen_def)
      show "undo_ready t1 d \<and> (dc_movesFunds dec \<longrightarrow> posts (kind_string (tx_kind t1)) (direction_string (dc_direction dec)))
        \<and> (\<not> dc_movesFunds dec \<longrightarrow> tx_kind t1 = Loss)" if "dc_kind dec = DecisionProcess"
        using decides_reversal_ready [OF resolved(5) k that] by simp
    qed
  qed (use books in simp)
qed

section \<open>Recording a permanent failure\<close>

inductive failure_spec :: "pending_record \<Rightarrow> time \<Rightarrow> db \<Rightarrow> db \<Rightarrow> bool \<Rightarrow> bool" for rec now d where
  kept: "stored_tx d (tx_id (pr_Transaction rec)) t \<Longrightarrow> tx_status t \<noteq> PendingReference
    \<Longrightarrow> failure_spec rec now d d False"
| failed: "stored_tx d (tx_id (pr_Transaction rec)) t \<Longrightarrow> tx_status t = PendingReference
    \<Longrightarrow> MarkFailed t FailureInfrastructure now = Inr t'
    \<Longrightarrow> effect_still tx_updated t' ''WagerTransactionRejected'' d d'
    \<Longrightarrow> failure_spec rec now d d' True"

inductive_cases failure_specE [consumes 1, case_names kept failed]: "failure_spec rec now d d' recorded"

lemma permanent_failure_body_run:
  assumes run: "permanent_failure_body E rec now x = (Inr recorded, x')"
  shows "failure_spec rec now (wd_db x) (wd_db x') recorded"
proof -
  obtain t x1 where get: "transactionRepo_GetByID E Tx (tx_id (pr_Transaction rec)) x = (Inr t, x1)"
    using run by (auto simp: permanent_failure_body_def run_simps)
  have st: "stored_tx (wd_db x) (tx_id (pr_Transaction rec)) t" and x1: "wd_db x1 = wd_db x"
    using GetByID_stored [OF get] by simp_all
  show ?thesis
  proof (cases "tx_status t = PendingReference")
    case False
    then have "x' = x1" "\<not> recorded" using run get by (simp_all add: permanent_failure_body_def run_simps)
    then show ?thesis using failure_spec.kept [OF st False] x1 by simp
  next
    case True
    then obtain t' x2 evt u v c i where mf: "MarkFailed t FailureInfrastructure now = Inr t'"
      and up: "transactionRepo_Update E Tx t' x1 = (Inr u, x2)"
      and ev: "NewWagerTransactionRejected E i t' \<lparr>mt_CorrelationID = c, mt_CausationID = None, mt_OccurredAt = now\<rparr> = Inr evt"
      and oi: "outboxRepo_Insert E Tx [evt] (x2\<lparr>wd_uuids := Suc (Suc (wd_uuids x2))\<rparr>) = (Inr v, x')" and "recorded"
      using run get by (auto simp: permanent_failure_body_def run_simps simp del: outboxRepo_Insert.simps)
    obtain trace where
      "wd_db x' = (wd_db x2)\<lparr>db_outbox := db_outbox (wd_db x2) @ [outbox_to_row E evt trace]\<rparr>"
      using outbox_one_run [OF oi] by auto
    from save_update.effect_stillI [OF save_update.saved [OF up] this]
    have "effect_still tx_updated t' ''WagerTransactionRejected'' (wd_db x) (wd_db x')"
      using x1 by (simp add: outbox_row_fields new_event_types(2) [OF ev])
    then show ?thesis using failure_spec.failed [OF st True mf] \<open>recorded\<close> by simp
  qed
qed

lemma failure_spec_books:
  assumes spec: "failure_spec rec now d d' recorded" and books: "books d" and ok': "schema_ok d'"
  shows "books d'"
  using spec
proof (cases rule: failure_specE)
  case (failed t t')
  have ok: "schema_ok d" using books by (simp add: books_def)
  have t': "tx_frozen t' = tx_frozen t" "tx_status t' = Failed"
    using failed by (auto simp: MarkFailed_Inr_iff tx_frozen_def)
  show ?thesis
    by (rule books_still [OF books failed(5) stored_tx_saves [OF failed(2) ok t'(1)] ok']) (simp_all add: t')
qed (use books in simp)

end
