(* ===== verification/Posting.thy ===== *)
theory Posting
  imports UseCases
begin

text \<open>
  How money is posted: every use case appends at most one ledger row, together with the two journal
  rows that mirror it (\<open>posting\<close>). Three facts about the tables follow: the ledger of a wallet is a
  chain of balances, the journal account of a wallet holds what its ledger holds, and the journal
  of every transaction balances.
\<close>

definition wallet_account :: "(uuid \<Rightarrow> string) \<Rightarrow> uuid \<Rightarrow> account" where
  "wallet_account S i = ''WALLET:'' @ S i"

definition external_account :: "account \<Rightarrow> bool" where
  "external_account a \<longleftrightarrow> take 7 a \<noteq> ''WALLET:''"

lemma accounts_apart [simp]:
  "WalletAccount E i = wallet_account (uuid_String E) i"
  "external_account (ProviderAccount p)" "external_account PlatformFunding"
  "external_account a \<Longrightarrow> a \<noteq> wallet_account S i"
  by (auto simp: WalletAccount_def wallet_account_def ProviderAccount_def PlatformFunding_def external_account_def)

text \<open>The journal rows \<open>js\<close> mirror the ledger row \<open>l\<close>.\<close>

definition mirrors :: "(uuid \<Rightarrow> string) \<Rightarrow> ledger_row \<Rightarrow> journal_row list \<Rightarrow> bool" where
  "mirrors S l js \<longleftrightarrow> (\<exists>dr cr. js = [dr, cr]
     \<and> jr_direction dr = ''DEBIT'' \<and> jr_direction cr = ''CREDIT''
     \<and> jr_amount_minor_units dr = lr_amount_minor_units l \<and> jr_amount_minor_units cr = lr_amount_minor_units l
     \<and> jr_transaction_id dr = lr_transaction_id l \<and> jr_transaction_id cr = lr_transaction_id l
     \<and> (if lr_direction l = ''CREDIT''
        then jr_account cr = wallet_account S (lr_wallet_id l) \<and> external_account (jr_account dr)
        else jr_account dr = wallet_account S (lr_wallet_id l) \<and> external_account (jr_account cr)))"

definition posting :: "(uuid \<Rightarrow> string) \<Rightarrow> db \<Rightarrow> db \<Rightarrow> bool" where
  "posting S d d' \<longleftrightarrow>
     db_ledger d' = db_ledger d \<and> db_journal d' = db_journal d
     \<or> (\<exists>l js. db_ledger d' = db_ledger d @ [l] \<and> db_journal d' = db_journal d @ js \<and> mirrors S l js
          \<and> lr_direction l \<in> {''DEBIT'', ''CREDIT''}
          \<and> sint (lr_balance_before_minor_units l) = ledger_balance d (lr_wallet_id l)
          \<and> sint (lr_balance_after_minor_units l) = sint (lr_balance_before_minor_units l) + row_signed l)"

lemma posting_none: "db_ledger d' = db_ledger d \<Longrightarrow> db_journal d' = db_journal d \<Longrightarrow> posting S d d'"
  by (simp add: posting_def)

text \<open>A ledger entry and a movement made from the same transaction post together.\<close>

lemma entry_row:
  assumes "NewWalletLedgerEntry p = Inr entry" "nl_Direction p \<in> {Debit, Credit}"
  shows "lr_direction (ledger_to_row entry) \<in> {''DEBIT'', ''CREDIT''}"
    and "sint (lr_balance_before_minor_units (ledger_to_row entry)) = money_minor (nl_BalanceBefore p)"
    and "sint (lr_balance_after_minor_units (ledger_to_row entry)) =
      sint (lr_balance_before_minor_units (ledger_to_row entry)) + row_signed (ledger_to_row entry)"
  using assms NewWalletLedgerEntry_wf [OF assms(1)] row_signed_entry [OF assms]
  by (auto simp: NewWalletLedgerEntry_def bindR_Inr_iff ledger_to_row_def le_wf_def le_effect_def
      money_minor_def row_signed_def split: if_splits)

lemma posting_entry:
  assumes le: "NewWalletLedgerEntry p = Inr entry" "nl_Direction p \<in> {Debit, Credit}"
    and mv: "NewMovement m i1 i2 = Inr es" "mp_TransactionID m = nl_TransactionID p" "mp_Amount m = nl_Amount p"
    and acc: "nl_Direction p = Debit \<Longrightarrow> mp_From m = wallet_account S (nl_WalletID p) \<and> external_account (mp_To m)"
      "nl_Direction p = Credit \<Longrightarrow> mp_To m = wallet_account S (nl_WalletID p) \<and> external_account (mp_From m)"
    and before: "money_minor (nl_BalanceBefore p) = ledger_balance d (nl_WalletID p)"
    and d': "db_ledger d' = db_ledger d @ [ledger_to_row entry]" "db_journal d' = db_journal d @ map journal_to_row es"
  shows "posting S d d'"
proof -
  note row = row_signed_entry [OF le]
  have "mirrors S (ledger_to_row entry) (map journal_to_row es)"
    using le(2) acc row(2-5) mv(2,3) NewMovement_Inr(1) [OF mv(1)]
    by (auto simp: mirrors_def journal_to_row_def)
  then show ?thesis
    using d' entry_row [OF le] row(2) before by (auto simp: posting_def)
qed

lemma effect_moved_posting:
  assumes eff: "effect_moved E S t w w' dir now d d'" and books: "books d"
    and at: "wallet_at d (tx_walletID t) w" and mv: "applyMovement w dir (tx_money t) tm = Inr w'"
  shows "posting (uuid_String E) d d'"
proof -
  obtain entry es o1 o2 i1 i2 lid where
      le: "NewWalletLedgerEntry \<lparr>nl_ID = lid, nl_WalletID = wlt_id w', nl_TransactionID = tx_id t,
         nl_Direction = dir, nl_Amount = tx_money t, nl_BalanceBefore = wlt_balance w, nl_Now = now\<rparr> = Inr entry"
    and nm: "NewMovement \<lparr>mp_TransactionID = tx_id t, mp_From = fst (movement_accounts E t dir),
         mp_To = snd (movement_accounts E t dir), mp_Amount = tx_money t, mp_Now = now\<rparr> i1 i2 = Inr es"
    and d': "d' = d\<lparr>db_tx := db_tx d', db_wallet := db_wallet d', db_ledger := db_ledger d @ [ledger_to_row entry],
         db_journal := db_journal d @ map journal_to_row es, db_outbox := db_outbox d @ [o1, o2]\<rparr>"
    using eff unfolding effect_moved_def by blast
  obtain row where row: "row \<in> set (db_wallet d)" "wr_id row = tx_walletID t" "wallet_of_row row = Inr w"
    using at by (rule wallet_atD)
  note fields = wallet_of_row_fields [OF row(3)]
  have w': "wlt_id w' = tx_walletID t" "dir \<in> {Debit, Credit}"
    using applyMovement_Inr [OF mv] fields row(2) by simp_all
  have "sint (wr_balance_minor_units row) = ledger_balance d (wr_id row)"
    using books row(1) by (simp add: books_def balances_ok_def)
  then have bal: "money_minor (wlt_balance w) = ledger_balance d (tx_walletID t)"
    using fields row(2) by (simp add: wallet_minor_def money_minor_def)
  have led: "db_ledger d' = db_ledger d @ [ledger_to_row entry]" and jou: "db_journal d' = db_journal d @ map journal_to_row es"
    by (subst d', simp)+
  show ?thesis
    by (rule posting_entry [OF le _ nm _ _ _ _ _ led jou])
      (use w' bal in \<open>auto simp: movement_accounts_def\<close>)
qed

lemma effect_still_posting: "effect_still S t ev d d' \<Longrightarrow> posting R d d'"
  unfolding effect_still_def by (elim exE conjE, rule posting_none) (metis (no_types, lifting)
      db.select_convs db.surjective db.update_convs)+

lemma settles_posting:
  assumes st: "settles E R tx w dec now d d' out" and books: "books d" and at: "wallet_at d (tx_walletID tx) w"
  shows "posting (uuid_String E) d d'"
  using st
proof (cases rule: settlesE)
  case (moved w' t)
  then have "tx_walletID t = tx_walletID tx" "tx_money t = tx_money tx" by (auto simp: MarkProcessed_Inr_iff)
  then show ?thesis using effect_moved_posting [OF moved(6) books, where tm = now] moved(4) at by simp
qed (auto intro: effect_still_posting)

lemma posting_tables:
  "posting R d d' \<Longrightarrow> db_ledger e = db_ledger d' \<Longrightarrow> db_journal e = db_journal d' \<Longrightarrow> posting R d e"
  by (simp add: posting_def)

lemma wager_spec_posting:
  assumes spec: "wager_spec E cmd now d d' out" and books: "books d"
  shows "posting (uuid_String E) d d'"
  using spec
proof (cases rule: wager_specE)
  case (fresh w i tx dec tx' d1)
  have "tx_walletID tx' = pc_WalletID cmd"
    using NewExternal_fields [OF fresh(6)] decides_frame [OF fresh(7)] by (auto simp: external_params_def)
  then have "posting (uuid_String E) d d1" using settles_posting [OF fresh(8) books] fresh(1) by simp
  then show ?thesis
    by (rule posting_tables) (use fresh(9) in \<open>auto simp: inbox_recorded_def split: if_splits\<close>)
qed (auto intro!: posting_none simp: inbox_recorded_def split: if_splits)

lemma open_spec_posting:
  assumes spec: "open_spec E cmd now d d' w" and books: "books d"
  shows "posting (uuid_String E) d d'"
  using spec
proof (cases rule: open_specE)
  case (unfunded i t)
  then show ?thesis by (auto simp: insert_wallet_Inr intro: posting_none)
next
  case (funded i t d1 oid funding d2 lid entry i1 i2 es o1 o2)
  have d1: "d1 = d\<lparr>db_wallet := db_wallet d @ [wallet_to_row w]\<rparr>"
    and new: "\<forall>x \<in> set (db_wallet d). wr_id x \<noteq> wlt_id w"
    using funded(3) by (simp_all add: insert_wallet_Inr wallet_to_row_def)
  obtain txs where d2: "d2 = d1\<lparr>db_tx := txs\<rparr>" using save_insert.saved_db [OF funded(6)] by blast
  have tabs: "db_ledger d' = db_ledger d @ [ledger_to_row entry]" "db_journal d' = db_journal d @ map journal_to_row es"
    using funded(1) d1 d2 by simp_all
  have "ledger_of (wlt_id w) d = []" using fresh_ledger_empty [OF _ new] books by (simp add: books_def)
  then have "ledger_balance d (wlt_id w) = 0" by (simp add: ledger_balance_def)
  then show ?thesis
    by (intro posting_entry [OF funded(7) _ funded(8) _ _ _ _ _ tabs]) (simp_all add: money_Zero_def money_minor_def)
qed

lemma reference_spec_posting:
  assumes spec: "reference_spec E p rec now d d' moved" and books: "books d"
  shows "posting (uuid_String E) d d'"
  using spec
proof (cases rule: reference_specE)
  case (waiting t w dec t1 s n)
  then show ?thesis
    by (auto simp: update_reference_attempt_def update_tx_rows_Inr intro: posting_none)
next
  case (resolved t w dec t1 out)
  have "tx_walletID t1 = tx_walletID t"
    using resolved(5) by (auto elim!: decides_reversalE simp: ResolveReference_Inr_iff split: if_splits)
  then show ?thesis using settles_posting [OF resolved(7) books] resolved(4) by simp
qed (auto intro: effect_still_posting posting_none)

section \<open>What postings keep\<close>

text \<open>Each ledger row starts from the balance the one before it ended with.\<close>

fun chained :: "int \<Rightarrow> ledger_row list \<Rightarrow> bool" where
  "chained b [] = True"
| "chained b (l # ls) \<longleftrightarrow> sint (lr_balance_before_minor_units l) = b
     \<and> chained (sint (lr_balance_after_minor_units l)) ls"

definition rows_math :: "ledger_row list \<Rightarrow> bool" where
  "rows_math ls \<longleftrightarrow> (\<forall>l \<in> set ls. sint (lr_balance_after_minor_units l)
     = sint (lr_balance_before_minor_units l) + row_signed l)"

lemma chained_snoc:
  "rows_math ls \<Longrightarrow> chained b (ls @ [l]) \<longleftrightarrow> chained b ls
     \<and> sint (lr_balance_before_minor_units l) = b + sum_list (map row_signed ls)"
  by (induction ls arbitrary: b) (auto simp: rows_math_def)

definition ledger_chained :: "db \<Rightarrow> bool" where
  "ledger_chained d \<longleftrightarrow> (\<forall>i. rows_math (ledger_of i d) \<and> chained 0 (ledger_of i d))"

definition account_balance :: "account \<Rightarrow> db \<Rightarrow> int" where
  "account_balance a d = journal_sum (filter (\<lambda>r. jr_account r = a) (db_journal d))"

text \<open>The journal account of every wallet holds what its ledger holds.\<close>

definition accounts_ok :: "(uuid \<Rightarrow> string) \<Rightarrow> db \<Rightarrow> bool" where
  "accounts_ok S d \<longleftrightarrow> (\<forall>i. account_balance (wallet_account S i) d = ledger_balance d i)"

definition journal_balanced :: "db \<Rightarrow> bool" where
  "journal_balanced d \<longleftrightarrow> (\<forall>i. journal_sum (journal_of i d) = 0)"

definition posted_books :: "(uuid \<Rightarrow> string) \<Rightarrow> db \<Rightarrow> bool" where
  "posted_books S d \<longleftrightarrow> ledger_chained d \<and> accounts_ok S d \<and> journal_balanced d"

lemma journal_sum_append [simp]: "journal_sum (xs @ ys) = journal_sum xs + journal_sum ys"
  by (simp add: journal_sum_def)

lemma mirrors_sums:
  assumes "mirrors S l js" "inj S" "lr_direction l \<in> {''DEBIT'', ''CREDIT''}"
  shows "journal_sum (filter (\<lambda>r. jr_account r = wallet_account S i) js) = (if lr_wallet_id l = i then row_signed l else 0)"
    and "journal_sum (filter (\<lambda>r. jr_transaction_id r = k) js) = 0"
  using assms
  by (auto simp: mirrors_def journal_sum_def jr_signed_def row_signed_def wallet_account_def external_account_def
      dest: injD split: if_splits)

lemma posting_keeps:
  assumes post: "posting S d d'" and inv: "posted_books S d" and inj: "inj S"
  shows "posted_books S d'"
  using post unfolding posting_def
proof (elim disjE exE conjE)
  assume same: "db_ledger d' = db_ledger d" "db_journal d' = db_journal d"
  then show ?thesis
    using inv by (simp add: posted_books_def ledger_chained_def accounts_ok_def journal_balanced_def
        account_balance_def ledger_balance_def ledger_of_def journal_of_def)
next
  fix l js
  assume led: "db_ledger d' = db_ledger d @ [l]" and jou: "db_journal d' = db_journal d @ js"
    and mir: "mirrors S l js" and dir: "lr_direction l \<in> {''DEBIT'', ''CREDIT''}"
    and before: "sint (lr_balance_before_minor_units l) = ledger_balance d (lr_wallet_id l)"
    and math: "sint (lr_balance_after_minor_units l) = sint (lr_balance_before_minor_units l) + row_signed l"
  note sums = mirrors_sums [OF mir inj dir]
  have of_l: "ledger_of i d' = ledger_of i d @ (if lr_wallet_id l = i then [l] else [])" for i
    by (simp add: ledger_of_def led)
  have "rows_math (ledger_of i d') \<and> chained 0 (ledger_of i d')" for i
    using inv before math chained_snoc [of "ledger_of i d" 0 l]
    by (auto simp: of_l posted_books_def ledger_chained_def rows_math_def ledger_balance_def)
  moreover have "accounts_ok S d'"
    using inv sums(1) by (auto simp: posted_books_def accounts_ok_def account_balance_def jou ledger_balance_snoc [OF led])
  moreover have "journal_balanced d'"
    using inv sums(2) by (simp add: posted_books_def journal_balanced_def journal_of_def jou)
  ultimately show ?thesis by (simp add: posted_books_def ledger_chained_def)
qed

lemma posted_books_empty [simp]: "posted_books S empty_db"
  by (simp add: posted_books_def ledger_chained_def accounts_ok_def journal_balanced_def account_balance_def
      ledger_balance_def ledger_of_def journal_of_def journal_sum_def empty_db_def rows_math_def)

text \<open>When the rows of every transaction balance, so does the whole journal.\<close>

lemma journal_sum_by_transaction:
  "(\<And>i. journal_sum (filter (\<lambda>r. jr_transaction_id r = i) rs) = 0) \<Longrightarrow> journal_sum rs = 0"
proof (induction "length rs" arbitrary: rs rule: less_induct)
  case less
  show ?case
  proof (cases rs)
    case (Cons r rest)
    let ?own = "filter (\<lambda>x. jr_transaction_id x = jr_transaction_id r) rs"
      and ?rest = "filter (\<lambda>x. jr_transaction_id x \<noteq> jr_transaction_id r) rs"
    have split: "journal_sum rs = journal_sum ?own + journal_sum ?rest"
      by (induction rs) (auto simp: journal_sum_def)
    have "length ?rest < length rs" using Cons by (auto simp: le_imp_less_Suc)
    moreover have "journal_sum (filter (\<lambda>x. jr_transaction_id x = i) ?rest) = 0" for i
    proof (cases "i = jr_transaction_id r")
      case True
      then have "filter (\<lambda>x. jr_transaction_id x = i) ?rest = []" by (auto simp: filter_empty_conv)
      then show ?thesis by (simp add: journal_sum_def)
    next
      case False
      then have "filter (\<lambda>x. jr_transaction_id x = i) ?rest = filter (\<lambda>x. jr_transaction_id x = i) rs"
        by (auto intro!: filter_cong)
      then show ?thesis using less(2) by simp
    qed
    ultimately have "journal_sum ?rest = 0" using less(1) by blast
    then show ?thesis using split less(2) by simp
  qed (simp add: journal_sum_def)
qed

lemma journal_balanced_total: "journal_balanced d \<Longrightarrow> journal_sum (db_journal d) = 0"
  by (rule journal_sum_by_transaction) (simp add: journal_balanced_def journal_of_def)

end
