(* ===== verification/Queries.thy ===== *)
theory Queries
  imports Runs
begin

text \<open>
  \<open>internal/app/identity.go\<close> and \<open>internal/app/queries.go\<close>: who may ask, the reads, and the
  reconciliation of a wallet with its ledger. \<open>GetLedger\<close>, which pages with a cursor, is not here.
\<close>

record identity =
  id_ProviderID :: string
  id_Internal :: bool

definition MayActAsProvider :: "identity \<Rightarrow> string \<Rightarrow> bool" where
  "MayActAsProvider i providerID \<longleftrightarrow>
     (if id_Internal i then True else id_ProviderID i \<noteq> [] \<and> id_ProviderID i = providerID)"

definition MayUseWalletOperations :: "identity \<Rightarrow> bool" where
  "MayUseWalletOperations i \<longleftrightarrow> id_Internal i"

definition Queries_GetWallet :: "env \<Rightarrow> identity \<Rightarrow> uuid \<Rightarrow> wallet prog" where
  "Queries_GetWallet E i walletID =
     (if \<not> MayUseWalletOperations i then failP (AppErr ErrForbidden) else walletRepo_Get E Pool walletID)"

definition Queries_GetTransaction :: "env \<Rightarrow> identity \<Rightarrow> uuid \<Rightarrow> wager_tx prog" where
  "Queries_GetTransaction E i transactionID =
     bindP (transactionRepo_GetByID E Pool transactionID) (\<lambda>tx.
     if \<not> MayActAsProvider i (tx_providerID tx) then failP (AppErr ErrNotFound) else retP tx)"

definition Queries_GetProviderTransaction :: "env \<Rightarrow> identity \<Rightarrow> string \<Rightarrow> string \<Rightarrow> wager_tx prog" where
  "Queries_GetProviderTransaction E i providerID externalID =
     (if \<not> MayActAsProvider i providerID then failP (AppErr ErrNotFound)
      else transactionRepo_GetByProviderExternalID E Pool providerID externalID)"

record reconcile_result =
  rr_WalletID :: uuid
  rr_StoredBalance :: money
  rr_CalculatedBalance :: money
  rr_Difference :: money
  rr_Consistent :: bool
  rr_CheckedEntries :: int

text \<open>The transaction of \<open>Reconcile\<close> takes no lock, and at READ COMMITTED each statement reads what was committed
  when it starts: its second read sees the tables as other transactions have left them in the
  meantime, \<open>later d\<close> where the first saw \<open>d\<close>. It writes nothing, so the tables that it leaves are, as
  far as it is concerned, those it found.\<close>

definition at_snapshot :: "(db \<Rightarrow> db) \<Rightarrow> 'a prog \<Rightarrow> 'a prog" where
  "at_snapshot later f w =
     (case f (w\<lparr>wd_db := later (wd_db w)\<rparr>) of (r, w') \<Rightarrow> (r, w'\<lparr>wd_db := wd_db w\<rparr>))"

definition reconcile_body :: "env \<Rightarrow> (db \<Rightarrow> db) \<Rightarrow> uuid \<Rightarrow> reconcile_result prog" where
  "reconcile_body E later walletID =
     bindP (walletRepo_Get E Tx walletID) (\<lambda>w.
     bindP (wrapP ''summing ledger'' (at_snapshot later (ledgerRepo_Totals E Tx walletID))) (\<lambda>(credits, debits, entries).
     let calculated = FromMinorUnits (credits - debits) (wlt_currency w) in
     bindP (wrapP ''computing difference'' (liftR (Money_Sub (wlt_balance w) calculated))) (\<lambda>difference.
     retP \<lparr>rr_WalletID = walletID, rr_StoredBalance = wlt_balance w, rr_CalculatedBalance = calculated,
           rr_Difference = difference, rr_Consistent = Money_IsZero difference, rr_CheckedEntries = entries\<rparr>)))"

definition Queries_Reconcile :: "env \<Rightarrow> (db \<Rightarrow> db) \<Rightarrow> identity \<Rightarrow> uuid \<Rightarrow> reconcile_result prog" where
  "Queries_Reconcile E later i walletID =
     (if \<not> MayUseWalletOperations i then failP (AppErr ErrForbidden)
      else within E (reconcile_body E later walletID))"

lemma at_snapshot_run [run_simps]:
  "at_snapshot later f w = (Inr x, w') \<longleftrightarrow>
     (\<exists>w1. f (w\<lparr>wd_db := later (wd_db w)\<rparr>) = (Inr x, w1) \<and> w' = w1\<lparr>wd_db := wd_db w\<rparr>)"
  by (auto simp: at_snapshot_def split: prod.splits)

lemma keeps_at_snapshot [keeps_intros]: "keeps I (at_snapshot later f)"
  by (auto simp: keeps_def at_snapshot_def split: prod.splits)

end
