(* ===== verification/System.thy ===== *)
theory System
  imports Posting Queries
begin

text \<open>
  The whole service as a transition system. Its steps are the database transactions of the use
  cases and the background jobs, each run with any command, any stale record, any clock, any
  identifiers and any faults, in any order: what concurrent requests, several replicas and restarts
  can do to the tables, given that PostgreSQL runs conflicting transactions one after the other.
  \<open>S\<close> is the text of an identifier, the only thing the steps share.
\<close>

section \<open>Publishing only touches the outbox\<close>

definition only_outbox :: "db \<Rightarrow> db \<Rightarrow> bool" where
  "only_outbox d d' \<longleftrightarrow> (\<exists>os. d' = d\<lparr>db_outbox := os\<rparr>)"

lemma only_outbox_refl [simp]: "only_outbox d d"
  unfolding only_outbox_def by (rule exI [of _ "db_outbox d"]) simp

lemma keeps_only_outbox:
  "keeps (only_outbox d0) (sql E q (claim_outbox ow l un tm))"
  "keeps (only_outbox d0) (sql E q (update_published i tm))"
  "keeps (only_outbox d0) (sql E q (update_rescheduled i a tm))"
  by (rule keeps_sql; auto simp: only_outbox_def claim_outbox_def Let_def update_published_def
      update_rescheduled_def update_outbox_rows_def)+

lemma publishing_only_outbox:
  "keeps (only_outbox d0) (claim_batch E p owner now)" "keeps (only_outbox d0) (mark_record E p rec err)"
  unfolding claim_batch_def mark_record_def outboxRepo_OldestPending_def outboxRepo_Claim_def
    outboxRepo_Reschedule_def outboxRepo_MarkPublished_def
  by (intro keeps_intros keeps_only_outbox)+

lemma publishing_tables:
  assumes "claim_batch E p owner now w = (r1, w') \<or> mark_record E p rec err w = (r2, w')"
  shows "only_outbox (wd_db w) (wd_db w')"
  using assms keepsD [OF publishing_only_outbox(1)] keepsD [OF publishing_only_outbox(2)] only_outbox_refl by metis

section \<open>The steps\<close>

inductive transaction :: "(uuid \<Rightarrow> string) \<Rightarrow> db \<Rightarrow> db \<Rightarrow> bool" for S where
  opens: "uuid_String E = S \<Longrightarrow> within E (open_wallet_body E ocmd now) w = (r, w')
    \<Longrightarrow> transaction S (wd_db w) (wd_db w')"
| processes: "uuid_String E = S \<Longrightarrow> within E (execute_body E cmd now) w = (r, w')
    \<Longrightarrow> transaction S (wd_db w) (wd_db w')"
| claims_references: "uuid_String E = S \<Longrightarrow> claim_references E now w = (r, w')
    \<Longrightarrow> transaction S (wd_db w) (wd_db w')"
| settles_reference: "uuid_String E = S \<Longrightarrow> within E (settle_one_body E p rec now) w = (r, w')
    \<Longrightarrow> transaction S (wd_db w) (wd_db w')"
| fails_reference: "uuid_String E = S \<Longrightarrow> within E (permanent_failure_body E rec now) w = (r, w')
    \<Longrightarrow> transaction S (wd_db w) (wd_db w')"
| claims_batch: "uuid_String E = S \<Longrightarrow> claim_batch E pp owner now w = (r, w')
    \<Longrightarrow> transaction S (wd_db w) (wd_db w')"
| marks: "uuid_String E = S \<Longrightarrow> mark_record E pp orec err w = (r, w')
    \<Longrightarrow> transaction S (wd_db w) (wd_db w')"
| reconciles: "uuid_String E = S \<Longrightarrow> within E (reconcile_body E later i) w = (r, w')
    \<Longrightarrow> transaction S (wd_db w) (wd_db w')"

inductive_cases transactionE [consumes 1,
  case_names opens processes claims_references settles_reference fails_reference claims_batch marks reconciles]:
  "transaction S d d'"

text \<open>Every step is made of statements, so it keeps what every statement keeps.\<close>

context statement_invariant
begin

lemma transaction_keeps:
  assumes "transaction S d d'" "I d"
  shows "I d'"
  using assms(1)
proof (cases rule: transactionE)
  case (opens E ocmd now w r w')
  have "keeps I (within E (open_wallet_body E ocmd now))"
    unfolding open_wallet_body_def recordOpeningCredit_def Let_def by (intro keeps_intros keeps_all)
  then show ?thesis using opens assms(2) keepsD by blast
next
  case (processes E cmd now w r w')
  then show ?thesis using assms(2) keepsD [OF keeps_within [OF keeps_execute_body]] by blast
next
  case (claims_references E now w r w')
  then show ?thesis using assms(2) keepsD [OF keeps_claim_references] by blast
next
  case (settles_reference E p rec now w r w')
  then show ?thesis using assms(2) keepsD [OF keeps_within [OF keeps_settle_one_body]] by blast
next
  case (fails_reference E rec now w r w')
  then show ?thesis using assms(2) keepsD [OF keeps_within [OF keeps_permanent_failure_body]] by blast
next
  case (claims_batch E pp owner now w r w')
  then show ?thesis using assms(2) keepsD [OF keeps_publishing(1)] by blast
next
  case (marks E pp orec err w r w')
  then show ?thesis using assms(2) keepsD [OF keeps_publishing(2)] by blast
next
  case (reconciles E later i w r w')
  have "keeps I (within E (reconcile_body E later i))"
    unfolding reconcile_body_def Let_def by (intro keeps_intros keeps_all)
  then show ?thesis using reconciles assms(2) keepsD by blast
qed

lemma transactions_keep: "(transaction S)\<^sup>*\<^sup>* d d' \<Longrightarrow> I d \<Longrightarrow> I d'"
  by (induction rule: rtranclp_induct) (auto intro: transaction_keeps)

end

section \<open>The abstract service\<close>

text \<open>The steps of the specifications of the use cases; publishing is any change of the outbox.\<close>

inductive service_step :: "(uuid \<Rightarrow> string) \<Rightarrow> db \<Rightarrow> db \<Rightarrow> bool" for S where
  idle: "service_step S d d"
| opened: "uuid_String E = S \<Longrightarrow> open_spec E ocmd now d d' wlt \<Longrightarrow> service_step S d d'"
| wagered: "uuid_String E = S \<Longrightarrow> wager_spec E cmd now d d' out \<Longrightarrow> service_step S d d'"
| resolved: "uuid_String E = S \<Longrightarrow> reference_spec E p rec now d d' moved \<Longrightarrow> service_step S d d'"
| failed: "failure_spec rec now d d' recorded \<Longrightarrow> service_step S d d'"
| published: "only_outbox d d' \<Longrightarrow> service_step S d d'"

lemma within_step:
  assumes run: "within E body w = (r, w')"
    and body: "\<And>x y z. body x = (Inr y, z) \<Longrightarrow> service_step S (wd_db x) (wd_db z)"
  shows "service_step S (wd_db w) (wd_db w')"
  using within_cases [OF run]
proof
  assume "stored E body w r (wd_db w')"
  then obtain y w1 w2 where "begin_tx E w = (Inr (), w1)" "body w1 = (Inr y, w2)" "wd_db w2 = wd_db w'"
    by (auto simp: stored_def)
  then show ?thesis using body [of w1 y w2] begin_tx_run_db by metis
qed (auto intro: service_step.idle)

lemma within_read_only_step:
  assumes "within E body w = (r, w')" "read_only body"
  shows "service_step S (wd_db w) (wd_db w')"
proof -
  have "service_step S (wd_db x) (wd_db z)" if "body x = (Inr y, z)" for x y z
    using read_onlyD [OF assms(2) that] by (simp add: service_step.idle)
  then show ?thesis by (rule within_step [OF assms(1)])
qed

text \<open>The detailed steps refine the abstract ones.\<close>

lemma transaction_refines:
  assumes "transaction S d d'"
  shows "service_step S d d'"
  using assms
proof (cases rule: transactionE)
  case (opens E ocmd now w r w')
  then show ?thesis
    using within_step [OF opens(4)] service_step.opened [OF opens(3)] open_wallet_body_run by metis
next
  case (processes E cmd now w r w')
  then show ?thesis
    using within_step [OF processes(4)] service_step.wagered [OF processes(3)] execute_body_run by metis
next
  case (claims_references E now w r w')
  have "read_only (bindP (transactionRepo_CountPendingReference E Tx) (\<lambda>backlog.
       transactionRepo_ClaimPendingReference E Tx batchSize now))"
    using read_only_reads(5,6) by (simp add: read_only_def keeps_bindP)
  then show ?thesis using claims_references within_read_only_step by (simp add: claim_references_def)
next
  case (settles_reference E p rec now w r w')
  then show ?thesis
    using within_step [OF settles_reference(4)] service_step.resolved [OF settles_reference(3)] settle_one_body_run by metis
next
  case (fails_reference E rec now w r w')
  then show ?thesis
    using within_step [OF fails_reference(4)] service_step.failed permanent_failure_body_run by metis
next
  case (claims_batch E pp owner now w r w')
  then show ?thesis using publishing_tables by (blast intro: service_step.published)
next
  case (marks E pp orec err w r w')
  then show ?thesis using publishing_tables by (blast intro: service_step.published)
next
  case (reconciles E later i w r w')
  have "read_only (reconcile_body E later i)"
    unfolding reconcile_body_def Let_def read_only_def
    using read_only_reads(1,7) by (intro allI keeps_intros) (auto simp: read_only_def walletRepo_Get_def)
  then show ?thesis using reconciles within_read_only_step by simp
qed

section \<open>Invariants\<close>

definition service_ok :: "(uuid \<Rightarrow> string) \<Rightarrow> db \<Rightarrow> bool" where
  "service_ok S d \<longleftrightarrow> books d \<and> posted_books S d"

lemma only_outbox_tables:
  "only_outbox d d' \<Longrightarrow> db_wallet d' = db_wallet d \<and> db_tx d' = db_tx d \<and> db_ledger d' = db_ledger d
     \<and> db_journal d' = db_journal d \<and> db_inbox d' = db_inbox d"
  by (auto simp: only_outbox_def)

lemma service_step_books:
  assumes "service_step S d d'" "books d" "schema_ok d'"
  shows "books d'"
  using assms(1)
proof cases
  case published
  then show ?thesis using books_frame [OF assms(2,3)] only_outbox_tables by blast
qed (auto simp: assms(2,3) intro: open_spec_books wager_spec_books reference_spec_books failure_spec_books)

lemma failure_spec_posting: "failure_spec rec now d d' recorded \<Longrightarrow> posting R d d'"
  by (erule failure_specE) (auto intro: posting_none effect_still_posting)

lemma service_step_posting:
  assumes "service_step S d d'" "books d"
  shows "posting S d d'"
  using assms(1)
proof cases
  case published
  then show ?thesis using only_outbox_tables by (blast intro: posting_none)
qed (auto simp: assms(2) dest: open_spec_posting wager_spec_posting reference_spec_posting
    failure_spec_posting intro: posting_none)

lemma transaction_service_ok:
  assumes tr: "transaction S d d'" and ok: "service_ok S d" and inj: "inj S"
  shows "service_ok S d'"
proof -
  have b: "books d" "posted_books S d" "schema_ok d" using ok by (simp_all add: service_ok_def books_def)
  have "schema_ok d'" by (rule schema.transaction_keeps [OF tr b(3)])
  then have "books d'" using service_step_books [OF transaction_refines [OF tr] b(1)] by simp
  moreover have "posted_books S d'"
    by (rule posting_keeps [OF service_step_posting [OF transaction_refines [OF tr] b(1)] b(2) inj])
  ultimately show ?thesis by (simp add: service_ok_def)
qed

lemma reachable_service_ok:
  assumes "(transaction S)\<^sup>*\<^sup>* d d'" "service_ok S d" "inj S"
  shows "service_ok S d'"
  using assms(1,2)
proof (induction rule: rtranclp_induct)
  case (step d1 d2)
  then show ?case using transaction_service_ok assms(3) by blast
qed simp

text \<open>The books need nothing of \<open>S\<close>.\<close>

lemma reachable_books: "(transaction S)\<^sup>*\<^sup>* d d' \<Longrightarrow> books d \<Longrightarrow> books d'"
proof (induction rule: rtranclp_induct)
  case (step d1 d2)
  then have "books d1" by blast
  moreover have "schema_ok d2" using schema.transaction_keeps [OF step(2)] calculation by (simp add: books_def)
  ultimately show ?case using service_step_books [OF transaction_refines [OF step(2)]] by blast
qed

lemma reachable_extends: "(transaction S)\<^sup>*\<^sup>* d d' \<Longrightarrow> db_extends d d'"
  by (erule history.transactions_keep) simp

section \<open>The use cases and jobs as sequences of transactions\<close>

abbreviation reaches :: "env \<Rightarrow> db \<Rightarrow> db \<Rightarrow> bool" where
  "reaches E \<equiv> (transaction (uuid_String E))\<^sup>*\<^sup>*"

lemma keeps_step:
  assumes "\<And>w r w'. f w = (r, w') \<Longrightarrow> transaction (uuid_String E) (wd_db w) (wd_db w')"
  shows "keeps (reaches E d0) f"
  using assms by (intro keepsI) (blast intro: rtranclp.rtrancl_into_rtrancl)

lemma keeps_reads: "read_only f \<Longrightarrow> keeps (reaches E d0) f"
  by (rule keepsI) (auto dest: read_onlyD)

lemma keeps_units:
  "keeps (reaches E d0) (within E (open_wallet_body E ocmd now))"
  "keeps (reaches E d0) (within E (execute_body E cmd now))"
  "keeps (reaches E d0) (claim_references E now)"
  "keeps (reaches E d0) (within E (settle_one_body E p rec now))"
  "keeps (reaches E d0) (within E (permanent_failure_body E rec now))"
  "keeps (reaches E d0) (claim_batch E pp owner now)"
  "keeps (reaches E d0) (mark_record E pp orec err)"
  by (rule keeps_step, blast intro: transaction.intros)+

lemma keeps_reaches_Execute: "keeps (reaches E d0) (ProcessWager_Execute E cmd)"
  unfolding ProcessWager_Execute_def or_else_def
  by (intro keeps_intros keeps_units keeps_reads read_only_fastReplay)

lemma keeps_reaches_OpenWallet: "keeps (reaches E d0) (OpenWallet_Execute E ocmd)"
  unfolding OpenWallet_Execute_def by (intro keeps_intros keeps_units)

lemma keeps_reaches_ResolveReferences: "keeps (reaches E d0) (ResolveReferences_RunOnce E p)"
  by (intro keeps_resolving keeps_units)

lemma keeps_reaches_PublishOutbox: "keeps (reaches E d0) (PublishOutbox_RunOnce E p pub owner)"
  by (intro keeps_RunOnce keeps_units)

end
