(* ===== verification/Demo.thy ===== *)
theory Demo
  imports System
begin

text \<open>
  Concrete runs in an environment where nothing fails (\<open>calm_env\<close>): a wallet is opened with 50.00
  BRL, a bet of 15.00 is placed and then refunded. They show that the use cases do succeed, and
  they are the inputs of the witnesses.
\<close>

section \<open>Evaluating runs\<close>

named_theorems eval_simps \<open>definitions that evaluate a concrete run\<close>

lemma calm_env_simps [simp]:
  "driver_fault calm_env n = None" "commit_result calm_env n = CommitOk" "ctx_Err calm_env n = None"
  "fresh_uuid calm_env n = of_nat (1000 + n)" "clock_Now calm_env n = 1000000" "pg_now calm_env n = 1000000"
  "traceparent calm_env n = []" "uuid_String calm_env u = show_nat (unat u)"
  by (simp_all add: calm_env_def)

lemma calm_inj: "inj (uuid_String calm_env)"
proof (rule injI)
  fix u v :: uuid assume "uuid_String calm_env u = uuid_String calm_env v"
  then have "digits_val (show_nat (unat u)) = digits_val (show_nat (unat v))" by simp
  then have "unat u = unat v" by simp
  then show "u = v" by (rule unsigned_word_eqI)
qed

lemma wallet_account_calm [simp]: "wallet_account (uuid_String calm_env) i = ''WALLET:'' @ show_nat (unat i)"
  by (simp add: wallet_account_def)

lemma timestamptz_million [simp]: "timestamptz 1000000 = 1000000"
  by (simp add: timestamptz_def)

declare bindP_def [eval_simps] tryP_def [eval_simps] wrapP_def [eval_simps] retP_def [eval_simps]
  failP_def [eval_simps] liftR_def [eval_simps] new_uuid_def [eval_simps] read_clock_def [eval_simps]
  ctx_err_def [eval_simps] within_def [eval_simps] run_tx_def [eval_simps] begin_tx_def [eval_simps]
  commit_def [eval_simps] sql_def [eval_simps] Let_def [eval_simps] query_def [eval_simps]
  start_world_def [eval_simps] or_else_def [eval_simps] found_or_absent_def [eval_simps]

declare walletRepo_ExistsForPlayerCurrency_def [eval_simps] walletRepo_Insert_def [eval_simps]
  wallet_to_row_def [eval_simps] insert_wallet_def [eval_simps] wallet_checks_def [eval_simps]
  walletRepo_GetForUpdate_def [eval_simps] walletRepo_get_def [eval_simps] select_wallet_def [eval_simps]
  wallet_of_row_def [eval_simps] RehydrateWallet_def [eval_simps] walletRepo_UpdateBalance_def [eval_simps]
  update_wallet_balance_def [eval_simps]
  currencyPattern_def [eval_simps] is_upper_def [eval_simps] int64_simps [eval_simps]
  transactionRepo_Insert_def [eval_simps] insert_tx_def [eval_simps] tx_to_row_def [eval_simps]
  tx_checks_def [eval_simps] tx_foreign_keys_def [eval_simps] same_key_def [eval_simps]
  transactionRepo_GetByIdempotencyKey_def [eval_simps] transactionRepo_GetByProviderExternalID_def [eval_simps]
  transactionRepo_HasSuccessfulReversal_def [eval_simps] is_successful_reversal_of_def [eval_simps]
  transactionRepo_scanOne_def [eval_simps] select_tx_def [eval_simps] toDomain_def [eval_simps]
  wagertx_Rehydrate_def [eval_simps] derefString_def [eval_simps]
  nullString_def [eval_simps] nullUUID_def [eval_simps] resultingBalanceArg_def [eval_simps]
  Tx_ResultingBalance_def [eval_simps]
  ledgerRepo_Insert_def [eval_simps] ledger_to_row_def [eval_simps] insert_ledger_def [eval_simps]
  ledger_checks_def [eval_simps] journal_to_row_def [eval_simps] insert_journal_def [eval_simps]
  journal_checks_def [eval_simps] journal_must_balance_def [eval_simps] journal_sum_def [eval_simps]
  jr_signed_def [eval_simps] insert_outbox_def [eval_simps] outbox_to_row_def [eval_simps]

declare NewWallet_def [eval_simps] Money_IsNegative_def [eval_simps] time_IsZero_def [eval_simps]
  Money_IsZero_def [eval_simps] NewOpening_def [eval_simps] Money_IsPositive_def [eval_simps]
  NewWalletLedgerEntry_def [eval_simps] NewMovement_def [eval_simps] bindR_def [eval_simps]
  new_event_defs [eval_simps] newEnvelope_def [eval_simps] money_Zero_def [eval_simps]
  Money_Add_def [eval_simps] Money_Sub_def [eval_simps] addInt64_def [eval_simps] subInt64_def [eval_simps] negateInt64_def [eval_simps] MinInt64_def [eval_simps]
  Money_Compare_def [eval_simps] Money_Equal_def [eval_simps] FromMinorUnits_def [eval_simps]
  PlatformFunding_def [eval_simps] ProviderAccount_def [eval_simps] sameCurrency_def [eval_simps]
  Wallet_Debit_def [eval_simps] Wallet_Credit_def [eval_simps]
  NewExternal_def [eval_simps] external_params_def [eval_simps] Kind_IsValidExternal_def [eval_simps]
  Kind_IsValid_def [eval_simps] Kind_RequiresReference_def [eval_simps] Kind_AllowsReference_def [eval_simps]
  Tx_IsTerminal_def [eval_simps] Status_IsTerminal_def [eval_simps]
  MarkProcessed_def [eval_simps] transitionTo_def [eval_simps] ResolveReference_def [eval_simps]
  kind_of_string_def [eval_simps] status_of_string_def [eval_simps] failure_of_string_def [eval_simps]
  AssertBalanced_def [eval_simps] journal_Balance_def [eval_simps] SignedMinorUnits_def [eval_simps]

declare OpenWallet_Execute_def [eval_simps] open_wallet_body_def [eval_simps] recordOpeningCredit_def [eval_simps]
  ProcessWager_Execute_def [eval_simps] fastReplay_def [eval_simps] execute_body_def [eval_simps]
  replayed_message_def [eval_simps] replayed_key_def [eval_simps] replayed_identity_def [eval_simps]
  execute_new_def [eval_simps] decide_def [eval_simps] decideReversal_def [eval_simps]
  reversalDirection_def [eval_simps] decision_process_def [eval_simps] settle_def [eval_simps]
  post_movement_def [eval_simps] recordDoubleEntry_def [eval_simps] recordInbox_def [eval_simps]
  replayResult_def [eval_simps]

section \<open>Opening\<close>

definition demo_open :: open_command where
  "demo_open = \<lparr>oc_PlayerID = 7, oc_InitialBalance = \<lparr>minorUnits = 5000, moneyCurrency = ''BRL''\<rparr>, oc_CorrelationID = 9\<rparr>"

definition demo_db1 :: db where
  "demo_db1 = wd_db (snd (OpenWallet_Execute calm_env demo_open (start_world empty_db)))"

lemma empty_db_simps [simp]:
  "db_wallet empty_db = []" "db_tx empty_db = []" "db_ledger empty_db = []" "db_journal empty_db = []"
  "db_inbox empty_db = []" "db_outbox empty_db = []"
  by (simp_all add: empty_db_def)

definition demo_wallet :: "int64 \<Rightarrow> int64 \<Rightarrow> wallet_row" where
  "demo_wallet balance version = \<lparr>wr_id = 1000, wr_player_id = 7, wr_currency = ''BRL'',
     wr_balance_minor_units = balance, wr_version = version, wr_created_at = 1000000, wr_updated_at = 1000000\<rparr>"

definition demo_tx :: "uuid \<Rightarrow> string \<Rightarrow> int64 \<Rightarrow> int64 \<Rightarrow> string option \<Rightarrow> string option \<Rightarrow> string option \<Rightarrow> uuid option \<Rightarrow> tx_row" where
  "demo_tx i k amount resulting p ext ref refid = \<lparr>tr_id = i, tr_wallet_id = 1000, tr_player_id = 7, tr_kind = k,
     tr_status = ''PROCESSED'', tr_amount_minor_units = amount, tr_currency = ''BRL'', tr_provider_id = p,
     tr_external_transaction_id = ext, tr_idempotency_key = ext, tr_payload_hash = map_option (\<lambda>_. ''h'') p,
     tr_round_id = map_option (\<lambda>_. ''r'') p, tr_game_id = map_option (\<lambda>_. ''g'') p,
     tr_reference_external_transaction_id = ref, tr_reference_transaction_id = refid,
     tr_failure_code = None, tr_resulting_balance_minor_units = Some resulting, tr_reference_attempts = 0,
     tr_reference_first_seen_at = 1000000, tr_reference_next_attempt_at = 1000000,
     tr_created_at = 1000000, tr_updated_at = 1000000\<rparr>"

definition demo_ledger :: "uuid \<Rightarrow> uuid \<Rightarrow> string \<Rightarrow> int64 \<Rightarrow> int64 \<Rightarrow> int64 \<Rightarrow> ledger_row" where
  "demo_ledger i t dir amount before after = \<lparr>lr_id = i, lr_wallet_id = 1000, lr_transaction_id = t,
     lr_direction = dir, lr_amount_minor_units = amount, lr_balance_before_minor_units = before,
     lr_balance_after_minor_units = after, lr_created_at = 1000000\<rparr>"

definition demo_journal :: "uuid \<Rightarrow> uuid \<Rightarrow> string \<Rightarrow> string \<Rightarrow> int64 \<Rightarrow> journal_row" where
  "demo_journal i t account dir amount = \<lparr>jr_id = i, jr_transaction_id = t, jr_account = account,
     jr_direction = dir, jr_amount_minor_units = amount, jr_currency = ''BRL'', jr_created_at = 1000000\<rparr>"

lemmas demo_rows = demo_wallet_def demo_tx_def demo_ledger_def demo_journal_def

lemma demo_db1_tables:
  "db_wallet demo_db1 = [demo_wallet 5000 1]"
  "db_tx demo_db1 = [demo_tx 1001 ''OPENING'' 5000 5000 None None None None]"
  "db_ledger demo_db1 = [demo_ledger 1002 1001 ''CREDIT'' 5000 0 5000]"
  "db_journal demo_db1 = [demo_journal 1003 1001 ''PLATFORM_FUNDING'' ''DEBIT'' 5000,
     demo_journal 1004 1001 (''WALLET:'' @ show_nat 1000) ''CREDIT'' 5000]"
  "db_inbox demo_db1 = []" "map or_event_id (db_outbox demo_db1) = [1005, 1006]"
  by (simp_all add: demo_db1_def demo_open_def demo_rows eval_simps)

section \<open>A bet\<close>

definition demo_bet :: process_command where
  "demo_bet = \<lparr>pc_ProviderID = ''acme'', pc_ExternalTransactionID = ''b1'', pc_IdempotencyKey = ''b1'',
     pc_PayloadHash = ''h'', pc_PlayerID = 7, pc_WalletID = 1000, pc_RoundID = ''r'', pc_GameID = ''g'',
     pc_Kind = Bet, pc_Money = \<lparr>minorUnits = 1500, moneyCurrency = ''BRL''\<rparr>,
     pc_ReferenceExternalTransactionID = [], pc_CorrelationID = 9, pc_ConsumerName = [], pc_MessageID = []\<rparr>"

definition demo_world :: "db \<Rightarrow> nat \<Rightarrow> world" where
  "demo_world d n = (start_world d)\<lparr>wd_uuids := n\<rparr>"

definition demo_db2 :: db where
  "demo_db2 = wd_db (snd (ProcessWager_Execute calm_env demo_bet (demo_world demo_db1 100)))"

lemma fresh_event:
  "map or_event_id (db_outbox d) = is \<Longrightarrow> (\<forall>x \<in> set (db_outbox d). or_event_id x \<noteq> i) \<longleftrightarrow> i \<notin> set is"
  by auto

lemmas fresh_event1 = fresh_event [OF demo_db1_tables(6)]

lemma demo_db2_tables:
  "db_wallet demo_db2 = [demo_wallet 3500 2]"
  "db_tx demo_db2 = [demo_tx 1001 ''OPENING'' 5000 5000 None None None None,
     demo_tx 1100 ''BET'' 1500 3500 (Some ''acme'') (Some ''b1'') None None]"
  "db_ledger demo_db2 = [demo_ledger 1002 1001 ''CREDIT'' 5000 0 5000, demo_ledger 1101 1100 ''DEBIT'' 1500 5000 3500]"
  "db_journal demo_db2 = [demo_journal 1003 1001 ''PLATFORM_FUNDING'' ''DEBIT'' 5000,
     demo_journal 1004 1001 (''WALLET:'' @ show_nat 1000) ''CREDIT'' 5000,
     demo_journal 1102 1100 (''WALLET:'' @ show_nat 1000) ''DEBIT'' 1500,
     demo_journal 1103 1100 ''PROVIDER:acme'' ''CREDIT'' 1500]"
  "db_inbox demo_db2 = []" "map or_event_id (db_outbox demo_db2) = [1005, 1006, 1104, 1105]"
  by (simp_all add: demo_db2_def demo_bet_def demo_world_def demo_db1_tables fresh_event1 demo_rows eval_simps)

section \<open>Its refund\<close>

definition demo_refund :: process_command where
  "demo_refund = \<lparr>pc_ProviderID = ''acme'', pc_ExternalTransactionID = ''x1'', pc_IdempotencyKey = ''x1'',
     pc_PayloadHash = ''h'', pc_PlayerID = 7, pc_WalletID = 1000, pc_RoundID = ''r'', pc_GameID = ''g'',
     pc_Kind = Refund, pc_Money = \<lparr>minorUnits = 1500, moneyCurrency = ''BRL''\<rparr>,
     pc_ReferenceExternalTransactionID = ''b1'', pc_CorrelationID = 9, pc_ConsumerName = [], pc_MessageID = []\<rparr>"

definition demo_db3 :: db where
  "demo_db3 = wd_db (snd (ProcessWager_Execute calm_env demo_refund (demo_world demo_db2 200)))"

lemmas fresh_event2 = fresh_event [OF demo_db2_tables(6)]

lemma demo_db3_tables:
  "db_wallet demo_db3 = [demo_wallet 5000 3]"
  "db_tx demo_db3 = [demo_tx 1001 ''OPENING'' 5000 5000 None None None None,
     demo_tx 1100 ''BET'' 1500 3500 (Some ''acme'') (Some ''b1'') None None,
     demo_tx 1200 ''REFUND'' 1500 5000 (Some ''acme'') (Some ''x1'') (Some ''b1'') (Some 1100)]"
  "db_ledger demo_db3 = [demo_ledger 1002 1001 ''CREDIT'' 5000 0 5000,
     demo_ledger 1101 1100 ''DEBIT'' 1500 5000 3500, demo_ledger 1201 1200 ''CREDIT'' 1500 3500 5000]"
  "db_inbox demo_db3 = []" "map or_event_id (db_outbox demo_db3) = [1005, 1006, 1104, 1105, 1204, 1205]"
  by (simp_all add: demo_db3_def demo_refund_def demo_world_def demo_db2_tables fresh_event2 demo_rows eval_simps)

section \<open>The states are reachable\<close>

lemma demo_step1: "reaches calm_env empty_db demo_db1"
  using keepsD [OF keeps_reaches_OpenWallet [of calm_env empty_db demo_open] surjective_pairing, of "start_world empty_db"]
  by (simp add: demo_db1_def start_world_def)

lemma demo_step2: "reaches calm_env demo_db1 demo_db2"
  using keepsD [OF keeps_reaches_Execute [of calm_env demo_db1 demo_bet] surjective_pairing, of "demo_world demo_db1 100"]
  by (simp add: demo_db2_def demo_world_def start_world_def)

lemma demo_step3: "reaches calm_env demo_db2 demo_db3"
  using keepsD [OF keeps_reaches_Execute [of calm_env demo_db2 demo_refund] surjective_pairing, of "demo_world demo_db2 200"]
  by (simp add: demo_db3_def demo_world_def start_world_def)

lemma demo_reach: "reaches calm_env empty_db demo_db2" "reaches calm_env empty_db demo_db3"
  using demo_step1 demo_step2 demo_step3 by (blast intro: rtranclp_trans)+

section \<open>What the calls answered\<close>

definition demo_bet_tx :: wager_tx where
  "demo_bet_tx = \<lparr>tx_id = 1100, tx_walletID = 1000, tx_playerID = 7, tx_kind = Bet,
     tx_money = \<lparr>minorUnits = 1500, moneyCurrency = ''BRL''\<rparr>, tx_status = Processed,
     tx_providerID = ''acme'', tx_externalTransactionID = ''b1'', tx_idempotencyKey = ''b1'',
     tx_payloadHash = ''h'', tx_roundID = ''r'', tx_gameID = ''g'', tx_referenceExternalTxID = [],
     tx_referenceTransactionID = uuid_Nil, tx_failureCode = NoFailure,
     tx_resultingBalance = \<lparr>minorUnits = 3500, moneyCurrency = ''BRL''\<rparr>, tx_hasResultingBalance = True,
     tx_createdAt = 1000000, tx_updatedAt = 1000000\<rparr>"

lemma demo_bet_answer:
  "fst (ProcessWager_Execute calm_env demo_bet (demo_world demo_db1 100)) =
     Inr \<lparr>ps_Transaction = demo_bet_tx, ps_Balance = \<lparr>minorUnits = 3500, moneyCurrency = ''BRL''\<rparr>,
          ps_IdempotentReplay = False\<rparr>"
  by (simp add: demo_bet_def demo_bet_tx_def demo_world_def demo_db1_tables fresh_event1 demo_rows eval_simps)

lemma demo_bet_run:
  obtains w' where "ProcessWager_Execute calm_env demo_bet (demo_world demo_db1 100) =
     (Inr \<lparr>ps_Transaction = demo_bet_tx, ps_Balance = \<lparr>minorUnits = 3500, moneyCurrency = ''BRL''\<rparr>,
          ps_IdempotentReplay = False\<rparr>, w')" "wd_db w' = demo_db2"
  using demo_bet_answer demo_db2_def by (metis prod.collapse)

lemma demo_bet_again:
  "ProcessWager_Execute calm_env demo_bet (demo_world demo_db3 300) =
     (Inr \<lparr>ps_Transaction = demo_bet_tx, ps_Balance = \<lparr>minorUnits = 3500, moneyCurrency = ''BRL''\<rparr>,
          ps_IdempotentReplay = True\<rparr>, (demo_world demo_db3 300)\<lparr>wd_calls := 1, wd_clock := 1\<rparr>)"
  by (simp add: demo_bet_def demo_bet_tx_def demo_world_def demo_db3_tables demo_rows eval_simps)

lemma demo_world_db [simp]: "wd_db (demo_world d n) = d"
  by (simp add: demo_world_def start_world_def)

section \<open>A message that is delivered twice\<close>

definition demo_message :: process_command where
  "demo_message = demo_bet\<lparr>pc_ConsumerName := ''c'', pc_MessageID := ''m1''\<rparr>"

definition demo_db4 :: db where
  "demo_db4 = wd_db (snd (ProcessWager_Execute calm_env demo_message (demo_world demo_db3 300)))"

definition demo_inbox :: inbox_row where
  "demo_inbox = \<lparr>ir_consumer_name = ''c'', ir_message_id = ''m1'', ir_payload_hash = ''h'',
     ir_wager_transaction_id = 1100, ir_received_at = 1000000, ir_completed_at = 1000000\<rparr>"

declare inboxRepo_Get_def [eval_simps] select_inbox_def [eval_simps] inboxRepo_Insert_def [eval_simps]
  insert_inbox_def [eval_simps] inbox_to_row_def [eval_simps] transactionRepo_GetByID_def [eval_simps]

lemma demo_db4_tables:
  "db_wallet demo_db4 = [demo_wallet 5000 3]" "db_inbox demo_db4 = [demo_inbox]" "db_tx demo_db4 = db_tx demo_db3"
  by (simp_all add: demo_db4_def demo_message_def demo_bet_def demo_inbox_def demo_world_def demo_db3_tables demo_rows eval_simps)

lemma demo_message_again:
  "fst (ProcessWager_Execute calm_env demo_message (demo_world demo_db4 400)) =
     Inr \<lparr>ps_Transaction = demo_bet_tx, ps_Balance = \<lparr>minorUnits = 3500, moneyCurrency = ''BRL''\<rparr>,
          ps_IdempotentReplay = True\<rparr>"
  by (simp add: demo_message_def demo_bet_def demo_bet_tx_def demo_inbox_def demo_world_def demo_db4_tables
      demo_db3_tables demo_rows eval_simps)

lemma demo_message_found: "find_message demo_message demo_db4 = Some demo_inbox"
  by (simp add: find_message_def demo_db4_tables demo_message_def demo_inbox_def)

section \<open>The answer to the opening\<close>

definition demo_opened :: wallet where
  "demo_opened = \<lparr>wlt_id = 1000, wlt_playerID = 7, wlt_currency = ''BRL'',
     wlt_balance = \<lparr>minorUnits = 5000, moneyCurrency = ''BRL''\<rparr>, wlt_version = 1,
     wlt_createdAt = 1000000, wlt_updatedAt = 1000000\<rparr>"

lemma demo_open_answer: "fst (OpenWallet_Execute calm_env demo_open (start_world empty_db)) = Inr demo_opened"
  by (simp add: demo_open_def demo_opened_def eval_simps)

end
