(* ===== verification/Publishing.thy ===== *)
theory Publishing
  imports PublishOutbox
begin

text \<open>
  What publishing guarantees: a claimed batch is bounded and locked against other claims, an event is
  marked published only after the publisher accepted it, and a run publishes a bounded number.
\<close>

section \<open>Claiming\<close>

definition claim_upd :: "string \<Rightarrow> time \<Rightarrow> outbox_row \<Rightarrow> outbox_row" where
  "claim_upd owner until r = r\<lparr>or_locked_by := Some owner, or_locked_until := Some (timestamptz until)\<rparr>"

definition claim_hit :: "int \<Rightarrow> time \<Rightarrow> db \<Rightarrow> outbox_row \<Rightarrow> bool" where
  "claim_hit limit t d r \<longleftrightarrow> or_event_id r \<in> or_event_id ` set (claimed_rows limit t d)"

lemma claim_outbox_Inr:
  "claim_outbox owner limit until t now d = Inr (rs, d') \<longleftrightarrow>
     rs = map (claim_upd owner until) (filter (claim_hit limit t d) (db_outbox d))
     \<and> d' = d\<lparr>db_outbox := map (\<lambda>r. if claim_hit limit t d r then claim_upd owner until r else r) (db_outbox d)\<rparr>"
  by (auto simp: claim_outbox_def claim_upd_def [abs_def] claim_hit_def [abs_def] Let_def)

lemma claim_upd_id [simp]: "or_event_id (claim_upd owner until r) = or_event_id r"
  by (simp add: claim_upd_def)

lemma claimed_rows_subset: "r \<in> set (claimed_rows limit t d) \<Longrightarrow> r \<in> set (db_outbox d) \<and> claimable t r"
  by (auto simp: claimed_rows_def dest: in_set_takeD)

text \<open>With unique event identifiers the claim returns exactly the selected rows, and no more than
  the limit.\<close>

lemma claim_hit_row:
  assumes "outbox_table_ok d" "r \<in> set (db_outbox d)"
  shows "claim_hit limit t d r \<longleftrightarrow> r \<in> set (claimed_rows limit t d)"
proof -
  have "s = r" if "s \<in> set (claimed_rows limit t d)" "or_event_id s = or_event_id r" for s
  proof (rule unique_byD [OF _ _ assms(2)])
    show "unique_by (\<lambda>a b. or_event_id a = or_event_id b) (db_outbox d)"
      using assms(1) by (simp add: outbox_table_ok_def)
  qed (use that claimed_rows_subset in simp_all)
  then show ?thesis unfolding claim_hit_def by (auto simp: image_iff)
qed

lemma claim_length:
  assumes "outbox_table_ok d"
  shows "length (filter (claim_hit limit t d) (db_outbox d)) \<le> nat limit"
proof -
  let ?rs = "filter (claim_hit limit t d) (db_outbox d)"
  have "distinct (map or_event_id (db_outbox d))"
    using assms by (simp add: outbox_table_ok_def unique_by_distinct)
  then have "distinct (map or_event_id ?rs)" by (rule distinct_map_filter)
  then have "length ?rs = card (set (map or_event_id ?rs))" by (metis distinct_card length_map)
  also have "\<dots> \<le> card (set (map or_event_id (claimed_rows limit t d)))"
    by (rule card_mono) (auto simp: claim_hit_def)
  also have "\<dots> \<le> length (claimed_rows limit t d)" by (metis card_length length_map)
  also have "\<dots> \<le> nat limit" by (simp add: claimed_rows_def)
  finally show ?thesis .
qed

lemma claim_excludes:
  assumes "timestamptz t2 \<le> timestamptz until" "claim_outbox owner limit until t now d = Inr (rs, d')"
    and "r \<in> set (claimed_rows limit2 t2 d')"
  shows "or_event_id r \<notin> or_event_id ` set rs"
proof -
  have r: "r \<in> set (db_outbox d')" "claimable t2 r" using claimed_rows_subset [OF assms(3)] by simp_all
  have "\<not> claimable t2 (claim_upd owner until s)" for s
    using assms(1) by (simp add: claimable_def claim_upd_def)
  then have "\<not> claim_hit limit t d r"
    using r assms(2) by (auto simp: claim_outbox_Inr)
  then show ?thesis using assms(2) by (auto simp: claim_outbox_Inr claim_hit_def)
qed

section \<open>Publishing\<close>

lemma claim_batch_length:
  assumes run: "claim_batch E p owner now w = (Inr batch, w')" and ok: "schema_ok (wd_db w)"
  shows "length batch \<le> nat (pp_BatchSize p)"
proof -
  obtain w1 w2 x where b: "begin_tx E w = (Inr (), w1)" and o1: "outboxRepo_OldestPending E Tx now w1 = (Inr x, w2)"
    and c: "\<exists>w3. outboxRepo_Claim E Tx owner (pp_BatchSize p) (pp_LockFor p) now w2 = (Inr batch, w3)"
    using run by (auto simp: claim_batch_def within_run run_simps)
  have "wd_db w2 = wd_db w"
    using read_onlyD [OF read_only_reads(9) o1] begin_tx_run_db [OF b] by simp
  then have "outbox_table_ok (wd_db w2)" using ok by (simp add: schema_ok_def)
  then show ?thesis
    using c claim_length by (auto simp: outboxRepo_Claim_def run_simps claim_outbox_Inr elim!: sql_run_db)
qed

lemma publish_records_count:
  "publish_records E p pub recs n w = (Inr (k, e), w') \<Longrightarrow> k \<le> n + length recs"
proof (induction recs arbitrary: n w)
  case (Cons rec recs)
  from Cons.prems obtain c w1 where c: "ctx_err E w = (Inr c, w1)"
    and rest: "(case c of Some s \<Rightarrow> retP (n, Some (DriverErr s)) | None \<Rightarrow>
       (\<lambda>w. bindP (tryP (mark_record E p rec (pub rec (wd_calls w)))) (\<lambda>mark. case mark of
          Inl _ \<Rightarrow> publish_records E p pub recs n
        | Inr _ \<Rightarrow> publish_records E p pub recs
            (if pub rec (wd_calls w) = None then Suc n else n)) w)) w1 = (Inr (k, e), w')"
    by (auto simp: bindP_run)
  show ?case
  proof (cases c)
    case (Some s)
    then show ?thesis using rest by (simp add: run_simps)
  next
    case None
    then have "bindP (tryP (mark_record E p rec (pub rec (wd_calls w1)))) (\<lambda>mark. case mark of
          Inl _ \<Rightarrow> publish_records E p pub recs n
        | Inr _ \<Rightarrow> publish_records E p pub recs
            (if pub rec (wd_calls w1) = None then Suc n else n)) w1 = (Inr (k, e), w')"
      using rest by simp
    then obtain mark :: "goerr + unit" and w2 where "(case mark of
          Inl _ \<Rightarrow> publish_records E p pub recs n
        | Inr _ \<Rightarrow> publish_records E p pub recs
            (if pub rec (wd_calls w1) = None then Suc n else n)) w2 = (Inr (k, e), w')"
      by (auto simp: bindP_run)
    then have "publish_records E p pub recs n w2 = (Inr (k, e), w')
        \<or> publish_records E p pub recs (Suc n) w2 = (Inr (k, e), w')"
      by (cases mark) (auto split: if_splits)
    then show ?thesis using Cons.IH by fastforce
  qed
qed (simp add: run_simps)

lemma publishBatch_count:
  assumes run: "publishBatch E p pub owner w = (Inr (k, drained, e), w')" and ok: "schema_ok (wd_db w)"
  shows "k \<le> nat (pp_BatchSize p)"
proof -
  let ?w1 = "w\<lparr>wd_clock := Suc (wd_clock w)\<rparr>" and ?now = "clock_Now E (wd_clock w)"
  obtain r w2 where c: "claim_batch E p owner ?now ?w1 = (r, w2)" by fastforce
  show ?thesis
  proof (cases r)
    case (Inl err)
    then show ?thesis using run c by (simp add: publishBatch_def bindP_def read_clock_def tryP_def retP_def)
  next
    case (Inr batch)
    then have "\<exists>e w3. publish_records E p pub batch 0 w2 = (Inr (k, e), w3)"
      using run c by (auto simp: publishBatch_def run_simps split: option.splits)
    then have "k \<le> length batch" using publish_records_count by fastforce
    moreover have "length batch \<le> nat (pp_BatchSize p)"
      using claim_batch_length [OF c [unfolded Inr]] ok by simp
    ultimately show ?thesis by simp
  qed
qed

lemma run_passes_count:
  "run_passes E p pub owner passes n w = (Inr (k, e), w') \<Longrightarrow> schema_ok (wd_db w)
     \<Longrightarrow> k \<le> n + passes * nat (pp_BatchSize p)"
proof (induction passes arbitrary: n w)
  case (Suc passes)
  from Suc.prems(1) obtain m drained err w1 where b: "publishBatch E p pub owner w = (Inr (m, drained, err), w1)"
    and rest: "(case err of Some e \<Rightarrow> retP (n + m, Some e)
     | None \<Rightarrow> if drained then retP (n + m, None)
         else bindP (ctx_err E) (\<lambda>cancelled. if cancelled \<noteq> None then retP (n + m, None)
           else run_passes E p pub owner passes (n + m))) w1 = (Inr (k, e), w')"
    by (auto simp: bindP_run)
  have m: "m \<le> nat (pp_BatchSize p)" by (rule publishBatch_count [OF b Suc.prems(2)])
  have "keeps schema_ok (publishBatch E p pub owner)"
    unfolding publishBatch_def by (intro keeps_intros schema.keeps_publishing keeps_publish_records)
  then have "schema_ok (wd_db w1)" using keepsD b Suc.prems(2) by blast
  then have "k \<le> n + m + passes * nat (pp_BatchSize p) \<or> k = n + m"
    using rest Suc.IH by (fastforce simp: run_simps split: option.splits if_splits)
  then show ?case using m by auto
qed (simp add: run_simps)

text \<open>The publisher accepted every event that is published and was not before.\<close>

definition accepted_only :: "publisher \<Rightarrow> db \<Rightarrow> db \<Rightarrow> bool" where
  "accepted_only pub d0 d \<longleftrightarrow> (\<forall>r \<in> set (db_outbox d). or_published_at r \<noteq> None \<longrightarrow>
     (\<exists>r0 \<in> set (db_outbox d0). or_event_id r0 = or_event_id r \<and> or_published_at r0 \<noteq> None)
     \<or> (\<exists>rec n. pub rec n = None \<and> ob_EventID rec = or_event_id r))"

lemma accepted_only_step:
  assumes "accepted_only pub d0 d"
    and "\<And>r. r \<in> set (db_outbox d') \<Longrightarrow> or_published_at r \<noteq> None \<Longrightarrow>
      (\<exists>r1 \<in> set (db_outbox d). or_event_id r1 = or_event_id r \<and> or_published_at r1 \<noteq> None)
      \<or> (\<exists>rec n. pub rec n = None \<and> ob_EventID rec = or_event_id r)"
  shows "accepted_only pub d0 d'"
  unfolding accepted_only_def
proof (intro ballI impI)
  fix r assume "r \<in> set (db_outbox d')" "or_published_at r \<noteq> None"
  from assms(2) [OF this] assms(1) show "(\<exists>r0 \<in> set (db_outbox d0). or_event_id r0 = or_event_id r \<and> or_published_at r0 \<noteq> None)
     \<or> (\<exists>rec n. pub rec n = None \<and> ob_EventID rec = or_event_id r)"
    unfolding accepted_only_def by metis
qed

lemma accepted_only_keeps:
  "keeps (accepted_only pub d0) (claim_batch E p owner now)"
  "keeps (accepted_only pub d0) (mark_record E p rec (pub rec n))"
proof -
  have "keeps (accepted_only pub d0) (sql E q (claim_outbox ow l un tm))" for q ow l un tm
    by (rule keeps_sql, erule accepted_only_step) (auto simp: claim_outbox_Inr claim_upd_def split: if_splits)
  then show "keeps (accepted_only pub d0) (claim_batch E p owner now)"
    unfolding claim_batch_def outboxRepo_OldestPending_def outboxRepo_Claim_def by (intro keeps_intros)
  have "keeps (accepted_only pub d0) (sql E q (update_rescheduled i a tm))" for q i a tm
    by (rule keeps_sql, erule accepted_only_step) (auto simp: update_rescheduled_def update_outbox_rows_def split: if_splits)
  moreover have "keeps (accepted_only pub d0) (sql E q (update_published (ob_EventID rec) tm))"
    if "pub rec n = None" for q tm
    by (rule keeps_sql, erule accepted_only_step)
      (use that in \<open>auto simp: update_published_def update_outbox_rows_def split: if_splits\<close>)
  ultimately show "keeps (accepted_only pub d0) (mark_record E p rec (pub rec n))"
    unfolding mark_record_def outboxRepo_Reschedule_def outboxRepo_MarkPublished_def
    by (intro keeps_intros) auto
qed

end
