(* ===== verification/Reads.thy ===== *)
theory Reads
  imports Books Queries
begin

text \<open>
  Reading back what was stored: the rows of the tables hold the domain values they were made from,
  with times cut to microseconds, and what the queries report of a state with correct books.
\<close>

section \<open>Rows and values\<close>

definition tx_stored_form :: "wager_tx \<Rightarrow> wager_tx" where
  "tx_stored_form t = t\<lparr>tx_createdAt := timestamptz (tx_createdAt t), tx_updatedAt := timestamptz (tx_updatedAt t)\<rparr>"

text \<open>The resulting balance is in the currency of the amount, and unset until there is one.\<close>

definition tx_storable :: "wager_tx \<Rightarrow> bool" where
  "tx_storable t \<longleftrightarrow> tx_wf t \<and> known_failure (tx_failureCode t)
     \<and> (if tx_status t = Processed then moneyCurrency (tx_resultingBalance t) = moneyCurrency (tx_money t)
        else tx_resultingBalance t = Money0)"

lemma toDomain_tx_to_row:
  assumes "tx_storable t"
  shows "toDomain (tx_to_row t now) = Inr (tx_stored_form t)"
  using assms
  by (cases t) (auto simp: tx_storable_def tx_wf_def tx_origin_def tx_outcome_def toDomain_def tx_to_row_def
      wagertx_Rehydrate_def tx_stored_form_def FromMinorUnits_def nullUUID_def resultingBalanceArg_def
      Tx_ResultingBalance_def split: if_splits)

lemma wallet_of_row_to_row:
  assumes "wallet_wf w" "1 \<le> sint (wlt_version w)"
  shows "wallet_of_row (wallet_to_row w) =
    Inr (w\<lparr>wlt_createdAt := timestamptz (wlt_createdAt w), wlt_updatedAt := timestamptz (wlt_updatedAt w)\<rparr>)"
  using assms
  by (cases w) (auto simp: wallet_of_row_def wallet_to_row_def RehydrateWallet_def FromMinorUnits_def wallet_wf_def
      money_sign_sint int64_simps)

lemma journal_of_row_to_row:
  assumes "NewMovement p i1 i2 = Inr es" "e \<in> set es"
  shows "journal_of_row (journal_to_row e) = Inr (e\<lparr>je_createdAt := timestamptz (je_createdAt e)\<rparr>)"
proof -
  have "je_direction e \<in> {JDebit, JCredit}" using NewMovement_Inr(1) [OF assms(1)] assms(2) by auto
  then show ?thesis
    by (cases e) (auto simp: journal_of_row_def journal_to_row_def journal_Rehydrate_def FromMinorUnits_def
        jdirection_of_string_def)
qed

section \<open>Reconciliation\<close>

lemma ledger_sums:
  assumes "\<forall>l \<in> set ls. lr_direction l \<in> {''DEBIT'', ''CREDIT''}"
  shows "ledger_sum ''CREDIT'' ls - ledger_sum ''DEBIT'' ls = sum_list (map row_signed ls)"
  using assms by (induction ls) (auto simp: ledger_sum_def row_signed_def)

lemma scan_int64_Inr [simp]: "scan_int64 i = Inr x \<longleftrightarrow> fits64 i \<and> x = word_of_int i"
  by (auto simp: scan_int64_def)

lemma Totals_run:
  assumes "ledgerRepo_Totals E q i w = (Inr (c, b, n), w')"
  shows "c = word_of_int (ledger_sum ''CREDIT'' (ledger_of i (wd_db w)))
    \<and> b = word_of_int (ledger_sum ''DEBIT'' (ledger_of i (wd_db w)))
    \<and> n = int (length (ledger_of i (wd_db w))) \<and> wd_db w' = wd_db w"
proof -
  obtain x w1 where s: "sql E q (query (\<lambda>now d.
         (ledger_sum ''CREDIT'' (ledger_of i d), ledger_sum ''DEBIT'' (ledger_of i d), int (length (ledger_of i d))))) w
      = (Inr x, w1)"
    and rest: "(\<lambda>(credits, debits, entries).
         bindP (liftR (scan_int64 credits)) (\<lambda>c. bindP (liftR (scan_int64 debits)) (\<lambda>d. retP (c, d, entries)))) x w1
      = (Inr (c, b, n), w')"
    using assms by (auto simp: ledgerRepo_Totals_def run_simps)
  from query_run [OF s] rest show ?thesis by (auto simp: run_simps)
qed

lemma Money_Sub_self: "Money_Sub m m = Inr r \<Longrightarrow> r = \<lparr>minorUnits = 0, moneyCurrency = moneyCurrency m\<rparr>"
  by (drule msub.op_Inr) (auto simp: money.equality int64_eq_iff)

text \<open>What \<open>Reconcile\<close> reports is the balance that its first read saw and the sum of the ledger that its second
  read saw; both are right, each of its own moment.\<close>

definition compares :: "reconcile_result \<Rightarrow> uuid \<Rightarrow> db \<Rightarrow> db \<Rightarrow> bool" where
  "compares rr i d1 d2 \<longleftrightarrow>
     sint (minorUnits (rr_StoredBalance rr)) = ledger_balance d1 i
     \<and> sint (minorUnits (rr_CalculatedBalance rr)) = ledger_balance d2 i
     \<and> sint (minorUnits (rr_Difference rr)) = ledger_balance d1 i - ledger_balance d2 i
     \<and> (rr_Consistent rr \<longleftrightarrow> ledger_balance d1 i = ledger_balance d2 i)
     \<and> rr_CheckedEntries rr = int (length (ledger_of i d2))"

lemma books_directions:
  "books d \<Longrightarrow> \<forall>l \<in> set (ledger_of i d). lr_direction l \<in> {''DEBIT'', ''CREDIT''}"
  by (auto simp: books_def schema_ok_def ledger_table_ok_def ledger_of_def ledger_checks_def)

text \<open>The sum of the ledger of a wallet fits 64 bits, because its balance does.\<close>

lemma books_balance: "books d \<Longrightarrow> row \<in> set (db_wallet d) \<Longrightarrow> sint (wr_balance_minor_units row) = ledger_balance d (wr_id row)"
  by (auto simp: books_def balances_ok_def)

lemma reconcile_body_run:
  assumes run: "reconcile_body E later i w = (Inr rr, w')" and books: "books (wd_db w)" "books (later (wd_db w))"
    and keeps: "\<And>row. row \<in> set (db_wallet (wd_db w)) \<Longrightarrow> wr_id row \<in> wr_id ` set (db_wallet (later (wd_db w)))"
  shows "compares rr i (wd_db w) (later (wd_db w)) \<and> wd_db w' = wd_db w"
proof -
  obtain wlt w1 c b n w2 diff where get: "walletRepo_Get E Tx i w = (Inr wlt, w1)"
    and tot: "ledgerRepo_Totals E Tx i (w1\<lparr>wd_db := later (wd_db w1)\<rparr>) = (Inr (c, b, n), w2)"
    and sub: "Money_Sub (wlt_balance wlt) (FromMinorUnits (c - b) (wlt_currency wlt)) = Inr diff"
    and rr: "rr = \<lparr>rr_WalletID = i, rr_StoredBalance = wlt_balance wlt,
      rr_CalculatedBalance = FromMinorUnits (c - b) (wlt_currency wlt), rr_Difference = diff,
      rr_Consistent = Money_IsZero diff, rr_CheckedEntries = n\<rparr>" "w' = w2\<lparr>wd_db := wd_db w1\<rparr>"
    using run by (auto simp: reconcile_body_def [unfolded Let_def] run_simps)
  obtain row where f: "find (\<lambda>r. wr_id r = i) (db_wallet (wd_db w)) = Some row"
    and row: "wallet_of_row row = Inr wlt" and w1: "wd_db w1 = wd_db w"
    using get by (auto elim!: walletRepo_Get_run)
  have mem: "row \<in> set (db_wallet (wd_db w))" "wr_id row = i" using f by (auto simp: find_Some_iff in_set_conv_nth)
  have stored: "sint (minorUnits (wlt_balance wlt)) = ledger_balance (wd_db w) i"
    using books_balance [OF books(1) mem(1)] mem(2) wallet_of_row_fields [OF row] by (simp add: wallet_minor_def)
  obtain row' where row': "row' \<in> set (db_wallet (later (wd_db w)))" "wr_id row' = i" using keeps [OF mem(1)] mem(2) by auto
  have "c - b = word_of_int (ledger_balance (later (wd_db w)) i)"
    using Totals_run [OF tot] w1 ledger_sums [OF books_directions [OF books(2)]] by (simp add: ledger_balance_def wi_hom_sub)
  also have "\<dots> = wr_balance_minor_units row'" using books_balance [OF books(2) row'(1)] row'(2) by (metis word_of_sint64)
  finally have calc: "sint (c - b) = ledger_balance (later (wd_db w)) i" using books_balance [OF books(2) row'(1)] row'(2) by simp
  have "sint (minorUnits diff) = ledger_balance (wd_db w) i - ledger_balance (later (wd_db w)) i"
    using msub.op_Inr [OF sub] stored calc by (simp add: FromMinorUnits_def)
  then show ?thesis
    using rr stored calc Totals_run [OF tot] w1
    by (auto simp: compares_def FromMinorUnits_def Money_IsZero_def int64_eq_iff)
qed

lemma Reconcile_run:
  assumes run: "Queries_Reconcile E later who i w = (Inr rr, w')" and books: "books (wd_db w)" "books (later (wd_db w))"
    and keeps: "\<And>row. row \<in> set (db_wallet (wd_db w)) \<Longrightarrow> wr_id row \<in> wr_id ` set (db_wallet (later (wd_db w)))"
  shows "id_Internal who \<and> compares rr i (wd_db w) (later (wd_db w)) \<and> wd_db w' = wd_db w"
proof -
  have int: "id_Internal who" and wi: "within E (reconcile_body E later i) w = (Inr rr, w')"
    using run by (auto simp: Queries_Reconcile_def MayUseWalletOperations_def failP_run split: if_splits)
  obtain w1 w2 where b: "begin_tx E w = (Inr (), w1)" and r: "reconcile_body E later i w1 = (Inr rr, w2)"
    and c: "commit E (wd_db w) w2 = (Inr (), w')"
    using wi by (auto simp: within_run)
  have "wd_db w1 = wd_db w" by (rule begin_tx_run_db [OF b])
  then show ?thesis using reconcile_body_run [OF r] books keeps int c by (auto simp: commit_run)
qed

section \<open>Who may read\<close>

lemma GetTransaction_run:
  assumes "Queries_GetTransaction E who i w = (Inr t, w')"
  shows "MayActAsProvider who (tx_providerID t)"
  using assms by (auto simp: Queries_GetTransaction_def run_simps split: if_splits)

lemma GetProviderTransaction_run:
  assumes "Queries_GetProviderTransaction E who p k w = (Inr t, w')"
  shows "MayActAsProvider who p \<and> tx_providerID t = p"
proof -
  have "MayActAsProvider who p"
    and get: "transactionRepo_scanOne E Pool (\<lambda>r. tr_provider_id r = Some p \<and> tr_external_transaction_id r = Some k) w = (Inr t, w')"
    using assms by (auto simp: Queries_GetProviderTransaction_def transactionRepo_GetByProviderExternalID_def
        failP_run split: if_splits)
  then show ?thesis
    by (auto elim!: scanOne_run simp: find_Some_iff toDomain_def wagertx_Rehydrate_def derefString_def split: if_splits)
qed

end
