(* ===== verification/Examples.thy ===== *)
theory Examples
  imports Demo Publishing Reads
begin

text \<open>
  Concrete runs of the background jobs and of the repositories, in the environment of \<open>Demo\<close>: a
  refund whose bet is unknown waits for it, a later pass records the attempt, the last one rejects
  it; a batch of one event is claimed and published.
\<close>

section \<open>A reversal that waits\<close>

declare MarkPendingReference_def [eval_simps] MarkRejected_def [eval_simps] decision_pending_def [eval_simps]
  settle_pending_def [eval_simps] reject_def [eval_simps]
  settleOne_def [eval_simps] settle_one_body_def [eval_simps] transactionRepo_Update_def [eval_simps]
  update_tx_def [eval_simps] update_tx_rows_def [eval_simps] tx_update_row_def [eval_simps]
  transactionRepo_RecordReferenceAttempt_def [eval_simps] update_reference_attempt_def [eval_simps]
  int4_arg_def [eval_simps] terminal_status_def [eval_simps]

definition orphan_refund :: process_command where
  "orphan_refund = demo_bet\<lparr>pc_ExternalTransactionID := ''x9'', pc_IdempotencyKey := ''x9'', pc_Kind := Refund,
     pc_ReferenceExternalTransactionID := ''nope''\<rparr>"

definition waiting_db :: db where
  "waiting_db = wd_db (snd (ProcessWager_Execute calm_env orphan_refund (demo_world demo_db1 100)))"

definition waiting_row :: tx_row where
  "waiting_row = (demo_tx 1100 ''REFUND'' 1500 0 (Some ''acme'') (Some ''x9'') (Some ''nope'') None)
     \<lparr>tr_status := ''PENDING_REFERENCE'', tr_resulting_balance_minor_units := None\<rparr>"

lemma waiting_db_tables:
  "db_wallet waiting_db = [demo_wallet 5000 1]"
  "db_tx waiting_db = [demo_tx 1001 ''OPENING'' 5000 5000 None None None None, waiting_row]"
  "map or_event_id (db_outbox waiting_db) = [1005, 1006, 1101]"
  by (simp_all add: waiting_db_def waiting_row_def orphan_refund_def demo_bet_def demo_world_def demo_db1_tables
      fresh_event1 demo_rows eval_simps)

lemmas fresh_event_waiting = fresh_event [OF waiting_db_tables(3)]

definition waiting_record :: "int \<Rightarrow> pending_record" where
  "waiting_record attempts = \<lparr>pr_Transaction = demo_bet_tx, pr_Attempts = attempts, pr_FirstSeenAt = 1000000\<rparr>"

declare DefaultReferencePolicy_def [eval_simps] ReferencePolicy_backoffFor_def [eval_simps] backoff_def [eval_simps]
  Second_def [eval_simps] time_Sub_def [eval_simps] time_Add_def [eval_simps] timestamptz_def [eval_simps]

lemma waiting_pass:
  "fst (settleOne calm_env DefaultReferencePolicy (waiting_record 0) (demo_world waiting_db 300)) = Inr False"
  by (simp add: waiting_record_def demo_bet_tx_def waiting_row_def demo_world_def waiting_db_tables demo_rows eval_simps)

lemma last_pass:
  "fst (settleOne calm_env DefaultReferencePolicy (waiting_record 9) (demo_world waiting_db 300)) = Inr True"
  by (simp add: waiting_record_def demo_bet_tx_def waiting_row_def demo_world_def waiting_db_tables fresh_event_waiting
      demo_rows eval_simps)

section \<open>The decision on a refund\<close>

definition refund_tx :: wager_tx where
  "refund_tx = demo_bet_tx\<lparr>tx_id := 1200, tx_kind := Refund, tx_status := Pending, tx_externalTransactionID := ''x1'',
     tx_referenceExternalTxID := ''b1'', tx_hasResultingBalance := False\<rparr>"

lemma refund_decided:
  "fst (decideReversal calm_env Pool refund_tx (demo_world demo_db2 200)) =
     Inr (decision_process Credit, refund_tx\<lparr>tx_referenceTransactionID := 1100\<rparr>)"
  by (simp add: refund_tx_def demo_bet_tx_def demo_world_def demo_db2_tables demo_rows eval_simps)

section \<open>Publishing an event\<close>

definition sample_event :: outbox_row where
  "sample_event = \<lparr>or_event_id = 5, or_aggregate_id = ''a'', or_event_type = ''WalletBalanceChanged'',
     or_payload = JObject [], or_occurred_at = 0, or_correlation_id = 9, or_causation_id = None, or_attempts = 0,
     or_next_attempt_at = 0, or_published_at = None, or_locked_by = None, or_locked_until = None,
     or_created_at = 0, or_trace_parent = None\<rparr>"

definition event_db :: db where
  "event_db = empty_db\<lparr>db_outbox := [sample_event]\<rparr>"

lemma event_db_ok: "schema_ok event_db"
  by (simp add: event_db_def schema_ok_def table_ok_defs unique_by_def)

declare PublishOutbox_RunOnce_def [eval_simps] publishBatch_def [eval_simps] claim_batch_def [eval_simps]
  mark_record_def [eval_simps] outboxRepo_OldestPending_def [eval_simps] outboxRepo_Claim_def [eval_simps]
  claim_outbox_def [eval_simps] claimed_rows_def [eval_simps] claimable_def [eval_simps]
  outbox_record_of_row_def [eval_simps] outboxRepo_MarkPublished_def [eval_simps] update_published_def [eval_simps]
  update_outbox_rows_def [eval_simps] DefaultPublishPolicy_def [eval_simps]

lemma event_published:
  "PublishOutbox_RunOnce calm_env DefaultPublishPolicy (\<lambda>_ _. None) ''w'' (demo_world event_db 0) =
     (Inr (1, None), (demo_world (event_db\<lparr>db_outbox := [sample_event\<lparr>or_published_at := Some 1000000\<rparr>]\<rparr>) 0)
        \<lparr>wd_calls := 7, wd_clock := 2, wd_ctx := 1, wd_txnow := 1000000\<rparr>)"
  by (simp add: sample_event_def event_db_def demo_world_def numeral_eq_Suc eval_simps)

declare outboxRepo_Reschedule_def [eval_simps] update_rescheduled_def [eval_simps]
  PublishPolicy_backoffFor_def [eval_simps]

lemma event_refused:
  "PublishOutbox_RunOnce calm_env DefaultPublishPolicy (\<lambda>_ _. Some (DriverErr [])) ''w'' (demo_world event_db 0) =
     (Inr (0, None), (demo_world (event_db\<lparr>db_outbox :=
          [sample_event\<lparr>or_attempts := 1, or_next_attempt_at := 1001000000\<rparr>]\<rparr>) 0)
        \<lparr>wd_calls := 7, wd_clock := 2, wd_ctx := 1, wd_txnow := 1000000\<rparr>)"
  by (simp add: sample_event_def event_db_def demo_world_def numeral_eq_Suc eval_simps)

section \<open>Checks\<close>

declare Queries_Reconcile_def [eval_simps] MayUseWalletOperations_def [eval_simps] reconcile_body_def [eval_simps]
  at_snapshot_def [eval_simps]
  walletRepo_Get_def [eval_simps] ledgerRepo_Totals_def [eval_simps] ledger_sum_def [eval_simps]
  ledger_of_def [eval_simps] scan_int64_def [eval_simps] journalRepo_GlobalImbalance_def [eval_simps]

lemma demo_reconciled:
  "\<exists>rr. fst (Queries_Reconcile calm_env (\<lambda>_. demo_db3) \<lparr>id_ProviderID = [], id_Internal = True\<rparr> 1000
       (demo_world demo_db2 300)) = Inr rr"
  by (simp add: demo_world_def demo_db2_tables demo_db3_tables demo_rows fits64_def eval_simps)

lemma demo_imbalance: "\<exists>n. fst (journalRepo_GlobalImbalance calm_env Pool (demo_world demo_db2 0)) = Inr n"
  by (simp add: demo_world_def demo_db2_tables demo_rows fits64_def eval_simps)

end
