(* ===== verification/Effects.thy ===== *)
theory Effects
  imports System
begin

text \<open>
  What a call of \<open>ProcessWager.Execute\<close> means for its caller: an operation takes effect once
  however often it is sent, and a fresh operation moves the wallet by exactly its amount or leaves
  it alone.
\<close>

section \<open>Once\<close>

lemma find_key_unique:
  assumes "schema_ok d" "row \<in> set (db_tx d)" "tr_idempotency_key row = Some k"
  shows "find_key k d = Some row"
proof -
  obtain r where r: "find_key k d = Some r"
    using assms(2,3) by (cases "find_key k d") (auto simp: find_key_def find_None_iff)
  then have mem: "r \<in> set (db_tx d)" "tr_idempotency_key r = Some k"
    by (auto simp: find_key_def find_Some_iff in_set_conv_nth)
  have "unique_by (\<lambda>a b. same_key (tr_idempotency_key a) (tr_idempotency_key b)) (db_tx d)"
    using assms(1) by (simp add: schema_ok_def tx_table_ok_def)
  then have "r = row" using unique_byD assms(2,3) mem by (fastforce simp: same_key_def)
  then show ?thesis using r by simp
qed

lemma find_keyD: "find_key k d = Some row \<Longrightarrow> row \<in> set (db_tx d) \<and> tr_idempotency_key row = Some k"
  by (auto simp: find_key_def find_Some_iff in_set_conv_nth)

lemma find_operationD:
  "find_operation p k d = Some row \<Longrightarrow>
     row \<in> set (db_tx d) \<and> tr_provider_id row = Some p \<and> tr_external_transaction_id row = Some k"
  by (auto simp: find_operation_def find_Some_iff in_set_conv_nth)

text \<open>Whatever happens afterwards, the key stays with its transaction.\<close>

lemma same_tx_identity: "same_tx a b \<Longrightarrow> tr_id b = tr_id a \<and> tr_idempotency_key b = tr_idempotency_key a"
  by (cases a; cases b) (auto simp: same_tx_def split: if_splits)

lemma find_key_later:
  assumes "find_key k d = Some row" "db_extends d d'" "schema_ok d'"
  shows "\<exists>row'. find_key k d' = Some row' \<and> tr_id row' = tr_id row"
proof -
  have row: "row \<in> set (db_tx d)" "tr_idempotency_key row = Some k" using find_keyD [OF assms(1)] by simp_all
  obtain row' where "row' \<in> set (db_tx d')" "same_tx row row'"
    using grows_member [of same_tx "db_tx d" "db_tx d'" row] row(1) assms(2) by (auto simp: db_extends_def)
  then show ?thesis using same_tx_identity row(2) find_key_unique [OF assms(3)] by metis
qed

text \<open>The row a settlement of a new transaction stores.\<close>

lemma effect_still_saved: "effect_still R t ev d d' \<Longrightarrow> R t d (d\<lparr>db_tx := db_tx d'\<rparr>)"
  by (auto simp: effect_still_def)

lemma settles_saved:
  assumes "settles E R tx w dec now d d' out"
  obtains t b where "out = outcome t b" "tx_frozen t = tx_frozen tx" "tx_status t \<noteq> Pending"
    "R t d (d\<lparr>db_tx := db_tx d'\<rparr>)"
  using assms
proof (cases rule: settlesE)
  case (moved w' t)
  then show ?thesis using that by (auto simp: MarkProcessed_Inr_iff tx_frozen_def effect_moved_def)
qed (auto simp: tx_method_iffs tx_frozen_def dest: effect_still_saved intro: that)

text \<open>The row that answers for a key: it carries the payload hash of the request and can be read.\<close>

definition answers :: "process_command \<Rightarrow> tx_row \<Rightarrow> wager_tx \<Rightarrow> bool" where
  "answers cmd row t \<longleftrightarrow> tr_id row = tx_id t \<and> tr_payload_hash row = Some (pc_PayloadHash cmd)
     \<and> tr_status row = status_string (tx_status t)
     \<and> tr_id row \<noteq> uuid_Nil \<and> tr_wallet_id row \<noteq> uuid_Nil \<and> tr_player_id row \<noteq> uuid_Nil"

lemma toDomain_Inr:
  "toDomain row = Inr t \<Longrightarrow> tr_id row = tx_id t \<and> tx_id t \<noteq> uuid_Nil \<and> tr_wallet_id row \<noteq> uuid_Nil
     \<and> tr_player_id row \<noteq> uuid_Nil \<and> tx_status t = status_of_string (tr_status row)
     \<and> tx_payloadHash t = derefString (tr_payload_hash row)
     \<and> tx_idempotencyKey t = derefString (tr_idempotency_key row)"
  by (auto simp: toDomain_def wagertx_Rehydrate_def split: if_splits)

lemma external_columns:
  assumes "schema_ok d" "row \<in> set (db_tx d)" "tr_provider_id row \<noteq> None \<or> tr_idempotency_key row \<noteq> None"
  shows "tr_idempotency_key row \<noteq> None \<and> tr_payload_hash row \<noteq> None"
proof -
  have "list_all snd (tx_checks row)" using assms(1,2) by (simp add: schema_ok_def tx_table_ok_def)
  then show ?thesis using assms(3) by (auto simp: tx_checks_def split: if_splits)
qed

lemma read_row_answers:
  assumes "schema_ok d" "find_key k d = Some row" "toDomain row = Inr t" "tx_payloadHash t = pc_PayloadHash cmd"
  shows "answers cmd row t"
proof -
  have row: "row \<in> set (db_tx d)" "tr_idempotency_key row = Some k" using find_keyD [OF assms(2)] by simp_all
  then obtain h where "tr_payload_hash row = Some h" using external_columns [OF assms(1) row(1)] by auto
  moreover have "tr_status row = status_string (tx_status t)" using toDomain_row [OF assms(3)] by (simp add: row_core_def)
  ultimately show ?thesis
    using toDomain_Inr [OF assms(3)] assms(4) by (simp add: answers_def derefString_def)
qed

lemma wager_spec_key:
  assumes spec: "wager_spec E cmd now d d' out" and none: "find_message cmd d = None"
    and ok: "schema_ok d" "schema_ok d'"
  shows "\<exists>row. find_key (pc_IdempotencyKey cmd) d' = Some row \<and> answers cmd row (ps_Transaction out)"
  using spec
proof (cases rule: wager_specE)
  case (fast row t)
  then show ?thesis using read_row_answers [OF ok(1)] by (auto simp: replayResult_def)
next
  case (key w row t)
  then have "find_key (pc_IdempotencyKey cmd) d' = Some row"
    by (auto simp: inbox_recorded_def find_key_def split: if_splits)
  then show ?thesis using key read_row_answers [OF ok(1)] by (auto simp: replayResult_def)
next
  case (identity w row t)
  have row: "row \<in> set (db_tx d)" "tr_provider_id row \<noteq> None" using find_operationD [OF identity(6)] by simp_all
  then have "tr_idempotency_key row = Some (pc_IdempotencyKey cmd)"
    using external_columns [OF ok(1) row(1)] toDomain_Inr [OF identity(7)] identity(8) by (auto simp: derefString_def)
  then show ?thesis using find_key_unique [OF ok(1) row(1)] identity(5) by simp
next
  case (fresh w i tx dec tx' d1)
  obtain t b where t: "out = outcome t b" "tx_frozen t = tx_frozen tx'" "tx_inserted t d (d\<lparr>db_tx := db_tx d1\<rparr>)"
    by (rule settles_saved [OF fresh(8)])
  obtain s where ins: "db_tx d1 = db_tx d @ [tx_to_row t s]"
    using t(3) by (auto simp: tx_inserted_def insert_tx_Inr) (metis db.ext_inject db.surjective db.update_convs(2))
  obtain j where tx': "tx' = tx\<lparr>tx_referenceTransactionID := j\<rparr>" using decides_frame [OF fresh(7)] by blast
  have tx: "tx_idempotencyKey tx = pc_IdempotencyKey cmd" "pc_IdempotencyKey cmd \<noteq> []"
    "tx_payloadHash tx = pc_PayloadHash cmd" "pc_PayloadHash cmd \<noteq> []"
    "tx_id tx \<noteq> uuid_Nil" "tx_walletID tx \<noteq> uuid_Nil" "tx_playerID tx \<noteq> uuid_Nil"
    using NewExternal_fields [OF fresh(6)] by (auto simp: external_params_def)
  moreover have "tx_idempotencyKey t = tx_idempotencyKey tx" "tx_payloadHash t = tx_payloadHash tx"
    "tx_id t = tx_id tx" "tx_walletID t = tx_walletID tx" "tx_playerID t = tx_playerID tx"
    using t(2) tx' by (cases t; cases tx; simp add: tx_frozen_def)+
  ultimately have row: "tr_idempotency_key (tx_to_row t s) = Some (pc_IdempotencyKey cmd)" "answers cmd (tx_to_row t s) t"
    by (simp_all add: tx_to_row_def nullString_def answers_def)
  have "db_tx d' = db_tx d1" using fresh(9) by (auto simp: inbox_recorded_def split: if_splits)
  then have "tx_to_row t s \<in> set (db_tx d')" by (simp add: ins)
  then have "find_key (pc_IdempotencyKey cmd) d' = Some (tx_to_row t s)" using find_key_unique [OF ok(2)] row(1) by blast
  then show ?thesis using row(2) by (simp add: t(1) outcome_def)
qed (use none in simp)

text \<open>Once a key is stored, a call with it can only replay.\<close>

lemma wager_spec_known:
  assumes spec: "wager_spec E cmd now d d' out" and known: "find_key (pc_IdempotencyKey cmd) d = Some row"
    and http: "pc_MessageID cmd = []"
  shows "d' = d \<and> out = replayResult (ps_Transaction out) \<and> ps_IdempotentReplay out \<and> toDomain row = Inr (ps_Transaction out)
    \<and> tx_payloadHash (ps_Transaction out) = pc_PayloadHash cmd"
  using spec
proof (cases rule: wager_specE)
  case (key w row' t)
  then show ?thesis using known http by (simp add: inbox_recorded_def replayResult_def)
qed (use known http in \<open>auto simp: find_message_def replayResult_def\<close>)

lemma wager_spec_message:
  assumes "wager_spec E cmd now d d' out" "find_message cmd d = Some rec"
  shows "d' = d \<and> ir_payload_hash rec = pc_PayloadHash cmd \<and> ps_IdempotentReplay out
    \<and> tx_id (ps_Transaction out) = ir_wager_transaction_id rec"
  using assms(1)
proof (cases rule: wager_specE)
  case (message w rec' row t)
  have "tr_id row = ir_wager_transaction_id rec'" using message(7) by (auto simp: find_Some_iff)
  then show ?thesis using message assms(2) toDomain_row by (auto simp: replayResult_def)
qed (use assms(2) in \<open>auto simp: find_message_def\<close>)

section \<open>What a fresh operation does to the money\<close>

definition funds_moved :: "process_command \<Rightarrow> int \<Rightarrow> time \<Rightarrow> db \<Rightarrow> db \<Rightarrow> bool" where
  "funds_moved cmd sign now d d' \<longleftrightarrow>
     db_wallet d' = map (\<lambda>r. if wr_id r = pc_WalletID cmd
       then r\<lparr>wr_balance_minor_units := word_of_int (sint (wr_balance_minor_units r) + sign * money_minor (pc_Money cmd)),
              wr_version := wr_version r + 1, wr_updated_at := timestamptz now\<rparr> else r) (db_wallet d)
     \<and> (\<exists>l. db_ledger d' = db_ledger d @ [l] \<and> lr_wallet_id l = pc_WalletID cmd
          \<and> row_signed l = sign * money_minor (pc_Money cmd))"

definition funds_untouched :: "db \<Rightarrow> db \<Rightarrow> bool" where
  "funds_untouched d d' \<longleftrightarrow> db_wallet d' = db_wallet d \<and> db_ledger d' = db_ledger d \<and> db_journal d' = db_journal d"

lemma wallet_row_unique:
  assumes "schema_ok d" "a \<in> set (db_wallet d)" "b \<in> set (db_wallet d)" "wr_id a = wr_id b"
  shows "a = b"
proof (rule unique_byD [OF _ assms(2,3)])
  show "unique_by (\<lambda>a b. wr_id a = wr_id b) (db_wallet d)"
    using assms(1) by (simp add: schema_ok_def wallet_table_ok_def)
qed (simp_all add: assms(4))

lemma wallet_at_row:
  assumes "wallet_at d i w" "schema_ok d" "row \<in> set (db_wallet d)" "wr_id row = i"
  shows "wallet_of_row row = Inr w"
proof -
  obtain r where "r \<in> set (db_wallet d)" "wr_id r = i" "wallet_of_row r = Inr w" using assms(1) by (rule wallet_atD)
  then show ?thesis using wallet_row_unique [OF assms(2) _ assms(3)] assms(4) by auto
qed

lemma effect_moved_funds:
  assumes eff: "effect_moved E R t w w' dir now d d'" and ok: "schema_ok d"
    and at: "wallet_at d (pc_WalletID cmd) w" and money: "tx_money t = pc_Money cmd"
    and mv: "applyMovement w dir (tx_money t) now = Inr w'"
  shows "funds_moved cmd (direction_sign dir) now d d'
    \<and> money_minor (wlt_balance w') = wallet_minor w + direction_sign dir * money_minor (pc_Money cmd)"
proof -
  obtain row where row: "row \<in> set (db_wallet d)" "wr_id row = pc_WalletID cmd" "wallet_of_row row = Inr w"
    using at by (rule wallet_atD)
  note fields = wallet_of_row_fields [OF row(3)]
  have m: "wlt_id w' = pc_WalletID cmd" "wlt_version w' = wr_version row + 1" "wlt_updatedAt w' = now"
    "wallet_minor w' = sint (wr_balance_minor_units row) + direction_sign dir * money_minor (pc_Money cmd)"
    "dir \<in> {Debit, Credit}"
    using applyMovement_Inr [OF mv] fields row(2) money by simp_all
  then have b: "minorUnits (wlt_balance w') =
      word_of_int (sint (wr_balance_minor_units row) + direction_sign dir * money_minor (pc_Money cmd))"
    by (metis wallet_minor_def word_of_sint64)
  obtain entry es o1 o2 n t0 lid where
      upd: "update_wallet_balance (wlt_id w') (wlt_version w) (minorUnits (wlt_balance w')) (wlt_version w')
         (timestamptz (wlt_updatedAt w')) t0 d = Inr (n, d\<lparr>db_wallet := db_wallet d'\<rparr>)"
    and le: "NewWalletLedgerEntry \<lparr>nl_ID = lid, nl_WalletID = wlt_id w', nl_TransactionID = tx_id t,
         nl_Direction = dir, nl_Amount = tx_money t, nl_BalanceBefore = wlt_balance w, nl_Now = now\<rparr> = Inr entry"
    and d': "d' = d\<lparr>db_tx := db_tx d', db_wallet := db_wallet d', db_ledger := db_ledger d @ [ledger_to_row entry],
         db_journal := db_journal d @ map journal_to_row es, db_outbox := db_outbox d @ [o1, o2]\<rparr>"
    using eff unfolding effect_moved_def by blast
  have led: "db_ledger d' = db_ledger d @ [ledger_to_row entry]" by (subst d', simp)
  have "db_wallet d' = map (\<lambda>r. if wr_id r = wlt_id w' \<and> wr_version r = wlt_version w
      then r\<lparr>wr_balance_minor_units := minorUnits (wlt_balance w'), wr_version := wlt_version w',
             wr_updated_at := timestamptz (wlt_updatedAt w')\<rparr> else r) (db_wallet d)"
    using upd by (simp add: update_wallet_Inr db_wallet_update_eq)
  also have "\<dots> = map (\<lambda>r. if wr_id r = pc_WalletID cmd
       then r\<lparr>wr_balance_minor_units := word_of_int (sint (wr_balance_minor_units r)
                + direction_sign dir * money_minor (pc_Money cmd)),
              wr_version := wr_version r + 1, wr_updated_at := timestamptz now\<rparr> else r) (db_wallet d)"
  proof (rule map_cong [OF refl])
    fix r assume "r \<in> set (db_wallet d)"
    then have "wr_id r = pc_WalletID cmd \<longrightarrow> r = row" using wallet_row_unique [OF ok _ row(1)] row(2) by auto
    then show "(if wr_id r = wlt_id w' \<and> wr_version r = wlt_version w
      then r\<lparr>wr_balance_minor_units := minorUnits (wlt_balance w'), wr_version := wlt_version w',
             wr_updated_at := timestamptz (wlt_updatedAt w')\<rparr> else r) =
      (if wr_id r = pc_WalletID cmd
       then r\<lparr>wr_balance_minor_units := word_of_int (sint (wr_balance_minor_units r)
                + direction_sign dir * money_minor (pc_Money cmd)),
              wr_version := wr_version r + 1, wr_updated_at := timestamptz now\<rparr> else r)"
      using m b fields by auto
  qed
  finally have wal: "db_wallet d' = map (\<lambda>r. if wr_id r = pc_WalletID cmd
       then r\<lparr>wr_balance_minor_units := word_of_int (sint (wr_balance_minor_units r)
                + direction_sign dir * money_minor (pc_Money cmd)),
              wr_version := wr_version r + 1, wr_updated_at := timestamptz now\<rparr> else r) (db_wallet d)" .
  show ?thesis
    using wal led row_signed_entry [OF le] m fields money
    by (auto simp: funds_moved_def wallet_minor_def money_minor_def)
qed

lemma effect_still_untouched: "effect_still R t ev d d' \<Longrightarrow> funds_untouched d d'"
  unfolding effect_still_def funds_untouched_def by (metis (no_types, lifting)
      db.select_convs db.surjective db.update_convs)

lemma inbox_recorded_funds:
  "inbox_recorded cmd i now d1 d' \<Longrightarrow> db_wallet d' = db_wallet d1 \<and> db_ledger d' = db_ledger d1 \<and> db_journal d' = db_journal d1"
  by (auto simp: inbox_recorded_def split: if_splits)

lemma funds_frame:
  assumes "db_wallet d' = db_wallet d1 \<and> db_ledger d' = db_ledger d1 \<and> db_journal d' = db_journal d1"
  shows "funds_moved cmd s now d d1 \<Longrightarrow> funds_moved cmd s now d d'" "funds_untouched d d1 \<Longrightarrow> funds_untouched d d'"
  using assms by (simp_all add: funds_moved_def funds_untouched_def)

lemma NewExternal_cmd:
  assumes "NewExternal (external_params cmd i now) = Inr tx"
  shows "tx_walletID tx = pc_WalletID cmd \<and> tx_kind tx = pc_Kind cmd \<and> tx_money tx = pc_Money cmd
    \<and> Kind_IsValidExternal (pc_Kind cmd) \<and> tx_status tx = Pending
    \<and> (pc_Kind cmd \<noteq> Loss \<longrightarrow> 0 < money_minor (pc_Money cmd))"
  using NewExternal_fields(1) [OF assms] NewExternal_wf [OF assms]
  by (auto simp: external_params_def tx_wf_def tx_origin_def)

text \<open>A processed operation other than a loss moves the wallet by its amount, in a direction its
  kind allows; every other outcome leaves the money alone.\<close>

lemma wager_spec_funds:
  assumes spec: "wager_spec E cmd now d d' out" and new: "\<not> ps_IdempotentReplay out" and ok: "schema_ok d"
  shows "if tx_status (ps_Transaction out) = Processed \<and> pc_Kind cmd \<noteq> Loss
    then \<exists>dir. posts (kind_string (pc_Kind cmd)) (direction_string dir)
      \<and> dir \<in> {Debit, Credit} \<and> funds_moved cmd (direction_sign dir) now d d'
    else funds_untouched d d'"
  using spec
proof (cases rule: wager_specE)
  case (fresh w i tx dec tx' d1)
  note cmd = NewExternal_cmd [OF fresh(6)]
  note frame = funds_frame [OF inbox_recorded_funds [OF fresh(9)]]
  obtain j where tx': "tx' = tx\<lparr>tx_referenceTransactionID := j\<rparr>" using decides_frame [OF fresh(7)] by blast
  have quiet: ?thesis if "effect_still tx_inserted t ev d d1" "tx_status t \<noteq> Processed \<or> pc_Kind cmd = Loss"
    "out = outcome t b" for t ev b
    using frame(2) [OF effect_still_untouched [OF that(1)]] that(2,3) by (auto simp: outcome_def)
  show ?thesis
    using fresh(8)
  proof (cases rule: settlesE)
    case (moved w' t)
    have t: "tx_money t = pc_Money cmd" "tx_status t = Processed" "tx_money tx' = pc_Money cmd" "tx_kind tx' = pc_Kind cmd"
      using moved(5) tx' cmd by (auto simp: MarkProcessed_Inr_iff)
    have "posts (kind_string (pc_Kind cmd)) (direction_string (dc_direction dec))"
      using decides_ready [OF fresh(7) moved(2)] moved(3) t by simp
    moreover have "dc_direction dec \<in> {Debit, Credit}"
      using moved(4) by (cases "dc_direction dec") auto
    moreover have "pc_Kind cmd \<noteq> Loss" using calculation(1) by (auto simp: posts_def)
    moreover have "funds_moved cmd (direction_sign (dc_direction dec)) now d d1"
      using effect_moved_funds [OF moved(6) ok fresh(1) t(1)] moved(4) t by simp
    ultimately show ?thesis using frame(1) moved(1) t(2) by (auto simp: outcome_def)
  next
    case (still t)
    have "tx_kind tx' = Loss" using decides_ready [OF fresh(7) still(2)] still(3) by simp
    then show ?thesis using quiet [OF still(5) _ still(1)] tx' cmd by simp
  next
    case (pended t)
    then show ?thesis using quiet [OF pended(4) _ pended(1)] by (auto simp: MarkPendingReference_Inr_iff)
  next
    case (rejected t)
    then show ?thesis using quiet [OF rejected(4) _ rejected(1)] by (auto simp: MarkRejected_Inr_iff)
  next
    case (refused err t)
    then show ?thesis using quiet [OF refused(7) _ refused(1)] by (auto simp: MarkRejected_Inr_iff)
  qed
qed (use new in \<open>simp_all add: replayResult_def\<close>)

definition rejected_with :: "failure_code \<Rightarrow> process_result \<Rightarrow> bool" where
  "rejected_with code out \<longleftrightarrow> tx_status (ps_Transaction out) = Rejected \<and> tx_failureCode (ps_Transaction out) = code"

lemma wager_spec_bet:
  assumes spec: "wager_spec E cmd now d d' out" and new: "\<not> ps_IdempotentReplay out" and ok: "schema_ok d"
    and bet: "pc_Kind cmd = Bet" and row: "row \<in> set (db_wallet d)" "wr_id row = pc_WalletID cmd"
  shows "if moneyCurrency (pc_Money cmd) \<noteq> wr_currency row
      then rejected_with FailureCurrencyMismatch out \<and> funds_untouched d d'
    else if sint (wr_balance_minor_units row) < money_minor (pc_Money cmd)
      then rejected_with FailureInsufficientBalance out \<and> funds_untouched d d'
    else tx_status (ps_Transaction out) = Processed \<and> funds_moved cmd (- 1) now d d'
      \<and> money_minor (ps_Balance out) = sint (wr_balance_minor_units row) - money_minor (pc_Money cmd)"
  using spec
proof (cases rule: wager_specE)
  case (fresh w i tx dec tx' d1)
  note cmd = NewExternal_cmd [OF fresh(6)]
  have tx': "tx_kind tx' = Bet" "tx_money tx' = pc_Money cmd" "tx_kind tx = Bet"
    using decides_frame [OF fresh(7)] cmd bet by auto
  note frame = funds_frame [OF inbox_recorded_funds [OF fresh(9)]]
  have wor: "wallet_of_row row = Inr w" by (rule wallet_at_row [OF fresh(1) ok row])
  note wf = wallet_of_row_fields [OF wor]
  show ?thesis
  proof (cases "moneyCurrency (pc_Money cmd) = wr_currency row")
    case False
    then have "dec = decision_reject FailureCurrencyMismatch"
      using fresh(7) wf cmd tx' by (auto elim!: decidesE)
    then show ?thesis
      using fresh(8) False frame(2)
      by (auto elim!: settlesE simp: decision_reject_def rejected_with_def outcome_def MarkRejected_Inr_iff
          dest: effect_still_untouched)
  next
    case True
    then have dec: "dec = decision_process Debit"
      using fresh(7) wf cmd tx' by (auto elim!: decidesE)
    have debit: "applyMovement w Debit (pc_Money cmd) now =
       (if wallet_minor w < money_minor (pc_Money cmd) then Inl (WalletErr ErrInsufficientBalance)
        else Inr (w\<lparr>wlt_balance := \<lparr>minorUnits = minorUnits (wlt_balance w) - minorUnits (pc_Money cmd),
            moneyCurrency = wlt_currency w\<rparr>, wlt_version := wlt_version w + 1, wlt_updatedAt := now\<rparr>))"
      using Wallet_Debit_cases [of w "pc_Money cmd" now] wf True cmd bet by simp
    show ?thesis
    proof (cases "sint (wr_balance_minor_units row) < money_minor (pc_Money cmd)")
      case low: True
      then have "applyMovement w Debit (tx_money tx') now = Inl (WalletErr ErrInsufficientBalance)"
        using debit wf tx' by simp
      then show ?thesis
        using fresh(8) True low frame(2) dec tx'
        by (auto elim!: settlesE simp: decision_process_def rejected_with_def outcome_def MarkRejected_Inr_iff
            insufficient_code_def Kind_RequiresReference_def dest: effect_still_untouched)
    next
      case enough: False
      then obtain w' where mv: "applyMovement w Debit (pc_Money cmd) now = Inr w'" using debit wf by simp
      show ?thesis
        using fresh(8)
      proof (cases rule: settlesE)
        case (moved w2 t)
        have t: "tx_money t = pc_Money cmd" "tx_status t = Processed"
          using moved(5) tx' by (auto simp: MarkProcessed_Inr_iff)
        have "funds_moved cmd (- 1) now d d1 \<and> money_minor (wlt_balance w2) = wallet_minor w - money_minor (pc_Money cmd)"
          using effect_moved_funds [OF moved(6) ok fresh(1) t(1)] moved(4) t dec tx' by (simp add: decision_process_def)
        then show ?thesis
          using True enough frame(1) moved(1) t(2) wf by (simp add: outcome_def)
      qed (use dec mv tx' in \<open>auto simp: decision_process_def\<close>)
    qed
  qed
qed (use new in \<open>simp_all add: replayResult_def\<close>)

section \<open>Reading a call\<close>

lemma Execute_success:
  assumes "ProcessWager_Execute E cmd w = (Inr out, w')"
  obtains now where "wager_spec E cmd now (wd_db w) (wd_db w') out"
  using ProcessWager_effect [OF assms] by (auto simp: wager_effect_def)

lemma Execute_reaches: "ProcessWager_Execute E cmd w = (r, w') \<Longrightarrow> reaches E (wd_db w) (wd_db w')"
  by (rule keepsD [OF keeps_reaches_Execute _ rtranclp.rtrancl_refl])

lemma reachable_schema: "(transaction S)\<^sup>*\<^sup>* d d' \<Longrightarrow> schema_ok d \<Longrightarrow> schema_ok d'"
  by (rule schema.transactions_keep)

lemma no_message: "pc_MessageID cmd = [] \<Longrightarrow> find_message cmd d = None"
  by (simp add: find_message_def)


section \<open>A retry is answered\<close>

lemma same_tx_columns:
  "same_tx a b \<Longrightarrow> tr_id b = tr_id a \<and> tr_wallet_id b = tr_wallet_id a \<and> tr_player_id b = tr_player_id a
     \<and> tr_payload_hash b = tr_payload_hash a \<and> (terminal_status (tr_status a) \<longrightarrow> tr_status b = tr_status a)"
  by (cases a; cases b) (auto simp: same_tx_def split: if_splits)

lemma answers_later:
  assumes "find_key k d = Some row" "answers cmd row t" "Tx_IsTerminal t" "db_extends d d'" "schema_ok d'"
  shows "\<exists>row'. find_key k d' = Some row' \<and> answers cmd row' t"
proof -
  have row: "row \<in> set (db_tx d)" "tr_idempotency_key row = Some k" using find_keyD [OF assms(1)] by simp_all
  obtain row' where row': "row' \<in> set (db_tx d')" "same_tx row row'"
    using grows_member [of same_tx "db_tx d" "db_tx d'" row] row(1) assms(4) by (auto simp: db_extends_def)
  then have "find_key k d' = Some row'" using same_tx_identity row(2) find_key_unique [OF assms(5)] by metis
  moreover have "terminal_status (tr_status row)"
    using assms(2,3) by (auto simp: answers_def Tx_IsTerminal_def Status_IsTerminal_def terminal_status_def)
  ultimately show ?thesis using same_tx_columns [OF row'(2)] assms(2) by (auto simp: answers_def)
qed

text \<open>A row that answers is one the server can read.\<close>

lemma answers_readable:
  assumes "schema_ok d" "row \<in> set (db_tx d)" "answers cmd row t"
  shows "\<exists>u. toDomain row = Inr u \<and> tx_id u = tx_id t \<and> tx_status u = status_of_string (tr_status row)
    \<and> tx_payloadHash u = pc_PayloadHash cmd"
proof -
  have "list_all snd (tx_checks row)" using assms(1,2) by (simp add: schema_ok_def tx_table_ok_def)
  then have "Kind_IsValid (kind_of_string (tr_kind row))" "Status_IsValid (status_of_string (tr_status row))"
    by (auto simp: tx_checks_def kind_of_string_def status_of_string_def Kind_IsValid_def Kind_IsValidExternal_def)
  then show ?thesis using assms(3)
    by (auto simp: toDomain_def wagertx_Rehydrate_def answers_def derefString_def)
qed

lemma Execute_replays:
  assumes "find_key (pc_IdempotencyKey cmd) (wd_db w) = Some row" "toDomain row = Inr t"
    and "tx_payloadHash t = pc_PayloadHash cmd" "Tx_IsTerminal t" "pc_MessageID cmd = []"
    and "driver_fault E (wd_calls w) = None"
  shows "ProcessWager_Execute E cmd w =
    (Inr (replayResult t), w\<lparr>wd_calls := Suc (wd_calls w), wd_clock := Suc (wd_clock w)\<rparr>)"
  using assms
  by (simp add: ProcessWager_Execute_def bindP_def read_clock_def or_else_def fastReplay_def found_or_absent_def
      tryP_def wrapP_def retP_def liftR_def transactionRepo_GetByIdempotencyKey_def transactionRepo_scanOne_def
      sql_def Let_def select_tx_def find_key_def)

end
