(* ===== verification/Cursor.thy ===== *)
theory Cursor
  imports GoTime Errors Environment
begin

text \<open>
  The cursor of the ledger pages (\<open>internal/postgres/ledger_repo.go\<close>): a time and an identifier,
  printed, joined by a bar and encoded with \<open>base64.RawURLEncoding\<close>.
\<close>

section \<open>base64.RawURLEncoding\<close>

definition b64_char :: "nat \<Rightarrow> char" where
  "b64_char n = (if n < 26 then char_of (65 + n) else if n < 52 then char_of (71 + n)
     else if n < 62 then char_of (n - 4) else if n = 62 then CHR ''-'' else CHR ''_'')"

definition b64_value :: "char \<Rightarrow> nat option" where
  "b64_value c =
     (let n = of_char c in
      if 65 \<le> n \<and> n \<le> 90 then Some (n - 65)
      else if 97 \<le> n \<and> n \<le> 122 then Some (n - 71)
      else if 48 \<le> n \<and> n \<le> 57 then Some (n + 4)
      else if c = CHR ''-'' then Some 62
      else if c = CHR ''_'' then Some 63
      else None)"

fun b64_quanta :: "nat list \<Rightarrow> nat list" where
  "b64_quanta [] = []"
| "b64_quanta [a] = [a div 4, a mod 4 * 16]"
| "b64_quanta [a, b] = [a div 4, a mod 4 * 16 + b div 16, b mod 16 * 4]"
| "b64_quanta (a # b # c # bs) =
     [a div 4, a mod 4 * 16 + b div 16, b mod 16 * 4 + c div 64, c mod 64] @ b64_quanta bs"

text \<open>The decoder skips line breaks, refuses any other character outside the alphabet and a single
  character at the end, and ignores the bits that do not fill a byte.\<close>

fun b64_bytes :: "nat list \<Rightarrow> nat list option" where
  "b64_bytes [] = Some []"
| "b64_bytes [p] = None"
| "b64_bytes [p, q] = Some [p * 4 + q div 16]"
| "b64_bytes [p, q, r] = Some [p * 4 + q div 16, q mod 16 * 16 + r div 4]"
| "b64_bytes (p # q # r # s # ps) =
     map_option (\<lambda>bs. [p * 4 + q div 16, q mod 16 * 16 + r div 4, r mod 4 * 64 + s] @ bs) (b64_bytes ps)"

definition EncodeToString :: "string \<Rightarrow> string" where
  "EncodeToString s = map b64_char (b64_quanta (map of_char s))"

definition DecodeString :: "string \<Rightarrow> string option" where
  "DecodeString s =
     (let ps = map b64_value (filter (\<lambda>c. c \<noteq> CHR 0x0A \<and> c \<noteq> CHR 0x0D) s) in
      if None \<in> set ps then None else map_option (map char_of) (b64_bytes (map the ps)))"

lemma b64_value_char: "n < 64 \<Longrightarrow> b64_value (b64_char n) = Some n"
  by (auto simp: b64_char_def b64_value_def Let_def not_less)

lemma b64_char_no_break: "n < 64 \<Longrightarrow> b64_char n \<noteq> CHR 0x0A \<and> b64_char n \<noteq> CHR 0x0D"
  using b64_value_char [of n] by (auto simp: b64_value_def)

lemma b64_quanta_small: "\<forall>b \<in> set bs. b < 256 \<Longrightarrow> \<forall>q \<in> set (b64_quanta bs). q < 64"
proof (induction bs rule: b64_quanta.induct)
  case (4 a b c bs)
  have "b div 16 < 16" "c div 64 < 4" using 4 by auto
  moreover have "a mod 4 \<le> 3" "b mod 16 \<le> 15" by auto
  ultimately have "a mod 4 * 16 + b div 16 < 64" "b mod 16 * 4 + c div 64 < 64" by linarith+
  then show ?case using 4 by auto
next
  case (3 a b)
  have "b div 16 < 16" using 3 by auto
  moreover have "a mod 4 \<le> 3" "b mod 16 \<le> 15" by auto
  ultimately have "a mod 4 * 16 + b div 16 < 64" "b mod 16 * 4 < 64" by linarith+
  then show ?case using 3 by auto
next
  case (2 a)
  moreover have "a mod 4 \<le> 3" by auto
  then have "a mod 4 * 16 < 64" by linarith
  ultimately show ?case by auto
qed simp

lemma b64_bytes_quanta: "\<forall>b \<in> set bs. b < 256 \<Longrightarrow> b64_bytes (b64_quanta bs) = Some bs"
  by (induction bs rule: b64_quanta.induct) auto

lemma DecodeString_EncodeToString: "DecodeString (EncodeToString s) = Some s"
proof -
  let ?bs = "map of_char s :: nat list"
  have bs: "\<forall>b \<in> set ?bs. b < 256" by simp
  note qs = b64_quanta_small [OF bs]
  have "filter (\<lambda>c. c \<noteq> CHR 0x0A \<and> c \<noteq> CHR 0x0D) (EncodeToString s) = EncodeToString s"
    using qs b64_char_no_break by (simp add: EncodeToString_def filter_id_conv)
  moreover have "map b64_value (EncodeToString s) = map Some (b64_quanta ?bs)"
    using qs b64_value_char by (simp add: EncodeToString_def)
  moreover have "map char_of ?bs = s" by (simp add: comp_def map_idI)
  ultimately show ?thesis using b64_bytes_quanta [OF bs] by (simp add: DecodeString_def Let_def comp_def)
qed

section \<open>The cursor\<close>

definition encodeLedgerCursor :: "env \<Rightarrow> time \<Rightarrow> uuid \<Rightarrow> string" where
  "encodeLedgerCursor E createdAt i = EncodeToString (rfc3339nano createdAt @ ''|'' @ uuid_String E i)"

definition malformed_cursor :: "goerr" where
  "malformed_cursor = WrapErr ''malformed cursor'' (AppErr ErrNotFound)"

definition decodeLedgerCursor :: "env \<Rightarrow> string \<Rightarrow> goerr + (time \<times> uuid)" where
  "decodeLedgerCursor E cursor =
     (case DecodeString cursor of
        None \<Rightarrow> Inl malformed_cursor
      | Some raw \<Rightarrow>
          (case dropWhile (\<lambda>c. c \<noteq> CHR ''|'') raw of
             [] \<Rightarrow> Inl malformed_cursor
           | _ # part1 \<Rightarrow>
               (case parse_rfc3339nano (takeWhile (\<lambda>c. c \<noteq> CHR ''|'') raw) of
                  None \<Rightarrow> Inl (WrapErr ''malformed cursor timestamp'' (AppErr ErrNotFound))
                | Some createdAt \<Rightarrow>
                    (case uuid_Parse E part1 of
                       None \<Rightarrow> Inl (WrapErr ''malformed cursor id'' (AppErr ErrNotFound))
                     | Some i \<Rightarrow> Inr (createdAt, i)))))"

lemma digits_no_bar: "list_all is_digit s \<Longrightarrow> CHR ''|'' \<notin> set s"
  by (auto simp: list_all_iff is_digit_def)

lemma rfc3339nano_no_bar: "CHR ''|'' \<notin> set (rfc3339nano t)"
proof -
  have "CHR ''|'' \<notin> set (show_pad2 n)" if "n < 100" for n
    using show_pad2_digits [OF that] by (rule digits_no_bar)
  moreover have pad: "CHR ''|'' \<notin> set (show_padded k n)" for k n
    using digits_no_bar [OF show_nat_digits [of n]] by (auto simp: show_padded_def)
  moreover have "CHR ''|'' \<notin> set (show_year y)" for y using pad by (simp add: show_year_def)
  moreover have "CHR ''|'' \<notin> set (show_fraction n)" for n
    using pad [of 9 n] by (auto simp: show_fraction_def dest: set_dropWhileD)
  moreover obtain y m d where c: "civil_from_days (t div nanos_per_day) = (y, m, d)" by (metis prod_cases3)
  moreover have "m < 100" "d < 100" using civil_from_days_correct [OF c] by (auto simp: daysIn_def split: if_splits)
  moreover have "nat (t mod nanos_per_day) div 1000000000 div 3600 < 100" by (simp add: nanos_per_day_def)
  ultimately show ?thesis by (simp add: rfc3339nano_def Let_def)
qed

definition printable :: "time \<Rightarrow> bool" where
  "printable t \<longleftrightarrow> (case civil_from_days (t div nanos_per_day) of (y, m, d) \<Rightarrow> 0 \<le> y \<and> y \<le> 9999)"

lemma cursor_decodes:
  assumes "printable t" "uuid_Parse E (uuid_String E i) = Some i"
  shows "decodeLedgerCursor E (encodeLedgerCursor E t i) = Inr (t, i)"
proof -
  obtain y m d where c: "civil_from_days (t div nanos_per_day) = (y, m, d)" by (metis prod_cases3)
  have "takeWhile (\<lambda>c. c \<noteq> CHR ''|'') (rfc3339nano t @ ''|'' @ uuid_String E i) = rfc3339nano t"
    "dropWhile (\<lambda>c. c \<noteq> CHR ''|'') (rfc3339nano t @ ''|'' @ uuid_String E i) = CHR ''|'' # uuid_String E i"
    using rfc3339nano_no_bar [of t] by (auto simp: takeWhile_append dropWhile_append)
  then show ?thesis
    using DecodeString_EncodeToString [of "rfc3339nano t @ ''|'' @ uuid_String E i"] parse_print [OF c] assms c
    by (simp add: decodeLedgerCursor_def encodeLedgerCursor_def printable_def)
qed

text \<open>A cursor that the service hands out is read back as the time and the identifier it was
  made from, for every time of the years 0 to 9999, given that \<open>uuid.Parse\<close> reads what
  \<open>UUID.String\<close> prints.\<close>

theorem cursor_round_trip:
  assumes "printable t" and "uuid_Parse E (uuid_String E i) = Some i"
  shows "decodeLedgerCursor E (encodeLedgerCursor E t i) = Inr (t, i)"
  using assms by (rule cursor_decodes)

lemma calm_uuid_round_trip: "uuid_Parse calm_env (uuid_String calm_env u) = Some u"
  by (simp add: calm_env_def show_nat_digits)

theorem cursor_round_trip_witness:
  "decodeLedgerCursor calm_env (encodeLedgerCursor calm_env 63900000000123456000 1002) = Inr (63900000000123456000, 1002)"
proof -
  have "uuid_Parse calm_env (uuid_String calm_env 1002) = Some 1002" by (rule calm_uuid_round_trip)
  moreover have "printable 63900000000123456000" by code_simp
  ultimately show ?thesis by (rule cursor_round_trip [rotated])
qed

end
