(* ===== verification/LedgerPage.thy ===== *)
theory LedgerPage
  imports System Cursor "HOL-Library.Product_Lexorder"
begin

text \<open>
  The pages of the ledger: \<open>ledgerRepo.Page\<close> of \<open>internal/postgres/ledger_repo.go\<close> and
  \<open>Queries.GetLedger\<close> of \<open>internal/app/queries.go\<close>. A page starts after its cursor in the order
  of creation time and identifier, and asks for one row more than it returns to know whether another
  page follows. A cut of the entries to a page of length 0 would panic; \<open>GetLedger\<close> never asks for it.
\<close>

definition ledger_key :: "ledger_row \<Rightarrow> time \<times> uuid" where
  "ledger_key l = (lr_created_at l, lr_id l)"

definition ledger_page :: "uuid \<Rightarrow> (time \<times> uuid) option \<Rightarrow> nat \<Rightarrow> db \<Rightarrow> ledger_row list" where
  "ledger_page i after n d = take n (sort_key ledger_key (filter (\<lambda>l. case after of
       None \<Rightarrow> True | Some (t, j) \<Rightarrow> (timestamptz t, j) < ledger_key l) (ledger_of i d)))"

definition wallet_currency :: "uuid \<Rightarrow> db \<Rightarrow> currency option" where
  "wallet_currency i d = map_option wr_currency (find (\<lambda>r. wr_id r = i) (db_wallet d))"

definition direction_of_string :: "string \<Rightarrow> direction" where
  "direction_of_string s = (if s = ''DEBIT'' then Debit else if s = ''CREDIT'' then Credit else UnknownDirection s)"

definition ledger_of_row :: "currency \<Rightarrow> ledger_row \<Rightarrow> goerr + ledger_entry" where
  "ledger_of_row cur l = RehydrateWalletLedgerEntry
     \<lparr>le_id = lr_id l, le_walletID = lr_wallet_id l, le_transactionID = lr_transaction_id l,
      le_direction = direction_of_string (lr_direction l),
      le_amount = FromMinorUnits (lr_amount_minor_units l) cur,
      le_balanceBefore = FromMinorUnits (lr_balance_before_minor_units l) cur,
      le_balanceAfter = FromMinorUnits (lr_balance_after_minor_units l) cur,
      le_createdAt = lr_created_at l\<rparr>"

text \<open>Scanning a currency that is NULL into a string fails; there is one value per row.\<close>

definition scan_ledger_row :: "currency option \<Rightarrow> ledger_row \<Rightarrow> goerr + ledger_entry" where
  "scan_ledger_row currency l =
     (case currency of
        None \<Rightarrow> Inl (WrapErr ''scanning ledger entry'' (DriverErr ''cannot scan NULL into *string''))
      | Some cur \<Rightarrow> ledger_of_row cur l)"

definition ledgerRepo_Page ::
  "env \<Rightarrow> querier \<Rightarrow> uuid \<Rightarrow> string \<Rightarrow> int \<Rightarrow> (ledger_entry list \<times> string) prog" where
  "ledgerRepo_Page E q i cursor limit =
     bindP (if cursor = [] then retP None else bindP (liftR (decodeLedgerCursor E cursor)) (\<lambda>p. retP (Some p)))
       (\<lambda>after.
     bindP (wrapP ''selecting ledger page'' (sql E q (query (\<lambda>now d.
         (ledger_page i after (nat (limit + 1)) d, wallet_currency i d))))) (\<lambda>(rows, currency).
     bindP (liftR (mapR (scan_ledger_row currency) rows)) (\<lambda>entries.
     if limit < int (length entries)
     then (let es = take (nat limit) entries
           in retP (es, encodeLedgerCursor E (le_createdAt (last es)) (le_id (last es))))
     else retP (entries, []))))"

definition Queries_GetLedger ::
  "env \<Rightarrow> identity \<Rightarrow> uuid \<Rightarrow> string \<Rightarrow> int \<Rightarrow> (ledger_entry list \<times> string) prog" where
  "Queries_GetLedger E who i cursor limit =
     (if \<not> MayUseWalletOperations who then failP (AppErr ErrForbidden)
      else ledgerRepo_Page E Pool i cursor (if limit \<le> 0 \<or> 200 < limit then 50 else limit))"

text \<open>A client that follows the cursors, at most \<open>n\<close> times.\<close>

fun read_pages :: "env \<Rightarrow> identity \<Rightarrow> uuid \<Rightarrow> int \<Rightarrow> nat \<Rightarrow> string \<Rightarrow> ledger_entry list prog" where
  "read_pages E who i limit 0 cursor = retP []"
| "read_pages E who i limit (Suc n) cursor =
     bindP (Queries_GetLedger E who i cursor limit) (\<lambda>(es, nxt).
       if nxt = [] then retP es
       else bindP (read_pages E who i limit n nxt) (\<lambda>rest. retP (es @ rest)))"

section \<open>The rows of a page\<close>

lemma ledger_page_take:
  "ledger_page i after n d = take n (filter (\<lambda>l. case after of
       None \<Rightarrow> True | Some (t, j) \<Rightarrow> (timestamptz t, j) < ledger_key l) (sort_key ledger_key (ledger_of i d)))"
  by (simp add: ledger_page_def filter_sort)

lemma filter_after_nth:
  assumes "sorted_wrt (<) (map key xs)" "k < length xs"
  shows "filter (\<lambda>x. (key (xs ! k) :: 'a :: linorder) < key x) xs = drop (Suc k) xs"
proof -
  have order: "key (xs ! j) < key (xs ! l)" if "j < l" "l < length xs" for j l
    using assms(1) that by (simp add: sorted_wrt_iff_nth_less)
  have "\<not> key (xs ! k) < key x" if x: "x \<in> set (take (Suc k) xs)" for x
  proof -
    obtain j where "j < Suc k" "x = xs ! j" using x assms(2) by (auto simp: in_set_conv_nth)
    then show ?thesis using order [of j k] assms(2) by (cases "j = k") (auto dest: less_asym)
  qed
  then have "filter (\<lambda>x. key (xs ! k) < key x) (take (Suc k) xs) = []" by (simp add: filter_empty_conv)
  moreover have "filter (\<lambda>x. key (xs ! k) < key x) (drop (Suc k) xs) = drop (Suc k) xs"
    using order assms(2) by (auto simp: filter_id_conv in_set_conv_nth)
  ultimately show ?thesis by (metis append_Nil append_take_drop_id filter_append)
qed

lemma ledger_sorted:
  assumes "ledger_table_ok d"
  shows "sorted_wrt (<) (map ledger_key (sort_key ledger_key (ledger_of i d)))"
proof -
  let ?rows = "sort_key ledger_key (ledger_of i d)"
  have "distinct (map lr_id (db_ledger d))" using assms by (simp add: ledger_table_ok_def unique_by_distinct)
  then have "distinct (map lr_id (ledger_of i d))" by (simp add: ledger_of_def distinct_map_filter)
  then have "distinct (map ledger_key (ledger_of i d))"
    by (auto simp: distinct_map inj_on_def ledger_key_def)
  then have "distinct (map ledger_key ?rows)" by (simp add: distinct_map)
  then show ?thesis by (simp add: strict_sorted_iff)
qed

lemma exact_word:
  fixes a b c :: int64
  shows "sint c = sint a + sint b \<Longrightarrow> fits64 (sint a + sint b) \<and> a + b = c"
    and "sint c = sint a - sint b \<Longrightarrow> fits64 (sint a - sint b) \<and> a - b = c"
  by (metis fits64_sint int64_homs(1) word_of_sint64) (metis fits64_sint int64_homs(2) word_of_sint64)

text \<open>A stored row becomes an entry that is stored as this row.\<close>

lemma ledger_of_row_ok:
  assumes "list_all snd (ledger_checks l)" "timestamptz (lr_created_at l) = lr_created_at l"
  shows "\<exists>e. ledger_of_row cur l = Inr e \<and> ledger_to_row e = l \<and> le_createdAt e = lr_created_at l"
proof -
  let ?e = "\<lparr>le_id = lr_id l, le_walletID = lr_wallet_id l, le_transactionID = lr_transaction_id l,
      le_direction = direction_of_string (lr_direction l),
      le_amount = FromMinorUnits (lr_amount_minor_units l) cur,
      le_balanceBefore = FromMinorUnits (lr_balance_before_minor_units l) cur,
      le_balanceAfter = FromMinorUnits (lr_balance_after_minor_units l) cur,
      le_createdAt = lr_created_at l\<rparr>"
  have "ledger_to_row ?e = l"
    using assms by (cases l) (auto simp: ledger_to_row_def direction_of_string_def FromMinorUnits_def ledger_checks_def)
  moreover have "ledger_of_row cur l = Inr ?e"
    using assms(1)
    by (auto simp: ledger_of_row_def RehydrateWalletLedgerEntry_Inr_iff direction_of_string_def ledger_checks_def
        FromMinorUnits_def Money_Add_Inr_iff Money_Sub_Inr_iff int64_simps dest!: exact_word)
  ultimately show ?thesis by fastforce
qed

section \<open>Following the cursors\<close>

text \<open>Every row of the ledger has a time in whole microseconds: it was stored so.\<close>

definition ledger_times_ok :: "db \<Rightarrow> bool" where
  "ledger_times_ok d \<longleftrightarrow> (\<forall>l \<in> set (db_ledger d). timestamptz (lr_created_at l) = lr_created_at l)"

interpretation times: statement_invariant ledger_times_ok
  by unfold_locales (auto simp: ledger_times_ok_def ledger_to_row_def statement_Inr update_tx_def update_reference_attempt_def
      claim_outbox_def Let_def update_published_def update_rescheduled_def update_outbox_rows_def)

text \<open>The cursor that continues after the first \<open>k\<close> rows.\<close>

definition cursor_at :: "env \<Rightarrow> ledger_row list \<Rightarrow> nat \<Rightarrow> string \<Rightarrow> bool" where
  "cursor_at E rows k cursor \<longleftrightarrow> (if k = 0 then cursor = []
     else k \<le> length rows \<and> cursor = encodeLedgerCursor E (lr_created_at (rows ! (k - 1))) (lr_id (rows ! (k - 1))))"

definition pageable :: "env \<Rightarrow> uuid \<Rightarrow> db \<Rightarrow> bool" where
  "pageable E i d \<longleftrightarrow> schema_ok d \<and> ledger_times_ok d \<and> (\<forall>l \<in> set (ledger_of i d). printable (lr_created_at l))
     \<and> (\<forall>u. uuid_Parse E (uuid_String E u) = Some u)"

lemma mapR_all:
  "(\<And>x. x \<in> set xs \<Longrightarrow> \<exists>y. f x = Inr y \<and> Q x y) \<Longrightarrow> \<exists>ys. mapR f xs = Inr ys \<and> list_all2 Q xs ys"
  by (induction xs) (auto simp: bindR_def, fastforce)

lemma encoded_nonempty: "encodeLedgerCursor E t i \<noteq> []"
  using DecodeString_EncodeToString [of "rfc3339nano t @ ''|'' @ uuid_String E i"]
  by (auto simp: encodeLedgerCursor_def DecodeString_def)

lemma page_rows:
  assumes "pageable E i d" "rows = sort_key ledger_key (ledger_of i d)" "cursor_at E rows k cursor"
  obtains after where "cursor = [] \<longleftrightarrow> after = None" "after \<noteq> None \<longrightarrow> decodeLedgerCursor E cursor = Inr (the after)"
    "ledger_page i after n d = take n (drop k rows)"
proof (cases "k = 0")
  case True
  then show ?thesis using that [of None] assms by (simp add: cursor_at_def ledger_page_take)
next
  case False
  let ?l = "rows ! (k - 1)"
  have k: "k \<le> length rows" "k - 1 < length rows" using False assms(3) by (auto simp: cursor_at_def)
  then have mem: "?l \<in> set (ledger_of i d)" using assms(2) by (metis nth_mem set_sort)
  then have time: "timestamptz (lr_created_at ?l) = lr_created_at ?l" "printable (lr_created_at ?l)"
    using assms(1) by (auto simp: pageable_def ledger_times_ok_def ledger_of_def)
  have "ledger_table_ok d" using assms(1) by (simp add: pageable_def schema_ok_def)
  then have "filter (\<lambda>l. ledger_key ?l < ledger_key l) rows = drop (Suc (k - 1)) rows"
    using filter_after_nth [OF _ k(2)] ledger_sorted assms(2) by blast
  then have "ledger_page i (Some (ledger_key ?l)) n d = take n (drop k rows)"
    using False time assms(2) by (simp add: ledger_page_take ledger_key_def)
  moreover have "decodeLedgerCursor E cursor = Inr (ledger_key ?l)"
    using cursor_decodes [OF time(2)] assms False by (simp add: pageable_def cursor_at_def ledger_key_def)
  moreover have "cursor \<noteq> []" using assms(3) False encoded_nonempty by (auto simp: cursor_at_def)
  ultimately show ?thesis using that [of "Some (ledger_key ?l)"] by simp
qed

lemma page_entries:
  assumes "pageable E i d" "set ls \<subseteq> set (ledger_of i d)"
  obtains es where "mapR (scan_ledger_row (wallet_currency i d)) ls = Inr es"
    "list_all2 (\<lambda>l e. ledger_to_row e = l \<and> le_createdAt e = lr_created_at l) ls es"
proof -
  have ok: "ledger_table_ok d" "ledger_times_ok d" using assms(1) by (simp_all add: pageable_def schema_ok_def)
  have row: "\<exists>e. scan_ledger_row (wallet_currency i d) l = Inr e \<and> ledger_to_row e = l \<and> le_createdAt e = lr_created_at l"
    if "l \<in> set ls" for l
  proof -
    have l: "l \<in> set (db_ledger d)" "lr_wallet_id l = i" using that assms(2) by (auto simp: ledger_of_def)
    then have "i \<in> wr_id ` set (db_wallet d)" using ok(1) by (auto simp: ledger_table_ok_def)
    then obtain cur where "wallet_currency i d = Some cur"
      by (cases "find (\<lambda>r. wr_id r = i) (db_wallet d)") (auto simp: wallet_currency_def find_None_iff)
    moreover have "list_all snd (ledger_checks l)" "timestamptz (lr_created_at l) = lr_created_at l"
      using l ok by (auto simp: ledger_table_ok_def ledger_times_ok_def)
    ultimately show ?thesis using ledger_of_row_ok by (simp add: scan_ledger_row_def)
  qed
  have "\<exists>es. mapR (scan_ledger_row (wallet_currency i d)) ls = Inr es
      \<and> list_all2 (\<lambda>l e. ledger_to_row e = l \<and> le_createdAt e = lr_created_at l) ls es"
    by (rule mapR_all) (rule row)
  then show ?thesis using that by blast
qed

lemma GetLedger_page:
  assumes page: "pageable E i (wd_db w)" and rows: "rows = sort_key ledger_key (ledger_of i (wd_db w))"
    and cur: "cursor_at E rows k cursor" and who: "id_Internal who" and limit: "0 < limit" "limit \<le> 200"
    and fault: "driver_fault E (wd_calls w) = None"
  obtains es nxt where "Queries_GetLedger E who i cursor limit w = (Inr (es, nxt), w\<lparr>wd_calls := Suc (wd_calls w)\<rparr>)"
    "map ledger_to_row es = take (nat limit) (drop k rows)"
    "if nat limit < length (drop k rows) then nxt \<noteq> [] \<and> cursor_at E rows (k + nat limit) nxt else nxt = []"
proof -
  let ?n = "nat (limit + 1)" and ?ls = "take (nat (limit + 1)) (drop k rows)"
  obtain after where after: "cursor = [] \<longleftrightarrow> after = None" "after \<noteq> None \<longrightarrow> decodeLedgerCursor E cursor = Inr (the after)"
    "ledger_page i after ?n (wd_db w) = ?ls" by (rule page_rows [OF page rows cur, where n = ?n])
  have "set ?ls \<subseteq> set (ledger_of i (wd_db w))" using rows by (metis set_sort set_take_subset set_drop_subset subset_trans)
  from page_entries [OF page this] obtain es where
    mapped: "mapR (scan_ledger_row (wallet_currency i (wd_db w))) ?ls = Inr es"
    and es: "list_all2 (\<lambda>l e. ledger_to_row e = l \<and> le_createdAt e = lr_created_at l) ?ls es" .
  let ?w = "w\<lparr>wd_calls := Suc (wd_calls w)\<rparr>"
  have cursor: "(if cursor = [] then retP None else bindP (liftR (decodeLedgerCursor E cursor)) (\<lambda>p. retP (Some p))) w = (Inr after, w)"
    using after(1,2) by (cases after) (simp_all add: retP_def bindP_def liftR_def)
  have run: "Queries_GetLedger E who i cursor limit w =
      (if limit < int (length es)
       then (let es = take (nat limit) es
           in retP (es, encodeLedgerCursor E (le_createdAt (last es)) (le_id (last es))))
       else retP (es, [])) ?w"
    using who limit fault after(3) mapped cursor
    by (simp add: Queries_GetLedger_def MayUseWalletOperations_def ledgerRepo_Page_def bindP_def [of "if cursor = [] then _ else _"])
      (simp add: bindP_def wrapP_def sql_def Let_def query_def liftR_def)
  have len: "length es = length ?ls" using list_all2_lengthD [OF es] by simp
  have rowsof: "map ledger_to_row es = ?ls" 
    by (rule nth_equalityI) (use es len in \<open>simp_all add: list_all2_conv_all_nth\<close>)
  show ?thesis
  proof (cases "nat limit < length (drop k rows)")
    case True
    then have longer: "length es = Suc (nat limit)" using len limit by simp
    let ?m = "nat limit - 1"
    have last: "last (take (nat limit) es) = es ! ?m" using longer limit by (subst last_conv_nth) auto
    have "?ls ! ?m = rows ! (k + ?m)" using longer len limit by simp
    moreover have "ledger_to_row (es ! ?m) = ?ls ! ?m \<and> le_createdAt (es ! ?m) = lr_created_at (?ls ! ?m)"
      by (rule list_all2_nthD [OF es]) (use longer len limit in linarith)
    moreover have "lr_id (ledger_to_row e) = le_id e" for e by (simp add: ledger_to_row_def)
    ultimately have at: "le_createdAt (last (take (nat limit) es)) = lr_created_at (rows ! (k + ?m))"
      "le_id (last (take (nat limit) es)) = lr_id (rows ! (k + ?m))" using last by metis+
    have "k + nat limit - 1 = k + ?m" using limit by simp
    then have "cursor_at E rows (k + nat limit) (encodeLedgerCursor E (le_createdAt (last (take (nat limit) es))) (le_id (last (take (nat limit) es))))"
      using True limit at by (simp add: cursor_at_def)
    moreover have "map ledger_to_row (take (nat limit) es) = take (nat limit) (drop k rows)"
      unfolding take_map [symmetric] rowsof using limit by (simp add: min_def)
    ultimately show ?thesis using that run True longer limit encoded_nonempty by (simp add: Let_def retP_def)
  next
    case False
    then have short: "length es \<le> nat limit" "?ls = take (nat limit) (drop k rows)" using len by simp_all
    moreover have "\<not> limit < int (length es)" using short limit by linarith
    ultimately show ?thesis using that [of es "[]"] run False rowsof limit by (simp add: retP_def)
  qed
qed

text \<open>Following the cursors reads every row once, in order, when \<open>n\<close> pages are enough.\<close>

lemma read_pages_all:
  assumes "pageable E i (wd_db w)" and "rows = sort_key ledger_key (ledger_of i (wd_db w))"
    and "cursor_at E rows k cursor" and "id_Internal who" and limit: "0 < limit" "limit \<le> 200"
    and "\<forall>c. driver_fault E c = None" and "length (drop k rows) \<le> n * nat limit" and "0 < n"
  shows "\<exists>es w'. read_pages E who i limit n cursor w = (Inr es, w') \<and> map ledger_to_row es = drop k rows
    \<and> wd_db w' = wd_db w"
  using assms
proof (induction n arbitrary: k cursor w)
  case (Suc n)
  let ?w = "w\<lparr>wd_calls := Suc (wd_calls w)\<rparr>"
  obtain es nxt where page: "Queries_GetLedger E who i cursor limit w = (Inr (es, nxt), ?w)"
    "map ledger_to_row es = take (nat limit) (drop k rows)"
    "if nat limit < length (drop k rows) then nxt \<noteq> [] \<and> cursor_at E rows (k + nat limit) nxt else nxt = []"
    by (rule GetLedger_page [OF Suc.prems(1-6)]) (use Suc.prems(7) in auto)
  show ?case
  proof (cases "nat limit < length (drop k rows)")
    case True
    then have more: "nxt \<noteq> []" "cursor_at E rows (k + nat limit) nxt" using page(3) by simp_all
    have "length (drop (k + nat limit) rows) \<le> n * nat limit" "0 < n"
      using Suc.prems(8) True by (auto intro: gr0I)
    then obtain rest w' where "read_pages E who i limit n nxt ?w = (Inr rest, w')"
      "map ledger_to_row rest = drop (k + nat limit) rows" "wd_db w' = wd_db w"
      using Suc.IH [of ?w "k + nat limit" nxt] Suc.prems(1,2,4-7) more by auto
    moreover have "take (nat limit) (drop k rows) @ drop (k + nat limit) rows = drop k rows"
      by (metis append_take_drop_id drop_drop add.commute)
    ultimately show ?thesis using page more by (simp add: bindP_def retP_def)
  next
    case False
    then show ?thesis using page by (simp add: bindP_def retP_def)
  qed
qed simp

end
