(* ===== verification/Idempotency.thy ===== *)
theory Idempotency
  imports Prelude
begin

text \<open>
  \<open>internal/app/idempotency.go\<close>: the hash that tells whether a repeated request carries the same
  payload. \<open>json.Marshal\<close> of a \<open>map[string]string\<close> sorts the keys and escapes the strings (with
  HTML characters, and invalid UTF-8 replaced); \<open>sha256.Sum256\<close> is FIPS 180-4. A string is its
  bytes.
\<close>

unbundle bit_operations_syntax

section \<open>JSON strings\<close>

definition hex_digit :: "nat \<Rightarrow> char" where
  "hex_digit n = (if n < 10 then char_of (48 + n) else char_of (87 + n))"

text \<open>A byte below \<open>utf8.RuneSelf\<close>; \<open>htmlSafeSet\<close> is what is left as it is.\<close>

definition esc_ascii :: "nat \<Rightarrow> string" where
  "esc_ascii n =
     (if n = 0x5C \<or> n = 0x22 then [CHR 0x5C, char_of n]
      else if n = 8 then [CHR 0x5C, CHR ''b'']
      else if n = 12 then [CHR 0x5C, CHR ''f'']
      else if n = 10 then [CHR 0x5C, CHR ''n'']
      else if n = 13 then [CHR 0x5C, CHR ''r'']
      else if n = 9 then [CHR 0x5C, CHR ''t'']
      else if n < 32 \<or> n = 0x3C \<or> n = 0x3E \<or> n = 0x26
        then CHR 0x5C # ''u00'' @ [hex_digit (n div 16), hex_digit (n mod 16)]
      else [char_of n])"

text \<open>The number of bytes of the valid UTF-8 sequence that starts a string with a byte of at least
  128, or 0: the table of \<open>utf8.DecodeRuneInString\<close>.\<close>

definition in_range :: "nat \<Rightarrow> nat \<Rightarrow> nat list \<Rightarrow> bool" where
  "in_range lo hi bs \<longleftrightarrow> (case bs of [] \<Rightarrow> False | b # _ \<Rightarrow> lo \<le> b \<and> b \<le> hi)"

definition utf8_size :: "nat list \<Rightarrow> nat" where
  "utf8_size bs =
     (case bs of [] \<Rightarrow> 0
      | b # t \<Rightarrow>
        let t1 = drop 1 t; t2 = drop 2 t; cont = in_range 0x80 0xBF in
        if 0xC2 \<le> b \<and> b \<le> 0xDF then (if cont t then 2 else 0)
        else if 0xE0 \<le> b \<and> b \<le> 0xEF then
          (if in_range (if b = 0xE0 then 0xA0 else 0x80) (if b = 0xED then 0x9F else 0xBF) t \<and> cont t1 then 3 else 0)
        else if 0xF0 \<le> b \<and> b \<le> 0xF4 then
          (if in_range (if b = 0xF0 then 0x90 else 0x80) (if b = 0xF4 then 0x8F else 0xBF) t \<and> cont t1 \<and> cont t2
           then 4 else 0)
        else 0)"

function json_chars :: "string \<Rightarrow> string" where
  "json_chars [] = []"
| "json_chars (c # cs) =
     (if of_char c < (128 :: nat) then esc_ascii (of_char c) @ json_chars cs
      else let n = utf8_size (map of_char (c # cs)); rune = take n (c # cs) in
        if n = 0 then CHR 0x5C # ''ufffd'' @ json_chars cs
        else if rune = [CHR 0xE2, CHR 0x80, CHR 0xA8] then CHR 0x5C # ''u2028'' @ json_chars (drop (n - 1) cs)
        else if rune = [CHR 0xE2, CHR 0x80, CHR 0xA9] then CHR 0x5C # ''u2029'' @ json_chars (drop (n - 1) cs)
        else rune @ json_chars (drop (n - 1) cs))"
  by pat_completeness auto
termination by (relation "measure length") auto

definition json_string :: "string \<Rightarrow> string" where
  "json_string s = CHR 0x22 # json_chars s @ [CHR 0x22]"

section \<open>SHA-256\<close>

definition sha256_k :: "32 word list" where
  "sha256_k =
    [0x428a2f98, 0x71374491, 0xb5c0fbcf, 0xe9b5dba5, 0x3956c25b, 0x59f111f1, 0x923f82a4, 0xab1c5ed5,
     0xd807aa98, 0x12835b01, 0x243185be, 0x550c7dc3, 0x72be5d74, 0x80deb1fe, 0x9bdc06a7, 0xc19bf174,
     0xe49b69c1, 0xefbe4786, 0x0fc19dc6, 0x240ca1cc, 0x2de92c6f, 0x4a7484aa, 0x5cb0a9dc, 0x76f988da,
     0x983e5152, 0xa831c66d, 0xb00327c8, 0xbf597fc7, 0xc6e00bf3, 0xd5a79147, 0x06ca6351, 0x14292967,
     0x27b70a85, 0x2e1b2138, 0x4d2c6dfc, 0x53380d13, 0x650a7354, 0x766a0abb, 0x81c2c92e, 0x92722c85,
     0xa2bfe8a1, 0xa81a664b, 0xc24b8b70, 0xc76c51a3, 0xd192e819, 0xd6990624, 0xf40e3585, 0x106aa070,
     0x19a4c116, 0x1e376c08, 0x2748774c, 0x34b0bcb5, 0x391c0cb3, 0x4ed8aa4a, 0x5b9cca4f, 0x682e6ff3,
     0x748f82ee, 0x78a5636f, 0x84c87814, 0x8cc70208, 0x90befffa, 0xa4506ceb, 0xbef9a3f7, 0xc67178f2]"

definition sha256_init :: "32 word list" where
  "sha256_init = [0x6a09e667, 0xbb67ae85, 0x3c6ef372, 0xa54ff53a, 0x510e527f, 0x9b05688c, 0x1f83d9ab, 0x5be0cd19]"

definition rotr32 :: "nat \<Rightarrow> 32 word \<Rightarrow> 32 word" where
  "rotr32 n x = drop_bit n x OR push_bit (32 - n) x"

text \<open>The message schedule, kept newest first: the 16 words of the block and 48 derived ones.\<close>

definition schedule_step :: "32 word list \<Rightarrow> 32 word list" where
  "schedule_step ws =
     (let a = ws ! 14; b = ws ! 1;
          s0 = rotr32 7 a XOR rotr32 18 a XOR drop_bit 3 a;
          s1 = rotr32 17 b XOR rotr32 19 b XOR drop_bit 10 b
      in (ws ! 15 + s0 + ws ! 6 + s1) # ws)"

definition schedule :: "32 word list \<Rightarrow> 32 word list" where
  "schedule block = rev ((schedule_step ^^ 48) (rev block))"

fun sha256_round :: "32 word list \<Rightarrow> 32 word \<times> 32 word \<Rightarrow> 32 word list" where
  "sha256_round [a, b, c, d, e, f, g, h] (k, w) =
     (let s1 = rotr32 6 e XOR rotr32 11 e XOR rotr32 25 e;
          ch = (e AND f) XOR (NOT e AND g);
          t1 = h + s1 + ch + k + w;
          s0 = rotr32 2 a XOR rotr32 13 a XOR rotr32 22 a;
          maj = (a AND b) XOR (a AND c) XOR (b AND c)
      in [t1 + (s0 + maj), a, b, c, d + t1, e, f, g])"
| "sha256_round hs kw = hs"

definition sha256_block :: "32 word list \<Rightarrow> 32 word list \<Rightarrow> 32 word list" where
  "sha256_block hs block = map2 (+) hs (foldl sha256_round hs (zip sha256_k (schedule block)))"

definition sha256_pad :: "nat list \<Rightarrow> nat list" where
  "sha256_pad msg =
     (let n = length msg in
      msg @ 128 # replicate ((119 - n mod 64) mod 64) 0 @ map (\<lambda>i. 8 * n div 256 ^ (7 - i) mod 256) [0..<8])"

fun be_words :: "nat list \<Rightarrow> 32 word list" where
  "be_words (a # b # c # d # bs) = of_nat (((a * 256 + b) * 256 + c) * 256 + d) # be_words bs"
| "be_words _ = []"

fun blocks16 :: "nat \<Rightarrow> 32 word list \<Rightarrow> 32 word list list" where
  "blocks16 0 ws = []"
| "blocks16 (Suc n) ws = take 16 ws # blocks16 n (drop 16 ws)"

definition word_bytes :: "32 word \<Rightarrow> nat list" where
  "word_bytes w = map (\<lambda>i. unat w div 256 ^ (3 - i) mod 256) [0..<4]"

definition sha256 :: "nat list \<Rightarrow> nat list" where
  "sha256 msg =
     (let ws = be_words (sha256_pad msg)
      in concat (map word_bytes (foldl sha256_block sha256_init (blocks16 (length ws div 16) ws))))"

section \<open>PayloadHash\<close>

record payload_fields =
  pf_ProviderID :: string
  pf_ExternalTransactionID :: string
  pf_PlayerID :: string
  pf_WalletID :: string
  pf_RoundID :: string
  pf_GameID :: string
  pf_Kind :: string
  pf_MoneyAmount :: string
  pf_MoneyCurrency :: string
  pf_ReferenceExternalTransactionID :: string

text \<open>The entries of the map in the order of their keys.\<close>

definition canonical :: "payload_fields \<Rightarrow> (string \<times> string) list" where
  "canonical f =
     [(''externalTransactionId'', pf_ExternalTransactionID f),
      (''gameId'', pf_GameID f),
      (''kind'', pf_Kind f),
      (''money.amount'', pf_MoneyAmount f),
      (''money.currency'', pf_MoneyCurrency f),
      (''playerId'', pf_PlayerID f),
      (''providerId'', pf_ProviderID f),
      (''referenceExternalTransactionId'', pf_ReferenceExternalTransactionID f),
      (''roundId'', pf_RoundID f),
      (''walletId'', pf_WalletID f)]"

fun json_entries :: "(string \<times> string) list \<Rightarrow> string" where
  "json_entries [] = []"
| "json_entries [(k, v)] = json_string k @ '':'' @ json_string v"
| "json_entries ((k, v) # e # es) = json_string k @ '':'' @ json_string v @ '','' @ json_entries (e # es)"

definition encoded_payload :: "payload_fields \<Rightarrow> string" where
  "encoded_payload f = ''{'' @ json_entries (canonical f) @ ''}''"

definition hex_string :: "nat list \<Rightarrow> string" where
  "hex_string bs = concat (map (\<lambda>b. [hex_digit (b div 16), hex_digit (b mod 16)]) bs)"

text \<open>\<open>json.Marshal\<close> of a map of strings never fails.\<close>

definition PayloadHash :: "payload_fields \<Rightarrow> string" where
  "PayloadHash f = hex_string (sha256 (map of_char (encoded_payload f)))"

section \<open>Different payloads have different encodings\<close>

text \<open>Text of valid UTF-8, as decoding a JSON text always yields. Of other text the encoder keeps less:
  every invalid byte becomes U+FFFD.\<close>

function utf8 :: "string \<Rightarrow> bool" where
  "utf8 [] \<longleftrightarrow> True"
| "utf8 (c # cs) \<longleftrightarrow>
     (if of_char c < (128 :: nat) then utf8 cs
      else let n = utf8_size (map of_char (c # cs)) in n \<noteq> 0 \<and> utf8 (drop (n - 1) cs))"
  by pat_completeness auto
termination by (relation "measure length") auto

text \<open>One step of a decoder: the byte that starts an escaped text, and the text after it.\<close>

definition hex_value :: "char \<Rightarrow> nat" where
  "hex_value c = (let n = of_char c in if n < 58 then n - 48 else n - 87)"

fun unesc :: "string \<Rightarrow> nat \<times> string" where
  "unesc [] = (0, [])"
| "unesc (c # cs) =
     (if c \<noteq> CHR 0x5C then (of_char c, cs)
      else case cs of
        [] \<Rightarrow> (0, [])
      | d # ds \<Rightarrow>
          if d = CHR ''u'' then (16 * hex_value (ds ! 2) + hex_value (ds ! 3), drop 4 ds)
          else (if d = CHR ''b'' then 8 else if d = CHR ''f'' then 12 else if d = CHR ''n'' then 10
                else if d = CHR ''r'' then 13 else if d = CHR ''t'' then 9 else of_char d, ds))"

lemma hex_value_digit: "k < 16 \<Longrightarrow> hex_value (hex_digit k) = k"
  by (simp add: hex_value_def hex_digit_def)

lemma char_of_eq: "n < 256 \<Longrightarrow> char_of n = c \<longleftrightarrow> n = (of_char c :: nat)"
  by (metis char_of_char of_char_of mod_less)

lemma unesc_esc:
  assumes "n < 128"
  shows "unesc (esc_ascii n @ s) = (n, s)"
proof -
  have "n = 0x5C \<or> n = 0x22 \<or> n \<in> {8, 12, 10, 13, 9}
    \<or> esc_ascii n = CHR 0x5C # ''u00'' @ [hex_digit (n div 16), hex_digit (n mod 16)]
    \<or> esc_ascii n = [char_of n] \<and> n \<noteq> 0x5C"
    by (simp add: esc_ascii_def)
  then show ?thesis
  proof (elim disjE conjE)
    assume 4: "esc_ascii n = CHR 0x5C # ''u00'' @ [hex_digit (n div 16), hex_digit (n mod 16)]"
    have "n div 16 < 16" "n mod 16 < 16" using assms by simp_all
    then show ?thesis by (simp add: 4 hex_value_digit)
  next
    assume "esc_ascii n = [char_of n]" "n \<noteq> 0x5C"
    then show ?thesis using assms by (simp add: char_of_eq)
  qed (auto simp: esc_ascii_def char_of_eq)
qed

lemma esc_head: "n < 128 \<Longrightarrow> esc_ascii n \<noteq> [] \<and> hd (esc_ascii n) \<noteq> CHR 0x22"
  by (simp add: esc_ascii_def char_of_eq)

lemma esc_not_quote: "n < 128 \<Longrightarrow> esc_ascii n @ s \<noteq> CHR 0x22 # t"
  using esc_head by (metis hd_append2 list.sel(1))

lemma esc_append_inject:
  assumes "m < 128" "n < 128" "esc_ascii m @ s = esc_ascii n @ t"
  shows "m = n \<and> s = t"
  using unesc_esc [OF assms(1), of s] unesc_esc [OF assms(2), of t] assms(3) by (metis prod.inject)

text \<open>The encoding of one rune, and the runes of valid text: their first byte tells their length.\<close>

definition lead_size :: "nat \<Rightarrow> nat" where
  "lead_size b = (if b < 128 then 1 else if b \<le> 0xDF then 2 else if b \<le> 0xEF then 3 else 4)"

definition is_rune :: "string \<Rightarrow> bool" where
  "is_rune r \<longleftrightarrow> r \<noteq> [] \<and> length r = lead_size (of_char (hd r))"

definition encode_rune :: "string \<Rightarrow> string" where
  "encode_rune r =
     (if of_char (hd r) < (128 :: nat) then esc_ascii (of_char (hd r))
      else if r = [CHR 0xE2, CHR 0x80, CHR 0xA8] then CHR 0x5C # ''u2028''
      else if r = [CHR 0xE2, CHR 0x80, CHR 0xA9] then CHR 0x5C # ''u2029''
      else r)"

lemma utf8_size_lead:
  assumes "utf8_size (b # bs) = n" "n \<noteq> 0" "\<not> b < 128"
  shows "n = lead_size b \<and> n \<le> Suc (length bs)"
  using assms by (auto simp: utf8_size_def lead_size_def in_range_def Let_def neq_Nil_conv split: if_splits list.splits)

lemma utf8_rune:
  assumes "utf8 x" "x \<noteq> []"
  obtains r y where "x = r @ y" "is_rune r" "json_chars x = encode_rune r @ json_chars y" "utf8 y"
proof (cases x)
  case (Cons c cs)
  show ?thesis
  proof (cases "of_char c < (128 :: nat)")
    case True
    then show ?thesis
      using assms(1) Cons by (intro that [of "[c]" cs]) (simp_all add: is_rune_def lead_size_def encode_rune_def)
  next
    case False
    let ?n = "utf8_size (map of_char (c # cs))"
    have n: "?n \<noteq> 0" and rest: "utf8 (drop (?n - 1) cs)" using assms(1) Cons False by (simp_all add: Let_def)
    then have size: "?n = lead_size (of_char c)" "?n \<le> Suc (length cs)"
      using utf8_size_lead [of "of_char c" "map of_char cs" ?n] False by simp_all
    have split: "x = take ?n (c # cs) @ drop (?n - 1) cs" using Cons n by (cases ?n) simp_all
    show ?thesis
    proof (rule that [OF split _ _ rest])
      show "is_rune (take ?n (c # cs))" using n size by (simp add: is_rune_def)
      have "hd (take ?n (c # cs)) = c" using n by simp
      then show "json_chars x = encode_rune (take ?n (c # cs)) @ json_chars (drop (?n - 1) cs)"
        using Cons False n by (simp add: encode_rune_def Let_def)
    qed
  qed
qed (use assms in simp)

text \<open>The quote that closes a JSON string ends it, and two encodings that begin alike begin with the same rune.\<close>

lemma encode_rune_quote:
  assumes "is_rune r"
  shows "encode_rune r @ s \<noteq> CHR 0x22 # t"
proof (cases "of_char (hd r) < (128 :: nat)")
  case True
  then show ?thesis using esc_not_quote by (simp add: encode_rune_def)
next
  case False
  then have "hd r \<noteq> CHR 0x22" by auto
  then show ?thesis using assms False by (cases r) (auto simp: encode_rune_def is_rune_def)
qed

lemma esc_ascii_escape: "n < 128 \<Longrightarrow> esc_ascii n @ s \<noteq> CHR 0x5C # CHR ''u'' # CHR ''2'' # t"
  by (auto simp: esc_ascii_def char_of_eq)

lemma esc_ascii_ascii: "n < 128 \<Longrightarrow> of_char (hd (esc_ascii n @ s)) < (128 :: nat)"
  by (auto simp: esc_ascii_def)

lemma encode_rune_wide:
  assumes "is_rune r" "\<not> of_char (hd r) < (128 :: nat)" "encode_rune r @ s = esc_ascii n @ t" "n < 128"
  shows False
proof -
  have "r \<noteq> []" using assms(1) by (simp add: is_rune_def)
  then have "encode_rune r = r \<longrightarrow> hd (esc_ascii n @ t) = hd r" using assms(3) by (metis hd_append2)
  then show False
    using assms(2,3) esc_ascii_ascii [OF assms(4), of t] esc_ascii_escape [OF assms(4), of t]
      esc_ascii_escape [OF assms(4), of t, symmetric]
    by (auto simp: encode_rune_def split: if_splits)
qed

lemma encode_rune_inject:
  assumes "is_rune r" "is_rune q" "encode_rune r @ s = encode_rune q @ t"
  shows "r = q \<and> s = t"
proof -
  consider "of_char (hd r) < (128 :: nat)" "of_char (hd q) < (128 :: nat)"
    | "of_char (hd r) < (128 :: nat)" "\<not> of_char (hd q) < (128 :: nat)"
    | "\<not> of_char (hd r) < (128 :: nat)" "of_char (hd q) < (128 :: nat)"
    | "\<not> of_char (hd r) < (128 :: nat)" "\<not> of_char (hd q) < (128 :: nat)" by blast
  then show ?thesis
  proof cases
    case 1
    then have "of_char (hd r) = (of_char (hd q) :: nat)" "s = t"
      using esc_append_inject [of "of_char (hd r)" "of_char (hd q)" s t] assms(3) by (simp_all add: encode_rune_def)
    moreover have "r = [hd r]" "q = [hd q]" using assms(1,2) 1 by (auto simp: is_rune_def lead_size_def length_Suc_conv)
    ultimately show ?thesis by (metis of_char_eq_iff)
  next
    case 2
    then have "encode_rune q @ t = esc_ascii (of_char (hd r)) @ s" using assms(3) by (simp add: encode_rune_def [of r])
    from encode_rune_wide [OF assms(2) _ this] 2 show ?thesis by blast
  next
    case 3
    then have "encode_rune r @ s = esc_ascii (of_char (hd q)) @ t" using assms(3) by (simp add: encode_rune_def [of q])
    from encode_rune_wide [OF assms(1) _ this] 3 show ?thesis by blast
  next
    case 4
    have ne: "hd r \<noteq> CHR 0x5C" "hd q \<noteq> CHR 0x5C" "r \<noteq> []" "q \<noteq> []" using 4 assms(1,2) by (auto simp: is_rune_def)
    show ?thesis
    proof (cases "encode_rune r = r \<and> encode_rune q = q")
      case True
      then have "r @ s = q @ t" using assms(3) by simp
      moreover from this have "hd r = hd q" using ne by (metis hd_append2)
      then have "length r = length q" using assms(1,2) by (simp add: is_rune_def)
      ultimately show ?thesis by simp
    next
      case False
      have plain: "encode_rune r' @ s' \<noteq> CHR 0x5C # u" if "encode_rune r' = r'" "r' \<noteq> []" "hd r' \<noteq> CHR 0x5C" for r' s' u
        using that by (cases r') simp_all
      show ?thesis
        using 4 False assms(3) plain [of r s] plain [of q t, THEN not_sym] ne by (auto simp: encode_rune_def split: if_splits)
    qed
  qed
qed

lemma json_chars_inject:
  assumes "utf8 x" "utf8 y" "json_chars x @ CHR 0x22 # s = json_chars y @ CHR 0x22 # t"
  shows "x = y \<and> s = t"
  using assms
proof (induction "length x" arbitrary: x y rule: less_induct)
  case less
  show ?case
  proof (cases "x = [] \<or> y = []")
    case True
    then show ?thesis
      using less.prems encode_rune_quote by (metis append_Nil append.assoc json_chars.simps(1) list.inject utf8_rune)
  next
    case False
    obtain r x' where x: "x = r @ x'" "is_rune r" "json_chars x = encode_rune r @ json_chars x'" "utf8 x'"
      using utf8_rune less.prems(1) False by blast
    obtain q y' where y: "y = q @ y'" "is_rune q" "json_chars y = encode_rune q @ json_chars y'" "utf8 y'"
      using utf8_rune less.prems(2) False by blast
    have "r = q" "json_chars x' @ CHR 0x22 # s = json_chars y' @ CHR 0x22 # t"
      using encode_rune_inject [OF x(2) y(2)] less.prems(3) x(3) y(3) by simp_all
    moreover have "r \<noteq> []" using x(2) by (simp add: is_rune_def)
    then have "length x' < length x" using x(1) by simp
    ultimately show ?thesis using less.hyps x y by blast
  qed
qed

lemma json_string_inject: "utf8 x \<Longrightarrow> utf8 y \<Longrightarrow> json_string x @ s = json_string y @ t \<longleftrightarrow> x = y \<and> s = t"
  using json_chars_inject [of x y s t] by (auto simp: json_string_def)

lemma json_string_eq: "utf8 x \<Longrightarrow> utf8 y \<Longrightarrow> json_string x = json_string y \<longleftrightarrow> x = y"
  using json_string_inject [of x y "[]" "[]"] by simp

definition utf8_payload :: "payload_fields \<Rightarrow> bool" where
  "utf8_payload f \<longleftrightarrow> list_all (\<lambda>(k, v). utf8 v) (canonical f)"

lemma encoded_payload_inject:
  assumes "utf8_payload f" "utf8_payload g" "encoded_payload f = encoded_payload g"
  shows "f = g"
  using assms
  by (cases f; cases g) (simp add: encoded_payload_def canonical_def utf8_payload_def json_string_inject json_string_eq)

section \<open>The shape of the hash\<close>

lemma sha256_round_length: "length hs = 8 \<Longrightarrow> length (sha256_round hs kw) = 8"
  by (cases "(hs, kw)" rule: sha256_round.cases) (simp_all add: Let_def)

lemma sha256_length: "length (sha256 msg) = 32"
proof -
  have rounds: "length (foldl sha256_round hs kws) = 8" if "length hs = 8" for hs kws
    using that by (induction kws arbitrary: hs) (simp_all add: sha256_round_length)
  have "length (foldl sha256_block hs bs) = 8" if "length hs = 8" for hs bs
    using that by (induction bs arbitrary: hs) (simp_all add: sha256_block_def rounds)
  then have "length (foldl sha256_block sha256_init bs) = 8" for bs by (simp add: sha256_init_def)
  moreover have "length (concat (map word_bytes ws)) = 4 * length ws" for ws
    by (induction ws) (simp_all add: word_bytes_def)
  ultimately show ?thesis by (simp add: sha256_def Let_def)
qed

lemma sha256_bytes: "b \<in> set (sha256 msg) \<Longrightarrow> b < 256"
  by (auto simp: sha256_def Let_def word_bytes_def)

definition is_hex :: "char \<Rightarrow> bool" where
  "is_hex c \<longleftrightarrow> (let n = of_char c :: nat in 48 \<le> n \<and> n \<le> 57 \<or> 97 \<le> n \<and> n \<le> 102)"

lemma hex_digit_hex: "k < 16 \<Longrightarrow> is_hex (hex_digit k)"
  by (simp add: is_hex_def hex_digit_def)

section \<open>Properties\<close>

text \<open>C37: the hash is 64 lowercase hexadecimal digits, and payloads of valid UTF-8 with the same hash
  have the same ten fields, or their canonical encodings are a collision of SHA-256.\<close>

theorem PayloadHash_identifies:
  assumes "utf8_payload f" and "utf8_payload g"
  shows "length (PayloadHash f) = 64 \<and> list_all is_hex (PayloadHash f)
    \<and> (PayloadHash f = PayloadHash g \<longrightarrow> f \<noteq> g \<longrightarrow>
       (\<exists>a b. a \<noteq> b \<and> sha256 a = sha256 b \<and> a = map of_char (encoded_payload f) \<and> b = map of_char (encoded_payload g)))"
proof -
  have len: "length (hex_string bs) = 2 * length bs" for bs
    by (induction bs) (simp_all add: hex_string_def)
  have hex: "list_all is_hex (hex_string bs)" if "\<forall>b \<in> set bs. b < 256" for bs
    using that by (auto simp: hex_string_def list_all_iff intro!: hex_digit_hex)
  have inj: "bs = cs" if "hex_string bs = hex_string cs" "\<forall>b \<in> set bs \<union> set cs. b < 256" for bs cs
    using that
  proof (induction bs arbitrary: cs)
    case (Cons b bs)
    then obtain c cs' where c: "cs = c # cs'" by (cases cs) (auto simp: hex_string_def)
    with Cons.prems have "hex_digit (b div 16) = hex_digit (c div 16)" "hex_digit (b mod 16) = hex_digit (c mod 16)"
      by (simp_all add: hex_string_def)
    then have "hex_value (hex_digit (b div 16)) = hex_value (hex_digit (c div 16))"
      "hex_value (hex_digit (b mod 16)) = hex_value (hex_digit (c mod 16))" by simp_all
    moreover have "b div 16 < 16" "c div 16 < 16" using Cons.prems c by auto
    ultimately have "b div 16 = c div 16" "b mod 16 = c mod 16" using Cons.prems c by (simp_all add: hex_value_digit)
    then have "b = c" by (metis div_mult_mod_eq)
    then show ?case using Cons c by (simp add: hex_string_def)
  qed (auto simp: hex_string_def split: list.splits)
  have "map of_char (encoded_payload f) \<noteq> (map of_char (encoded_payload g) :: nat list)" if "f \<noteq> g"
    using that encoded_payload_inject [OF assms] inj_map_eq_map [OF inj_of_char] by metis
  then show ?thesis
    using len hex sha256_length sha256_bytes inj unfolding PayloadHash_def by (metis mult_2 numeral_Bit0 Un_iff)
qed

theorem PayloadHash_identifies_witness:
  "length (PayloadHash \<lparr>pf_ProviderID = ''acme'', pf_ExternalTransactionID = ''b1'', pf_PlayerID = ''7'',
     pf_WalletID = ''1000'', pf_RoundID = ''r'', pf_GameID = ''g'', pf_Kind = ''BET'', pf_MoneyAmount = ''15.00'',
     pf_MoneyCurrency = ''BRL'', pf_ReferenceExternalTransactionID = []\<rparr>) = 64"
  (is "length (PayloadHash ?f) = 64")
proof -
  have "utf8_payload ?f" by (simp add: utf8_payload_def canonical_def)
  from PayloadHash_identifies [OF this this] show ?thesis by blast
qed

end
