(* ===== verification/GoText.thy ===== *)
theory GoText
  imports Prelude
begin

text \<open>
  What the sources use of \<open>strings\<close> and \<open>strconv\<close>, on the bytes of a string. White space and letters
  beyond ASCII are not recognised.
\<close>

text \<open>\<open>strconv.Atoi\<close> on a 64-bit platform.\<close>

definition go_Atoi :: "string \<Rightarrow> int option" where
  "go_Atoi s =
     (let digits = (case s of c # t \<Rightarrow> if c = CHR ''+'' \<or> c = CHR ''-'' then t else s | [] \<Rightarrow> s);
          n = int (digits_val digits);
          v = (if take 1 s = ''-'' then - n else n)
      in if digits = [] \<or> \<not> list_all is_digit digits \<or> \<not> fits64 v then None else Some v)"

text \<open>\<open>strings.EqualFold\<close> with an ASCII text, and \<open>strings.TrimSpace\<close> on an ASCII text.\<close>

definition lower_ascii :: "char \<Rightarrow> char" where
  "lower_ascii c = (if is_upper c then char_of (of_char c + 32 :: nat) else c)"

definition is_space :: "char \<Rightarrow> bool" where
  "is_space c \<longleftrightarrow> (let n = of_char c :: nat in n = 32 \<or> 9 \<le> n \<and> n \<le> 13)"

definition trim_space :: "string \<Rightarrow> string" where
  "trim_space s = rev (dropWhile is_space (rev (dropWhile is_space s)))"

end
