(* ===== verification/Http.thy ===== *)
theory Http
  imports LedgerPage Idempotency GoText
begin

text \<open>
  The parts of \<open>internal/httpapi\<close> that the handlers share: the data transfer objects of \<open>dto.go\<close>,
  the answers to errors of \<open>errors.go\<close> and the authentication of \<open>auth.go\<close> and \<open>module.go\<close>.

  A request is what gin hands to a handler: its headers, path parameters and query parameters (an
  absent one is empty) and its body. Decoding a body, and verifying the signature and the claims of a
  token, is done by packages outside the sources: they are the fields of \<open>http_env\<close>. A handler
  returns the answer it writes: the status, the body and the correlation header if it sets it. The
  texts of error messages, log entries and metrics are left out.
\<close>

section \<open>Data transfer objects\<close>

record money_dto =
  md_Amount :: string
  md_Currency :: string

definition toMoney :: "money_dto \<Rightarrow> goerr + money" where
  "toMoney d = bindR (NewCurrency (md_Currency d)) (\<lambda>cur. ParseNonNegative (md_Amount d) cur)"

definition moneyOut :: "money \<Rightarrow> money_dto" where
  "moneyOut m = \<lparr>md_Amount = DecimalString m, md_Currency = moneyCurrency m\<rparr>"

record open_wallet_request =
  or_PlayerID :: string
  or_InitialBalance :: money_dto

record wallet_response =
  wp_ID :: string
  wp_PlayerID :: string
  wp_Balance :: money_dto
  wp_Version :: int64

definition walletOut :: "env \<Rightarrow> wallet \<Rightarrow> wallet_response" where
  "walletOut E w = \<lparr>wp_ID = uuid_String E (wlt_id w), wp_PlayerID = uuid_String E (wlt_playerID w),
     wp_Balance = moneyOut (wlt_balance w), wp_Version = wlt_version w\<rparr>"

record ledger_entry_response =
  lp_ID :: string
  lp_WalletID :: string
  lp_TransactionID :: string
  lp_Direction :: string
  lp_Money :: money_dto
  lp_BalanceBefore :: money_dto
  lp_BalanceAfter :: money_dto
  lp_CreatedAt :: string

record submit_request =
  sq_ProviderID :: string
  sq_ExternalTransactionID :: string
  sq_PlayerID :: string
  sq_WalletID :: string
  sq_RoundID :: string
  sq_GameID :: string
  sq_Kind :: string
  sq_Money :: money_dto
  sq_ReferenceExternalTransactionID :: string

record submit_response =
  sp_TransactionID :: string
  sp_Status :: string
  sp_Balance :: "money_dto option"
  sp_FailureCode :: string
  sp_IdempotentReplay :: bool

definition submitOut :: "env \<Rightarrow> wager_tx \<Rightarrow> money \<Rightarrow> bool \<Rightarrow> submit_response" where
  "submitOut E tx balance replay = \<lparr>sp_TransactionID = uuid_String E (tx_id tx),
     sp_Status = status_string (tx_status tx),
     sp_Balance = (if tx_status tx = Processed then Some (moneyOut balance) else None),
     sp_FailureCode = failure_string (tx_failureCode tx), sp_IdempotentReplay = replay\<rparr>"

record transaction_response =
  tp_TransactionID :: string
  tp_ProviderID :: string
  tp_ExternalTransactionID :: string
  tp_WalletID :: string
  tp_PlayerID :: string
  tp_RoundID :: string
  tp_GameID :: string
  tp_Kind :: string
  tp_Status :: string
  tp_Money :: money_dto
  tp_ReferenceExternalTransactionID :: string
  tp_FailureCode :: string
  tp_Balance :: "money_dto option"
  tp_CreatedAt :: string
  tp_UpdatedAt :: string

definition transactionOut :: "env \<Rightarrow> wager_tx \<Rightarrow> transaction_response" where
  "transactionOut E tx = \<lparr>tp_TransactionID = uuid_String E (tx_id tx), tp_ProviderID = tx_providerID tx,
     tp_ExternalTransactionID = tx_externalTransactionID tx,
     tp_WalletID = uuid_String E (tx_walletID tx), tp_PlayerID = uuid_String E (tx_playerID tx),
     tp_RoundID = tx_roundID tx, tp_GameID = tx_gameID tx,
     tp_Kind = kind_string (tx_kind tx), tp_Status = status_string (tx_status tx),
     tp_Money = moneyOut (tx_money tx),
     tp_ReferenceExternalTransactionID = tx_referenceExternalTxID tx,
     tp_FailureCode = failure_string (tx_failureCode tx),
     tp_Balance = (case Tx_ResultingBalance tx of (balance, ok) \<Rightarrow> if ok then Some (moneyOut balance) else None),
     tp_CreatedAt = rfc3339nano (tx_createdAt tx), tp_UpdatedAt = rfc3339nano (tx_updatedAt tx)\<rparr>"

record reconciliation_response =
  cp_WalletID :: string
  cp_StoredBalance :: money_dto
  cp_CalculatedBalance :: money_dto
  cp_Difference :: money_dto
  cp_Consistent :: bool
  cp_CheckedEntries :: int

definition parseKind :: "string \<Rightarrow> goerr + kind" where
  "parseKind raw =
     (if \<not> Kind_IsValid (kind_of_string raw) then Inl (WrapErr raw (TxErr ErrInvalidKind))
      else Inr (kind_of_string raw))"

section \<open>Answers\<close>

datatype error_code =
    CodeInvalidRequest | CodeUnauthenticated | CodeForbidden | CodeNotFound
  | CodeWalletExists | CodeIdempotencyConflict | CodeOperationConflict | CodeUnavailable

datatype http_body =
    ErrorBody error_code
  | WalletBody wallet_response
  | LedgerBody "ledger_entry_response list" string
  | ReconciliationBody reconciliation_response
  | SubmitBody submit_response
  | TransactionBody transaction_response

record response =
  rs_Status :: nat
  rs_Body :: http_body
  rs_Correlation :: "string option"

definition json_response :: "nat \<Rightarrow> http_body \<Rightarrow> response" where
  "json_response status body = \<lparr>rs_Status = status, rs_Body = body, rs_Correlation = None\<rparr>"

definition abortWith :: "nat \<Rightarrow> error_code \<Rightarrow> response" where
  "abortWith status code = json_response status (ErrorBody code)"

definition respondError :: "goerr \<Rightarrow> response" where
  "respondError err =
     (if errors_Is err (AppErr ErrNotFound) then abortWith 404 CodeNotFound
      else if errors_Is err (AppErr ErrForbidden) then abortWith 403 CodeForbidden
      else if errors_Is err (AppErr ErrWalletAlreadyExists) then abortWith 409 CodeWalletExists
      else if errors_Is err (AppErr ErrIdempotencyConflict) then abortWith 409 CodeIdempotencyConflict
      else if errors_Is err (AppErr ErrOperationIdentityConflict) then abortWith 409 CodeOperationConflict
      else if errors_Is err (AppErr ErrWalletMismatch) then abortWith 400 CodeInvalidRequest
      else if errors_Is err (AppErr ErrConcurrencyConflict) then abortWith 503 CodeUnavailable
      else if errors_Is err (MoneyErr ErrEmptyAmount) \<or> errors_Is err (MoneyErr ErrInvalidFormat)
           \<or> errors_Is err (MoneyErr ErrNegativeAmount) \<or> errors_Is err (MoneyErr ErrInvalidCurrency)
           \<or> errors_Is err (MoneyErr ErrOverflow) \<or> errors_Is err (MoneyErr ErrMoneyCurrencyMismatch)
           \<or> errors_Is err (TxErr ErrInvalidKind) \<or> errors_Is err (TxErr ErrInvalidTransaction)
           \<or> errors_Is err (TxErr ErrOpeningNotExternal) \<or> errors_Is err (TxErr ErrReferenceRequired)
           \<or> errors_Is err (TxErr ErrReferenceNotApplicable) \<or> errors_Is err (TxErr ErrInvalidAmountForKind)
        then abortWith 400 CodeInvalidRequest
      else abortWith 503 CodeUnavailable)"

definition respondSubmitResult :: "env \<Rightarrow> process_result \<Rightarrow> response" where
  "respondSubmitResult E result =
     (let body = SubmitBody (submitOut E (ps_Transaction result) (ps_Balance result) (ps_IdempotentReplay result))
      in case tx_status (ps_Transaction result) of
           Processed \<Rightarrow> json_response 200 body
         | Rejected \<Rightarrow> json_response 422 body
         | PendingReference \<Rightarrow> json_response 202 body
         | Pending \<Rightarrow> json_response 202 body
         | _ \<Rightarrow> json_response 200 body)"

section \<open>Requests\<close>

record request =
  rq_Header :: "string \<Rightarrow> string"
  rq_Param :: "string \<Rightarrow> string"
  rq_Query :: "string \<Rightarrow> string"
  rq_Body :: string

record token_claims =
  tc_Roles :: "string list"
  tc_ProviderID :: string

record http_env =
  bind_open :: "string \<Rightarrow> open_wallet_request option"
  bind_submit :: "string \<Rightarrow> submit_request option"
  oidc_issuer :: "string \<Rightarrow> string option" \<comment> \<open>the issuer of a token with a valid signature and audience\<close>
  oidc_claims :: "string \<Rightarrow> token_claims option"
  acceptedIssuers :: "string list"
  between_reads :: "db \<Rightarrow> db" \<comment> \<open>what other transactions make of the tables between the two reads of \<open>Reconcile\<close>\<close>

section \<open>Authentication\<close>

definition bearerToken :: "string \<Rightarrow> string option" where
  "bearerToken header =
     (let prefix = ''Bearer '' in
      if length header \<le> length prefix
         \<or> map lower_ascii (take (length prefix) header) \<noteq> map lower_ascii prefix then None
      else let token = trim_space (drop (length prefix) header) in if token \<noteq> [] then Some token else None)"

text \<open>The loop over the roles of a token: the first role the service knows decides.\<close>

fun role_identity :: "token_claims \<Rightarrow> string list \<Rightarrow> goerr + identity" where
  "role_identity claims [] = Inl (DriverErr ''token carries no role this service recognizes'')"
| "role_identity claims (role # roles) =
     (if role = ''internal-service'' then Inr \<lparr>id_ProviderID = [], id_Internal = True\<rparr>
      else if role = ''provider'' then
        (if tc_ProviderID claims = [] then Inl (DriverErr ''token has the provider role but no provider_id claim'')
         else Inr \<lparr>id_ProviderID = tc_ProviderID claims, id_Internal = False\<rparr>)
      else role_identity claims roles)"

definition OIDCVerifier_Verify :: "http_env \<Rightarrow> string \<Rightarrow> goerr + identity" where
  "OIDCVerifier_Verify H rawToken =
     (case oidc_issuer H rawToken of
        None \<Rightarrow> Inl (DriverErr ''verifying token'')
      | Some issuer \<Rightarrow>
          if issuer \<notin> set (acceptedIssuers H) then Inl (DriverErr ''token issuer is not trusted'')
          else case oidc_claims H rawToken of
            None \<Rightarrow> Inl (DriverErr ''reading token claims'')
          | Some claims \<Rightarrow> role_identity claims (tc_Roles claims))"

text \<open>\<open>lazyVerifier\<close>: until the issuer was discovered at start no token can be verified.\<close>

definition lazyVerifier_Verify :: "http_env option \<Rightarrow> string \<Rightarrow> goerr + identity" where
  "lazyVerifier_Verify verifier rawToken =
     (case verifier of None \<Rightarrow> Inl ErrVerifierNotReady | Some H \<Rightarrow> OIDCVerifier_Verify H rawToken)"

text \<open>The middleware: the identity it puts into the context, or the answer that ends the request.\<close>

definition Authenticate :: "http_env option \<Rightarrow> request \<Rightarrow> response + identity" where
  "Authenticate verifier rq =
     (case bearerToken (rq_Header rq ''Authorization'') of
        None \<Rightarrow> Inl (abortWith 401 CodeUnauthenticated)
      | Some raw \<Rightarrow>
          (case lazyVerifier_Verify verifier raw of
             Inl err \<Rightarrow> Inl (abortWith 401 CodeUnauthenticated)
           | Inr who \<Rightarrow> Inr who))"

end
