(* ===== verification/Handlers.thy ===== *)
theory Handlers
  imports Http
begin

text \<open>
  The handlers of \<open>internal/httpapi/handlers.go\<close> and the routes of \<open>module.go\<close>. \<open>who\<close> is the
  identity that \<open>identityFrom\<close> finds in the context. A handler never fails: whatever goes wrong is an
  answer. The clock readings for metrics and the log entries are left out.
\<close>

text \<open>\<open>correlationID\<close> draws an identifier and prefers the one of the request; it sets the header of
  the answer.\<close>

definition correlationID :: "env \<Rightarrow> request \<Rightarrow> uuid prog" where
  "correlationID E rq = bindP (new_uuid E) (\<lambda>fresh.
     let raw = rq_Header rq ''X-Correlation-Id'' in
     retP (if raw \<noteq> [] then (case uuid_Parse E raw of Some parsed \<Rightarrow> parsed | None \<Rightarrow> fresh) else fresh))"

definition correlated :: "env \<Rightarrow> uuid \<Rightarrow> response \<Rightarrow> response" where
  "correlated E i rs = rs\<lparr>rs_Correlation := Some (uuid_String E i)\<rparr>"

text \<open>The answer to the result of a call.\<close>

definition answerP :: "'a prog \<Rightarrow> ('a \<Rightarrow> response) \<Rightarrow> response prog" where
  "answerP f ok = bindP (tryP f) (\<lambda>r. retP (case r of Inl err \<Rightarrow> respondError err | Inr x \<Rightarrow> ok x))"

definition H_OpenWallet :: "http_env \<Rightarrow> env \<Rightarrow> identity option \<Rightarrow> request \<Rightarrow> response prog" where
  "H_OpenWallet H E who rq =
     (case who of None \<Rightarrow> retP (abortWith 401 CodeUnauthenticated)
      | Some i \<Rightarrow>
        if \<not> MayUseWalletOperations i then retP (abortWith 403 CodeForbidden)
        else case bind_open H (rq_Body rq) of None \<Rightarrow> retP (abortWith 400 CodeInvalidRequest)
        | Some req \<Rightarrow> (case uuid_Parse E (or_PlayerID req) of None \<Rightarrow> retP (abortWith 400 CodeInvalidRequest)
        | Some playerID \<Rightarrow> (case toMoney (or_InitialBalance req) of Inl err \<Rightarrow> retP (respondError err)
        | Inr initial \<Rightarrow>
            bindP (correlationID E rq) (\<lambda>cid.
            bindP (answerP (OpenWallet_Execute E
                \<lparr>oc_PlayerID = playerID, oc_InitialBalance = initial, oc_CorrelationID = cid\<rparr>)
              (\<lambda>w. json_response 201 (WalletBody (walletOut E w)))) (\<lambda>rs.
            retP (correlated E cid rs))))))"

definition H_GetWallet :: "env \<Rightarrow> identity option \<Rightarrow> request \<Rightarrow> response prog" where
  "H_GetWallet E who rq =
     (case who of None \<Rightarrow> retP (abortWith 401 CodeUnauthenticated)
      | Some i \<Rightarrow> (case uuid_Parse E (rq_Param rq ''walletId'') of None \<Rightarrow> retP (abortWith 400 CodeInvalidRequest)
      | Some walletID \<Rightarrow>
          answerP (Queries_GetWallet E i walletID) (\<lambda>w. json_response 200 (WalletBody (walletOut E w)))))"

definition ledgerEntryOut :: "env \<Rightarrow> ledger_entry \<Rightarrow> ledger_entry_response" where
  "ledgerEntryOut E e = \<lparr>lp_ID = uuid_String E (le_id e), lp_WalletID = uuid_String E (le_walletID e),
     lp_TransactionID = uuid_String E (le_transactionID e), lp_Direction = direction_string (le_direction e),
     lp_Money = moneyOut (le_amount e), lp_BalanceBefore = moneyOut (le_balanceBefore e),
     lp_BalanceAfter = moneyOut (le_balanceAfter e), lp_CreatedAt = rfc3339nano (le_createdAt e)\<rparr>"

text \<open>The limit of the query: 50 when absent; \<open>None\<close> when it is no positive integer.\<close>

definition ledger_limit :: "string \<Rightarrow> int option" where
  "ledger_limit raw =
     (if raw = [] then Some 50
      else case go_Atoi raw of None \<Rightarrow> None | Some parsed \<Rightarrow> if parsed \<le> 0 then None else Some parsed)"

definition H_GetLedger :: "env \<Rightarrow> identity option \<Rightarrow> request \<Rightarrow> response prog" where
  "H_GetLedger E who rq =
     (case who of None \<Rightarrow> retP (abortWith 401 CodeUnauthenticated)
      | Some i \<Rightarrow> (case uuid_Parse E (rq_Param rq ''walletId'') of None \<Rightarrow> retP (abortWith 400 CodeInvalidRequest)
      | Some walletID \<Rightarrow> (case ledger_limit (rq_Query rq ''limit'') of None \<Rightarrow> retP (abortWith 400 CodeInvalidRequest)
      | Some limit \<Rightarrow>
          answerP (Queries_GetLedger E i walletID (rq_Query rq ''cursor'') limit)
            (\<lambda>(entries, nxt). json_response 200 (LedgerBody (map (ledgerEntryOut E) entries) nxt)))))"

definition H_Reconcile :: "http_env \<Rightarrow> env \<Rightarrow> identity option \<Rightarrow> request \<Rightarrow> response prog" where
  "H_Reconcile H E who rq =
     (case who of None \<Rightarrow> retP (abortWith 401 CodeUnauthenticated)
      | Some i \<Rightarrow> (case uuid_Parse E (rq_Param rq ''walletId'') of None \<Rightarrow> retP (abortWith 400 CodeInvalidRequest)
      | Some walletID \<Rightarrow>
          answerP (Queries_Reconcile E (between_reads H) i walletID) (\<lambda>r. json_response 200 (ReconciliationBody
            \<lparr>cp_WalletID = uuid_String E (rr_WalletID r), cp_StoredBalance = moneyOut (rr_StoredBalance r),
             cp_CalculatedBalance = moneyOut (rr_CalculatedBalance r), cp_Difference = moneyOut (rr_Difference r),
             cp_Consistent = rr_Consistent r, cp_CheckedEntries = rr_CheckedEntries r\<rparr>))))"

definition submit_fields :: "submit_request \<Rightarrow> kind \<Rightarrow> money \<Rightarrow> payload_fields" where
  "submit_fields req k amount =
     \<lparr>pf_ProviderID = sq_ProviderID req, pf_ExternalTransactionID = sq_ExternalTransactionID req,
      pf_PlayerID = sq_PlayerID req, pf_WalletID = sq_WalletID req, pf_RoundID = sq_RoundID req,
      pf_GameID = sq_GameID req, pf_Kind = kind_string k, pf_MoneyAmount = DecimalString amount,
      pf_MoneyCurrency = moneyCurrency amount,
      pf_ReferenceExternalTransactionID = sq_ReferenceExternalTransactionID req\<rparr>"

definition buildProcessCommand :: "env \<Rightarrow> submit_request \<Rightarrow> string \<Rightarrow> uuid \<Rightarrow> goerr + process_command" where
  "buildProcessCommand E req idempotencyKey correlation =
     (case uuid_Parse E (sq_PlayerID req) of None \<Rightarrow> Inl (InvalidFieldErr ''playerId must be a UUID'')
      | Some playerID \<Rightarrow>
     (case uuid_Parse E (sq_WalletID req) of None \<Rightarrow> Inl (InvalidFieldErr ''walletId must be a UUID'')
      | Some walletID \<Rightarrow>
     bindR (parseKind (sq_Kind req)) (\<lambda>k.
     bindR (toMoney (sq_Money req)) (\<lambda>amount.
       Inr \<lparr>pc_ProviderID = sq_ProviderID req, pc_ExternalTransactionID = sq_ExternalTransactionID req,
         pc_IdempotencyKey = idempotencyKey, pc_PayloadHash = PayloadHash (submit_fields req k amount),
         pc_PlayerID = playerID, pc_WalletID = walletID, pc_RoundID = sq_RoundID req, pc_GameID = sq_GameID req,
         pc_Kind = k, pc_Money = amount,
         pc_ReferenceExternalTransactionID = sq_ReferenceExternalTransactionID req,
         pc_CorrelationID = correlation, pc_ConsumerName = [], pc_MessageID = []\<rparr>))))"

definition H_SubmitTransaction :: "http_env \<Rightarrow> env \<Rightarrow> identity option \<Rightarrow> request \<Rightarrow> response prog" where
  "H_SubmitTransaction H E who rq =
     (case who of None \<Rightarrow> retP (abortWith 401 CodeUnauthenticated)
      | Some i \<Rightarrow>
        if rq_Header rq ''Idempotency-Key'' = [] then retP (abortWith 400 CodeInvalidRequest)
        else case bind_submit H (rq_Body rq) of None \<Rightarrow> retP (abortWith 400 CodeInvalidRequest)
        | Some req \<Rightarrow>
          if \<not> MayActAsProvider i (sq_ProviderID req) then retP (abortWith 403 CodeForbidden)
          else
            bindP (correlationID E rq) (\<lambda>cid.
            bindP (case buildProcessCommand E req (rq_Header rq ''Idempotency-Key'') cid of
                Inl err \<Rightarrow> retP (respondError err)
              | Inr cmd \<Rightarrow> answerP (ProcessWager_Execute E cmd) (respondSubmitResult E)) (\<lambda>rs.
            retP (correlated E cid rs))))"

definition H_GetTransaction :: "env \<Rightarrow> identity option \<Rightarrow> request \<Rightarrow> response prog" where
  "H_GetTransaction E who rq =
     (case who of None \<Rightarrow> retP (abortWith 401 CodeUnauthenticated)
      | Some i \<Rightarrow> (case uuid_Parse E (rq_Param rq ''transactionId'') of
          None \<Rightarrow> retP (abortWith 400 CodeInvalidRequest)
      | Some transactionID \<Rightarrow>
          answerP (Queries_GetTransaction E i transactionID)
            (\<lambda>tx. json_response 200 (TransactionBody (transactionOut E tx)))))"

definition H_GetProviderTransaction :: "env \<Rightarrow> identity option \<Rightarrow> request \<Rightarrow> response prog" where
  "H_GetProviderTransaction E who rq =
     (case who of None \<Rightarrow> retP (abortWith 401 CodeUnauthenticated)
      | Some i \<Rightarrow>
          answerP (Queries_GetProviderTransaction E i (rq_Param rq ''providerId'') (rq_Param rq ''externalTransactionId''))
            (\<lambda>tx. json_response 200 (TransactionBody (transactionOut E tx))))"

section \<open>Routes\<close>

datatype route =
    PostWallets | GetWallets | GetWalletLedger | PostReconciliation
  | PostTransactions | GetTransactions | GetProviderTransactions

text \<open>Method and pattern of every route of \<open>NewRouteSet\<close>; \<open>gin\<close> matches them.\<close>

definition route_table :: "(string \<times> string \<times> route) list" where
  "route_table =
     [(''POST'', ''/wallets'', PostWallets),
      (''GET'', ''/wallets/:walletId'', GetWallets),
      (''GET'', ''/wallets/:walletId/ledger'', GetWalletLedger),
      (''POST'', ''/wallets/:walletId/reconciliation'', PostReconciliation),
      (''POST'', ''/wagering/transactions'', PostTransactions),
      (''GET'', ''/wagering/transactions/:transactionId'', GetTransactions),
      (''GET'', ''/providers/:providerId/wagering/transactions/:externalTransactionId'', GetProviderTransactions)]"

fun handler :: "http_env \<Rightarrow> env \<Rightarrow> route \<Rightarrow> identity option \<Rightarrow> request \<Rightarrow> response prog" where
  "handler H E PostWallets = H_OpenWallet H E"
| "handler H E GetWallets = H_GetWallet E"
| "handler H E GetWalletLedger = H_GetLedger E"
| "handler H E PostReconciliation = H_Reconcile H E"
| "handler H E PostTransactions = H_SubmitTransaction H E"
| "handler H E GetTransactions = H_GetTransaction E"
| "handler H E GetProviderTransactions = H_GetProviderTransaction E"

text \<open>\<open>Register\<close> puts the middleware in front of every handler: it ends the request or calls on.\<close>

definition serve :: "http_env \<Rightarrow> env \<Rightarrow> bool \<Rightarrow> route \<Rightarrow> request \<Rightarrow> response prog" where
  "serve H E ready r rq =
     (case Authenticate (if ready then Some H else None) rq of
        Inl rs \<Rightarrow> retP rs
      | Inr who \<Rightarrow> handler H E r (Some who) rq)"

end
