(* ===== verification/Json.thy ===== *)
theory Json
  imports Idempotency
begin

text \<open>
  \<open>json.Unmarshal\<close> of \<open>encoding/json\<close> as the consumer uses it: a scanner for one JSON value, its
  strings unquoted as Go does (escaped surrogate pairs joined, lone surrogates and invalid UTF-8
  replaced), and the decoding of an object into a struct of strings and nested structs. Keys match a
  field without regard to case, \<open>null\<close> leaves a field as it is, the last of several equal keys wins,
  and a value of another type is an error.
\<close>

section \<open>Values\<close>

datatype jvalue =
    VNull | VBool bool | VNumber string | VString string
  | VArray "jvalue list" | VObject "(string \<times> jvalue) list"

fun skip_ws :: "string \<Rightarrow> string" where
  "skip_ws [] = []"
| "skip_ws (c # cs) = (if c \<in> {CHR '' '', CHR 0x09, CHR 0x0A, CHR 0x0D} then skip_ws cs else c # cs)"

text \<open>What follows a character, after white space.\<close>

definition after :: "char \<Rightarrow> string \<Rightarrow> string option" where
  "after k s = (case skip_ws s of [] \<Rightarrow> None | c # cs \<Rightarrow> if c = k then Some cs else None)"

section \<open>Strings\<close>

definition hex_digit_value :: "char \<Rightarrow> nat option" where
  "hex_digit_value c =
     (let n = of_char c in
      if 48 \<le> n \<and> n \<le> 57 then Some (n - 48)
      else if 97 \<le> n \<and> n \<le> 102 then Some (n - 87)
      else if 65 \<le> n \<and> n \<le> 70 then Some (n - 55) else None)"

definition hex4 :: "string \<Rightarrow> (nat \<times> string) option" where
  "hex4 s =
     (case s of a # b # c # d # t \<Rightarrow>
        (case (hex_digit_value a, hex_digit_value b, hex_digit_value c, hex_digit_value d) of
           (Some w, Some x, Some y, Some z) \<Rightarrow> Some (((w * 16 + x) * 16 + y) * 16 + z, t)
         | _ \<Rightarrow> None)
      | _ \<Rightarrow> None)"

text \<open>\<open>utf8.AppendRune\<close> of a valid rune.\<close>

definition utf8_rune :: "nat \<Rightarrow> string" where
  "utf8_rune r =
     (if r < 0x80 then [char_of r]
      else if r < 0x800 then [char_of (0xC0 + r div 64), char_of (0x80 + r mod 64)]
      else if r < 0x10000 then
        [char_of (0xE0 + r div 4096), char_of (0x80 + r div 64 mod 64), char_of (0x80 + r mod 64)]
      else [char_of (0xF0 + r div 262144), char_of (0x80 + r div 4096 mod 64),
            char_of (0x80 + r div 64 mod 64), char_of (0x80 + r mod 64)])"

definition replacement :: string where
  "replacement = utf8_rune 0xFFFD"

definition simple_escape :: "char \<Rightarrow> char option" where
  "simple_escape e =
     (if e = CHR 0x22 \<or> e = CHR 0x5C \<or> e = CHR ''/'' then Some e
      else if e = CHR ''b'' then Some (CHR 0x08)
      else if e = CHR ''f'' then Some (CHR 0x0C)
      else if e = CHR ''n'' then Some (CHR 0x0A)
      else if e = CHR ''r'' then Some (CHR 0x0D)
      else if e = CHR ''t'' then Some (CHR 0x09) else None)"

text \<open>The rune that the text after a \<open>u\<close> escape stands for, and what is left of it.\<close>

definition escaped_rune :: "string \<Rightarrow> (string \<times> string) option" where
  "escaped_rune s =
     (case hex4 s of None \<Rightarrow> None
      | Some (r, t) \<Rightarrow>
          if r < 0xD800 \<or> 0xE000 \<le> r then Some (utf8_rune r, t)
          else case t of
            b # u # t' \<Rightarrow>
              (case (if b = CHR 0x5C \<and> u = CHR ''u'' then hex4 t' else None) of
                 None \<Rightarrow> Some (replacement, t)
               | Some (l, t'') \<Rightarrow>
                   if r < 0xDC00 \<and> 0xDC00 \<le> l \<and> l < 0xE000
                   then Some (utf8_rune (0x10000 + (r - 0xD800) * 0x400 + (l - 0xDC00)), t'')
                   else Some (replacement, t))
          | _ \<Rightarrow> Some (replacement, t))"

lemma hex4_length: "hex4 s = Some (r, t) \<Longrightarrow> length t < length s"
  by (auto simp: hex4_def split: list.splits option.splits)

lemma escaped_rune_length: "escaped_rune s = Some (x, t) \<Longrightarrow> length t < length s"
  by (auto simp: escaped_rune_def split: option.splits list.splits if_splits prod.splits dest!: hex4_length)

text \<open>The text of a string whose opening quote was read, and what follows its closing quote.\<close>

function unquote :: "string \<Rightarrow> (string \<times> string) option" where
  "unquote [] = None"
| "unquote (c # cs) =
     (if c = CHR 0x22 then Some ([], cs)
      else if c = CHR 0x5C then
        (case cs of [] \<Rightarrow> None
         | e # ds \<Rightarrow>
             if e = CHR ''u'' then
               (case escaped_rune ds of None \<Rightarrow> None
                | Some (x, t) \<Rightarrow> map_option (\<lambda>(y, r). (x @ y, r)) (unquote t))
             else (case simple_escape e of None \<Rightarrow> None
                   | Some x \<Rightarrow> map_option (\<lambda>(y, r). (x # y, r)) (unquote ds)))
      else if of_char c < (32 :: nat) then None
      else if of_char c < (128 :: nat) then map_option (\<lambda>(y, r). (c # y, r)) (unquote cs)
      else let n = utf8_size (map of_char (c # cs)) in
        if n = 0 then map_option (\<lambda>(y, r). (replacement @ y, r)) (unquote cs)
        else map_option (\<lambda>(y, r). (take n (c # cs) @ y, r)) (unquote (drop (n - 1) cs)))"
  by pat_completeness auto
termination
  by (relation "measure length") (auto dest!: escaped_rune_length)

section \<open>Scanning a value\<close>

text \<open>What is left after a number, if the text starts with one.\<close>

definition skip_digits1 :: "string \<Rightarrow> string option" where
  "skip_digits1 s = (if takeWhile is_digit s = [] then None else Some (dropWhile is_digit s))"

definition skip_int :: "string \<Rightarrow> string option" where
  "skip_int s = (case s of [] \<Rightarrow> None | c # t \<Rightarrow> if c = CHR ''0'' then Some t else skip_digits1 s)"

definition skip_frac :: "string \<Rightarrow> string option" where
  "skip_frac s = (case s of c # t \<Rightarrow> if c = CHR ''.'' then skip_digits1 t else Some s | [] \<Rightarrow> Some s)"

definition skip_exp :: "string \<Rightarrow> string option" where
  "skip_exp s =
     (case s of c # t \<Rightarrow>
        if c = CHR ''e'' \<or> c = CHR ''E'' then
          skip_digits1 (case t of d # u \<Rightarrow> if d = CHR ''+'' \<or> d = CHR ''-'' then u else t | [] \<Rightarrow> t)
        else Some s
      | [] \<Rightarrow> Some s)"

definition skip_number :: "string \<Rightarrow> string option" where
  "skip_number s =
     Option.bind (skip_int (case s of c # t \<Rightarrow> if c = CHR ''-'' then t else s | [] \<Rightarrow> s))
       (\<lambda>t. Option.bind (skip_frac t) skip_exp)"

definition maxNestingDepth :: nat where
  "maxNestingDepth = 10000"

definition parse_literal :: "string \<Rightarrow> (jvalue \<times> string) option" where
  "parse_literal s =
     (if take 4 s = ''true'' then Some (VBool True, drop 4 s)
      else if take 5 s = ''false'' then Some (VBool False, drop 5 s)
      else if take 4 s = ''null'' then Some (VNull, drop 4 s)
      else map_option (\<lambda>t. (VNumber (take (length s - length t) s), t)) (skip_number s))"

text \<open>The first argument is fuel, the second the number of open objects and arrays.\<close>

fun parse_value :: "nat \<Rightarrow> nat \<Rightarrow> string \<Rightarrow> (jvalue \<times> string) option"
  and parse_elements :: "nat \<Rightarrow> nat \<Rightarrow> string \<Rightarrow> (jvalue list \<times> string) option"
  and parse_members :: "nat \<Rightarrow> nat \<Rightarrow> string \<Rightarrow> ((string \<times> jvalue) list \<times> string) option" where
  "parse_value 0 depth s = None"
| "parse_value (Suc n) depth s =
     (case skip_ws s of
        [] \<Rightarrow> None
      | c # cs \<Rightarrow>
          if c = CHR 0x22 then map_option (\<lambda>(t, r). (VString t, r)) (unquote cs)
          else if c = CHR ''{'' then
            if maxNestingDepth \<le> depth then None
            else (case after (CHR ''}'') cs of
                    Some r \<Rightarrow> Some (VObject [], r)
                  | None \<Rightarrow> map_option (\<lambda>(ms, r). (VObject ms, r)) (parse_members n (Suc depth) cs))
          else if c = CHR ''['' then
            if maxNestingDepth \<le> depth then None
            else (case after (CHR '']'') cs of
                    Some r \<Rightarrow> Some (VArray [], r)
                  | None \<Rightarrow> map_option (\<lambda>(vs, r). (VArray vs, r)) (parse_elements n (Suc depth) cs))
          else parse_literal (c # cs))"
| "parse_elements 0 depth s = None"
| "parse_elements (Suc n) depth s =
     (case parse_value n depth s of
        None \<Rightarrow> None
      | Some (v, r) \<Rightarrow>
          (case skip_ws r of
             [] \<Rightarrow> None
           | c # cs \<Rightarrow>
               if c = CHR '']'' then Some ([v], cs)
               else if c = CHR '','' then map_option (\<lambda>(vs, r). (v # vs, r)) (parse_elements n depth cs)
               else None))"
| "parse_members 0 depth s = None"
| "parse_members (Suc n) depth s =
     (case after (CHR 0x22) s of
        None \<Rightarrow> None
      | Some ks \<Rightarrow>
          (case unquote ks of
             None \<Rightarrow> None
           | Some (k, r) \<Rightarrow>
               (case after (CHR '':'') r of
                  None \<Rightarrow> None
                | Some t \<Rightarrow>
                    (case parse_value n depth t of
                       None \<Rightarrow> None
                     | Some (v, r') \<Rightarrow>
                         (case skip_ws r' of
                            [] \<Rightarrow> None
                          | c # cs \<Rightarrow>
                              if c = CHR ''}'' then Some ([(k, v)], cs)
                              else if c = CHR '','' then map_option (\<lambda>(ms, r). ((k, v) # ms, r)) (parse_members n depth cs)
                              else None)))))"

definition parse_json :: "string \<Rightarrow> jvalue option" where
  "parse_json s =
     (case parse_value (2 * length s + 1) 0 s of
        None \<Rightarrow> None
      | Some (v, r) \<Rightarrow> if skip_ws r = [] then Some v else None)"

section \<open>Decoding into a struct\<close>

text \<open>\<open>foldName\<close>: letters are compared without case; the long s and the Kelvin sign count as letters.\<close>

definition fold_char :: "char \<Rightarrow> char" where
  "fold_char c = (let n = of_char c :: nat in if 97 \<le> n \<and> n \<le> 122 then char_of (n - 32) else c)"

fun fold_name :: "string \<Rightarrow> string" where
  "fold_name [] = []"
| "fold_name (c # cs) =
     (if c = CHR 0xC5 \<and> take 1 cs = [CHR 0xBF] then CHR ''S'' # fold_name (drop 1 cs)
      else if c = CHR 0xE2 \<and> take 2 cs = [CHR 0x84, CHR 0xAA] then CHR ''K'' # fold_name (drop 2 cs)
      else fold_char c # fold_name cs)"

definition names :: "string \<Rightarrow> string \<Rightarrow> bool" where
  "names key field \<longleftrightarrow> fold_name key = fold_name field"

text \<open>The value of a string field, given the one it has.\<close>

fun decode_string :: "jvalue \<Rightarrow> string \<Rightarrow> string option" where
  "decode_string (VString t) old = Some t"
| "decode_string VNull old = Some old"
| "decode_string v old = None"

text \<open>\<open>step\<close> sets the field that a key names.\<close>

fun decode_members :: "(string \<Rightarrow> jvalue \<Rightarrow> 'r \<Rightarrow> 'r option) \<Rightarrow> (string \<times> jvalue) list \<Rightarrow> 'r \<Rightarrow> 'r option" where
  "decode_members step [] r = Some r"
| "decode_members step ((k, v) # ms) r = Option.bind (step k v r) (decode_members step ms)"

definition decode_struct :: "(string \<Rightarrow> jvalue \<Rightarrow> 'r \<Rightarrow> 'r option) \<Rightarrow> jvalue \<Rightarrow> 'r \<Rightarrow> 'r option" where
  "decode_struct step v r =
     (case v of VObject ms \<Rightarrow> decode_members step ms r | VNull \<Rightarrow> Some r | _ \<Rightarrow> None)"

section \<open>The fuel is enough\<close>

lemma skip_ws_length: "length (skip_ws s) \<le> length s"
  by (induction s) auto

lemma after_length: "after k s = Some t \<Longrightarrow> length t < length s"
  using skip_ws_length [of s] by (auto simp: after_def split: list.splits if_splits)

lemma unquote_length: "unquote s = Some (x, r) \<Longrightarrow> length r < length s"
proof (induction s arbitrary: x r rule: unquote.induct)
  case (2 c cs)
  then show ?case
    by (auto simp: Let_def split: if_splits list.splits option.splits dest!: escaped_rune_length)
      (fastforce dest: less_trans)+
qed simp

lemma skip_number_length:
  assumes "skip_number s = Some t"
  shows "length t < length s"
proof -
  have digits: "length u < length s" if "skip_digits1 s = Some u" for s u
    using that by (cases s) (auto simp: skip_digits1_def split: if_splits intro: le_imp_less_Suc length_dropWhile_le)
  have int: "length u < length s" if "skip_int s = Some u" for s u
    using that digits [of s u] by (auto simp: skip_int_def split: list.splits if_splits)
  have frac: "length u \<le> length s" if "skip_frac s = Some u" for s u
    using that digits by (fastforce simp: skip_frac_def split: list.splits if_splits dest: less_imp_le)
  have exp: "length u \<le> length s" if "skip_exp s = Some u" for s u
    using that digits by (fastforce simp: skip_exp_def split: list.splits if_splits dest: less_imp_le)
  obtain a b where "skip_int (case s of c # t \<Rightarrow> if c = CHR ''-'' then t else s | [] \<Rightarrow> s) = Some a"
    "skip_frac a = Some b" "skip_exp b = Some t"
    using assms by (auto simp: skip_number_def bind_eq_Some_conv)
  then have "length t < length (case s of c # t \<Rightarrow> if c = CHR ''-'' then t else s | [] \<Rightarrow> s)"
    using int frac exp by (meson le_less_trans)
  also have "\<dots> \<le> length s" by (simp split: list.split)
  finally show ?thesis .
qed

lemma parse_literal_length:
  assumes "parse_literal s = Some (v, r)"
  shows "length r < length s"
proof -
  have "length (drop k s) < length s" if "take k s = t" "t \<noteq> []" "0 < k" for k t
    using that by (cases s) auto
  then show ?thesis using assms skip_number_length
    by (auto simp: parse_literal_def split: if_splits simp del: length_drop take_eq_Nil)
qed

lemma parse_length:
  "parse_value n d s = Some (v, r) \<Longrightarrow> length r < length s"
  "parse_elements n d s = Some (vs, r) \<Longrightarrow> length r < length s"
  "parse_members n d s = Some (ms, r) \<Longrightarrow> length r < length s"
proof (induction n d s and n d s and n d s arbitrary: v r and vs r and ms r
    rule: parse_value_parse_elements_parse_members.induct)
  case (2 n d s)
  obtain c cs where ws: "skip_ws s = c # cs" using 2(3) by (cases "skip_ws s") simp_all
  have len: "length cs < length s" using skip_ws_length [of s] ws by simp
  consider t where "unquote cs = Some (t, r)" | "after (CHR ''}'') cs = Some r" | "after (CHR '']'') cs = Some r"
    | ms where "c \<noteq> CHR 0x22" "c = CHR ''{''" "\<not> maxNestingDepth \<le> d" "after (CHR ''}'') cs = None"
        "parse_members n (Suc d) cs = Some (ms, r)"
    | vs where "c \<noteq> CHR 0x22" "c \<noteq> CHR ''{''" "c = CHR ''[''" "\<not> maxNestingDepth \<le> d" "after (CHR '']'') cs = None"
        "parse_elements n (Suc d) cs = Some (vs, r)"
    | "parse_literal (c # cs) = Some (v, r)"
    using 2(3) by (simp add: ws split: if_split_asm option.splits) blast+
  then show ?case
  proof cases
    case 1
    then show ?thesis using unquote_length len by (metis less_trans)
  next
    case 4
    then show ?thesis using 2(1) [OF ws 4(1-5)] len by simp
  next
    case 5
    then show ?thesis using 2(2) [OF ws 5(1-6)] len by simp
  next
    case 6
    then have "length r < Suc (length cs)" using parse_literal_length by fastforce
    then show ?thesis using len by simp
  qed (use after_length len in fastforce)+
next
  case (4 n d s)
  obtain v r1 where v: "parse_value n d s = Some (v, r1)" using 4(3) by (auto split: option.splits)
  obtain c cs where ws: "skip_ws r1 = c # cs" using 4(3) v by (cases "skip_ws r1") simp_all
  have "length cs < length r1" using skip_ws_length [of r1] ws by simp
  then have len: "length cs < length s" using 4(1) [OF v] by simp
  consider "r = cs" | vs' where "c \<noteq> CHR '']''" "c = CHR '',''" "parse_elements n d cs = Some (vs', r)"
    using 4(3) v by (simp add: ws split: if_split_asm) blast+
  then show ?case
    using len 4(2) [OF v refl ws] by cases (simp, fastforce)
next
  case (6 n d s)
  obtain ks where q: "after (CHR 0x22) s = Some ks" using 6(3) by (auto split: option.splits)
  obtain k r1 where k: "unquote ks = Some (k, r1)" using 6(3) by (auto simp: q split: option.splits)
  obtain t where t: "after (CHR '':'') r1 = Some t" using 6(3) by (auto simp: q k split: option.splits)
  obtain v r2 where v: "parse_value n d t = Some (v, r2)" using 6(3) by (auto simp: q k t split: option.splits)
  obtain c cs where ws: "skip_ws r2 = c # cs" using 6(3) by (cases "skip_ws r2") (simp_all add: q k t v)
  have "length r2 < length t" by (rule 6(1) [OF q k refl t v])
  then have len: "length cs < length s"
    using after_length [OF q] after_length [OF t] unquote_length [OF k] skip_ws_length [of r2] ws by simp
  consider "r = cs" | ms' where "c \<noteq> CHR ''}''" "c = CHR '',''" "parse_members n d cs = Some (ms', r)"
    using 6(3) by (simp add: q k t v ws split: if_split_asm) blast+
  then show ?case
    using len 6(2) [OF q k refl t v refl ws] by cases (simp, fastforce)
qed simp_all

text \<open>More fuel than the text needs changes nothing: every call reads at least a character of it.\<close>

lemma fuel_enough:
  "2 * length s + 1 \<le> m \<Longrightarrow> 2 * length s + 1 \<le> n \<Longrightarrow> parse_value m d s = parse_value n d s"
  "2 * length s + 2 \<le> m \<Longrightarrow> 2 * length s + 2 \<le> n \<Longrightarrow> parse_elements m d s = parse_elements n d s"
  "2 * length s + 1 \<le> m \<Longrightarrow> 2 * length s + 1 \<le> n \<Longrightarrow> parse_members m d s = parse_members n d s"
proof (induction m d s and m d s and m d s arbitrary: n and n and n
    rule: parse_value_parse_elements_parse_members.induct)
  case (2 m d s)
  obtain n' where n: "n = Suc n'" using 2(4) by (cases n) simp_all
  show ?case
  proof (cases "skip_ws s")
    case (Cons c cs)
    then have len: "length cs < length s" using skip_ws_length [of s] by simp
    have "parse_members m (Suc d) cs = parse_members n' (Suc d) cs"
      if "c = CHR ''{''" "\<not> maxNestingDepth \<le> d" "after (CHR ''}'') cs = None"
      by (rule 2(1) [OF Cons]) (use that 2(3,4) n len in simp_all)
    moreover have "parse_elements m (Suc d) cs = parse_elements n' (Suc d) cs"
      if "c = CHR ''[''" "\<not> maxNestingDepth \<le> d" "after (CHR '']'') cs = None"
      by (rule 2(2) [OF Cons]) (use that 2(3,4) n len in simp_all)
    ultimately show ?thesis by (simp add: n Cons split: option.split)
  qed (simp add: n)
next
  case (4 m d s)
  obtain n' where n: "n = Suc n'" using 4(4) by (cases n) simp_all
  have v: "parse_value m d s = parse_value n' d s" by (rule 4(1)) (use 4(3,4) n in simp_all)
  show ?case
  proof (cases "parse_value n' d s")
    case (Some p)
    obtain w r where p: "p = (w, r)" by (cases p)
    show ?thesis
    proof (cases "skip_ws r")
      case (Cons c cs)
      have "length cs < length r" using skip_ws_length [of r] Cons by simp
      moreover have "length r < length s" using parse_length(1) Some p by blast
      ultimately have "parse_elements m d cs = parse_elements n' d cs" if "c = CHR '',''"
        by (intro 4(2) [of "(w, r)" w r c cs]) (use that 4(3,4) n v Some p Cons in simp_all)
      then show ?thesis by (simp add: n v Some p Cons)
    qed (simp add: n v Some p)
  qed (simp add: n v)
next
  case (6 m d s)
  obtain n' where n: "n = Suc n'" using 6(4) by (cases n) simp_all
  show ?case
  proof (cases "after (CHR 0x22) s")
    case q: (Some ks)
    show ?thesis
    proof (cases "unquote ks")
      case k: (Some p)
      obtain k r where p: "p = (k, r)" by (cases p)
      show ?thesis
      proof (cases "after (CHR '':'') r")
        case t: (Some t)
        have len: "length t + 2 \<le> length s"
          using after_length [OF q] after_length [OF t] unquote_length [of ks k r] k p by simp
        have v: "parse_value m d t = parse_value n' d t" by (rule 6(1) [OF q k p [symmetric] t]) (use 6(3,4) n len in simp_all)
        show ?thesis
        proof (cases "parse_value n' d t")
          case pv: (Some pv)
          obtain w r2 where p2: "pv = (w, r2)" by (cases pv)
          show ?thesis
          proof (cases "skip_ws r2")
            case (Cons c cs)
            have "length cs < length r2" using skip_ws_length [of r2] Cons by simp
            moreover have "length r2 < length t" using parse_length(1) pv p2 by blast
            ultimately have "parse_members m d cs = parse_members n' d cs" if "c = CHR '',''"
              by (intro 6(2) [OF q k p [symmetric] t _ p2 [symmetric] Cons]) (use that 6(3,4) n len v pv in simp_all)
            then show ?thesis by (simp add: n q k p t v pv p2 Cons)
          qed (simp add: n q k p t v pv p2)
        qed (simp add: n q k p t v)
      qed (simp add: n q k p)
    qed (simp add: n q)
  qed (simp add: n)
qed simp_all

end
