(* ===== verification/Queue.thy ===== *)
theory Queue
  imports ProcessWager Json
begin

text \<open>
  \<open>internal/queue/consumer.go\<close> and \<open>publisher.go\<close>. SQS is outside the sources: what it hands over,
  when the contexts are cancelled and what it answers are the fields of \<open>sqs_env\<close>, streams indexed
  by how often they were read before; the requests the program sends it are recorded in order. A
  failure to delete or to release a message is only logged. Spans, metrics and log entries are left
  out.
\<close>

section \<open>Messages\<close>

record message_data =
  me_ProviderID :: string
  me_ExternalTransactionID :: string
  me_IdempotencyKey :: string
  me_PlayerID :: string
  me_WalletID :: string
  me_RoundID :: string
  me_GameID :: string
  me_Kind :: string
  me_Amount :: string
  me_Currency :: string
  me_ReferenceExternalTransactionID :: string
  me_CorrelationID :: string

record message_envelope =
  mv_MessageID :: string
  mv_Type :: string
  mv_OccurredAt :: string
  mv_Data :: message_data

definition zero_data :: message_data where
  "zero_data = \<lparr>me_ProviderID = [], me_ExternalTransactionID = [], me_IdempotencyKey = [], me_PlayerID = [],
     me_WalletID = [], me_RoundID = [], me_GameID = [], me_Kind = [], me_Amount = [], me_Currency = [],
     me_ReferenceExternalTransactionID = [], me_CorrelationID = []\<rparr>"

definition zero_envelope :: message_envelope where
  "zero_envelope = \<lparr>mv_MessageID = [], mv_Type = [], mv_OccurredAt = [], mv_Data = zero_data\<rparr>"

text \<open>The fields and the names that their tags give them.\<close>

definition set_money :: "string \<Rightarrow> jvalue \<Rightarrow> message_data \<Rightarrow> message_data option" where
  "set_money k v d =
     (if names k ''amount'' then map_option (\<lambda>s. d\<lparr>me_Amount := s\<rparr>) (decode_string v (me_Amount d))
      else if names k ''currency'' then map_option (\<lambda>s. d\<lparr>me_Currency := s\<rparr>) (decode_string v (me_Currency d))
      else Some d)"

definition set_data :: "string \<Rightarrow> jvalue \<Rightarrow> message_data \<Rightarrow> message_data option" where
  "set_data k v d =
     (if names k ''providerId'' then map_option (\<lambda>s. d\<lparr>me_ProviderID := s\<rparr>) (decode_string v (me_ProviderID d))
      else if names k ''externalTransactionId'' then
        map_option (\<lambda>s. d\<lparr>me_ExternalTransactionID := s\<rparr>) (decode_string v (me_ExternalTransactionID d))
      else if names k ''idempotencyKey'' then
        map_option (\<lambda>s. d\<lparr>me_IdempotencyKey := s\<rparr>) (decode_string v (me_IdempotencyKey d))
      else if names k ''playerId'' then map_option (\<lambda>s. d\<lparr>me_PlayerID := s\<rparr>) (decode_string v (me_PlayerID d))
      else if names k ''walletId'' then map_option (\<lambda>s. d\<lparr>me_WalletID := s\<rparr>) (decode_string v (me_WalletID d))
      else if names k ''roundId'' then map_option (\<lambda>s. d\<lparr>me_RoundID := s\<rparr>) (decode_string v (me_RoundID d))
      else if names k ''gameId'' then map_option (\<lambda>s. d\<lparr>me_GameID := s\<rparr>) (decode_string v (me_GameID d))
      else if names k ''kind'' then map_option (\<lambda>s. d\<lparr>me_Kind := s\<rparr>) (decode_string v (me_Kind d))
      else if names k ''money'' then decode_struct set_money v d
      else if names k ''referenceExternalTransactionId'' then
        map_option (\<lambda>s. d\<lparr>me_ReferenceExternalTransactionID := s\<rparr>) (decode_string v (me_ReferenceExternalTransactionID d))
      else if names k ''correlationId'' then
        map_option (\<lambda>s. d\<lparr>me_CorrelationID := s\<rparr>) (decode_string v (me_CorrelationID d))
      else Some d)"

definition set_envelope :: "string \<Rightarrow> jvalue \<Rightarrow> message_envelope \<Rightarrow> message_envelope option" where
  "set_envelope k v e =
     (if names k ''messageId'' then map_option (\<lambda>s. e\<lparr>mv_MessageID := s\<rparr>) (decode_string v (mv_MessageID e))
      else if names k ''type'' then map_option (\<lambda>s. e\<lparr>mv_Type := s\<rparr>) (decode_string v (mv_Type e))
      else if names k ''occurredAt'' then map_option (\<lambda>s. e\<lparr>mv_OccurredAt := s\<rparr>) (decode_string v (mv_OccurredAt e))
      else if names k ''data'' then map_option (\<lambda>d. e\<lparr>mv_Data := d\<rparr>) (decode_struct set_data v (mv_Data e))
      else Some e)"

text \<open>\<open>json.Unmarshal\<close> into a \<open>messageEnvelope\<close>.\<close>

definition decode_envelope :: "string \<Rightarrow> message_envelope option" where
  "decode_envelope body = Option.bind (parse_json body) (\<lambda>v. decode_struct set_envelope v zero_envelope)"

section \<open>Processing a message\<close>

text \<open>\<open>fmt.Errorf("%w: ...", errPermanent, ...)\<close>\<close>

definition permanent :: "string \<Rightarrow> goerr" where
  "permanent s = WrapErr s ErrPermanent"

definition data_fields :: "message_data \<Rightarrow> kind \<Rightarrow> money \<Rightarrow> payload_fields" where
  "data_fields d k amount =
     \<lparr>pf_ProviderID = me_ProviderID d, pf_ExternalTransactionID = me_ExternalTransactionID d,
      pf_PlayerID = me_PlayerID d, pf_WalletID = me_WalletID d, pf_RoundID = me_RoundID d,
      pf_GameID = me_GameID d, pf_Kind = kind_string k, pf_MoneyAmount = DecimalString amount,
      pf_MoneyCurrency = moneyCurrency amount,
      pf_ReferenceExternalTransactionID = me_ReferenceExternalTransactionID d\<rparr>"

definition buildCommand :: "env \<Rightarrow> string \<Rightarrow> message_envelope \<Rightarrow> process_command prog" where
  "buildCommand E consumer envelope =
     (let d = mv_Data envelope; k = kind_of_string (me_Kind d) in
      if me_IdempotencyKey d = [] then failP (permanent ''missing data.idempotencyKey'')
      else case uuid_Parse E (me_PlayerID d) of None \<Rightarrow> failP (permanent ''playerId is not a UUID'')
      | Some playerID \<Rightarrow> (case uuid_Parse E (me_WalletID d) of None \<Rightarrow> failP (permanent ''walletId is not a UUID'')
      | Some walletID \<Rightarrow>
        if \<not> Kind_IsValidExternal k then failP (permanent ''kind is not acceptable from a provider'')
        else case NewCurrency (me_Currency d) of Inl err \<Rightarrow> failP (permanent ''currency'')
        | Inr cur \<Rightarrow> (case ParseNonNegative (me_Amount d) cur of Inl err \<Rightarrow> failP (permanent ''amount'')
        | Inr amount \<Rightarrow>
            bindP (new_uuid E) (\<lambda>fresh.
            retP \<lparr>pc_ProviderID = me_ProviderID d, pc_ExternalTransactionID = me_ExternalTransactionID d,
              pc_IdempotencyKey = me_IdempotencyKey d, pc_PayloadHash = PayloadHash (data_fields d k amount),
              pc_PlayerID = playerID, pc_WalletID = walletID, pc_RoundID = me_RoundID d, pc_GameID = me_GameID d,
              pc_Kind = k, pc_Money = amount,
              pc_ReferenceExternalTransactionID = me_ReferenceExternalTransactionID d,
              pc_CorrelationID = (if me_CorrelationID d \<noteq> []
                then (case uuid_Parse E (me_CorrelationID d) of Some parsed \<Rightarrow> parsed | None \<Rightarrow> fresh) else fresh),
              pc_ConsumerName = consumer, pc_MessageID = mv_MessageID envelope\<rparr>))))"

text \<open>The switch on the error of \<open>Execute\<close>.\<close>

definition process_error :: "goerr \<Rightarrow> goerr" where
  "process_error err =
     (if errors_Is err (AppErr ErrIdempotencyConflict) \<or> errors_Is err (AppErr ErrOperationIdentityConflict)
         \<or> errors_Is err (AppErr ErrWalletMismatch) \<or> errors_Is err (AppErr ErrNotFound)
      then permanent ''operation'' else err)"

definition process :: "env \<Rightarrow> string \<Rightarrow> string \<Rightarrow> unit prog" where
  "process E consumer body =
     (case decode_envelope body of None \<Rightarrow> failP (permanent ''malformed body'')
      | Some envelope \<Rightarrow>
        if mv_MessageID envelope = [] then failP (permanent ''missing messageId'')
        else bindP (buildCommand E consumer envelope) (\<lambda>cmd.
          bindP (tryP (ProcessWager_Execute E cmd)) (\<lambda>r. case r of
            Inr out \<Rightarrow> retP ()
          | Inl err \<Rightarrow> failP (process_error err))))"

section \<open>The consumer\<close>

record sqs_message =
  sm_Body :: "string option"
  sm_ReceiptHandle :: "string option"

datatype sqs_call =
    ReceiveMessage
  | DeleteMessage "string option"
  | ChangeMessageVisibility "string option" int

record sqs_env =
  fetch_Err :: "nat \<Rightarrow> bool" \<comment> \<open>\<open>life.Fetch.Err() != nil\<close>\<close>
  work_Err :: "nat \<Rightarrow> bool" \<comment> \<open>\<open>life.Work.Err() != nil\<close>\<close>
  receives :: "nat \<Rightarrow> goerr + sqs_message list"
  pause_Done :: "nat \<Rightarrow> bool" \<comment> \<open>the fetch context ends the pause after a failed receive\<close>

record consumer =
  cs_world :: world
  cs_calls :: "sqs_call list"
  cs_fetch :: nat
  cs_work :: nat
  cs_receives :: nat

text \<open>A message is deleted when it was processed; otherwise it is left to be redelivered, and to the
  dead letter queue in the end.\<close>

definition handle :: "env \<Rightarrow> string \<Rightarrow> sqs_message \<Rightarrow> consumer \<Rightarrow> consumer" where
  "handle E name msg s =
     (case process E name (case sm_Body msg of None \<Rightarrow> [] | Some b \<Rightarrow> b) (cs_world s) of (err, w) \<Rightarrow>
        (case err of
           Inr _ \<Rightarrow> s\<lparr>cs_world := w, cs_calls := cs_calls s @ [DeleteMessage (sm_ReceiptHandle msg)]\<rparr>
         | Inl e \<Rightarrow> s\<lparr>cs_world := w\<rparr>))"

definition release :: "sqs_message list \<Rightarrow> consumer \<Rightarrow> consumer" where
  "release msgs s =
     s\<lparr>cs_calls := cs_calls s @ map (\<lambda>msg. ChangeMessageVisibility (sm_ReceiptHandle msg) 0) msgs\<rparr>"

text \<open>The loop over a batch; it tells whether \<open>Run\<close> returns.\<close>

fun handle_batch :: "sqs_env \<Rightarrow> env \<Rightarrow> string \<Rightarrow> sqs_message list \<Rightarrow> consumer \<Rightarrow> bool \<times> consumer" where
  "handle_batch Q E name [] s = (False, s)"
| "handle_batch Q E name (msg # msgs) s =
     (let s' = s\<lparr>cs_work := Suc (cs_work s)\<rparr> in
      if work_Err Q (cs_work s) then (True, release (msg # msgs) s')
      else handle_batch Q E name msgs (handle E name msg s'))"

text \<open>\<open>Run\<close> ends only when its context does, so it may not return: \<open>None\<close>.\<close>

partial_function (option) Run :: "sqs_env \<Rightarrow> env \<Rightarrow> string \<Rightarrow> consumer \<Rightarrow> consumer option" where
  "Run Q E name s =
     (if fetch_Err Q (cs_fetch s) then Some (s\<lparr>cs_fetch := Suc (cs_fetch s)\<rparr>)
      else
        let s1 = s\<lparr>cs_fetch := Suc (cs_fetch s), cs_receives := Suc (cs_receives s),
                   cs_calls := cs_calls s @ [ReceiveMessage]\<rparr> in
        case receives Q (cs_receives s) of
          Inl err \<Rightarrow>
            (let s2 = s1\<lparr>cs_fetch := Suc (cs_fetch s1)\<rparr> in
             if fetch_Err Q (cs_fetch s1) then Some s2
             else if pause_Done Q (cs_receives s) then Some s2
             else Run Q E name s2)
        | Inr msgs \<Rightarrow>
            (case handle_batch Q E name msgs s1 of (stop, s2) \<Rightarrow>
               if stop then Some s2 else Run Q E name s2))"

section \<open>The publisher\<close>

text \<open>The message of an event: events of an aggregate share a group, and the identifier of the event
  deduplicates. What the propagator adds to the attributes is \<open>inject\<close>.\<close>

record send_input =
  sd_QueueUrl :: string
  sd_MessageBody :: json
  sd_MessageGroupId :: string
  sd_MessageDeduplicationId :: string
  sd_Attributes :: "(string \<times> string) list"

definition event_message :: "env \<Rightarrow> (string \<Rightarrow> (string \<times> string) list) \<Rightarrow> string \<Rightarrow> outbox_record \<Rightarrow> send_input" where
  "event_message E inject queueURL rec =
     \<lparr>sd_QueueUrl = queueURL, sd_MessageBody = ob_Payload rec, sd_MessageGroupId = ob_AggregateID rec,
      sd_MessageDeduplicationId = uuid_String E (ob_EventID rec),
      sd_Attributes = (''eventType'', ob_Type rec) # inject (ob_TraceParent rec)\<rparr>"

definition Publisher_Publish ::
  "(send_input \<Rightarrow> nat \<Rightarrow> string option) \<Rightarrow> env \<Rightarrow> (string \<Rightarrow> (string \<times> string) list) \<Rightarrow> string
     \<Rightarrow> outbox_record \<Rightarrow> nat \<Rightarrow> goerr option" where
  "Publisher_Publish send E inject queueURL rec n =
     map_option (\<lambda>err. WrapErr ''publishing event'' (DriverErr err)) (send (event_message E inject queueURL rec) n)"

end
