(* ===== verification/Delivery.thy ===== *)
theory Delivery
  imports Effects Queue
begin

text \<open>
  What the consumer does with a message: a message is deleted only when its operation is recorded,
  a second delivery changes nothing, and the loop of the consumer stays within the steps of the
  service and ends when its context does.
\<close>

section \<open>A processed message\<close>

lemma buildCommand_run:
  assumes "buildCommand E c e w = (Inr cmd, w')"
  shows "wd_db w' = wd_db w \<and> pc_ConsumerName cmd = c \<and> pc_MessageID cmd = mv_MessageID e
    \<and> pc_IdempotencyKey cmd = me_IdempotencyKey (mv_Data e)"
  using assms by (auto simp: buildCommand_def Let_def run_simps split: if_splits option.splits sum.splits)

text \<open>The command depends on the message alone, up to the correlation identifier.\<close>

lemma buildCommand_again:
  assumes "buildCommand E c e w = (Inr cmd, w1)" "buildCommand E' c e w2 = (Inr cmd', w3)"
    and "uuid_Parse E' = uuid_Parse E"
  shows "cmd' = cmd\<lparr>pc_CorrelationID := pc_CorrelationID cmd'\<rparr>"
  using assms by (auto simp: buildCommand_def Let_def run_simps split: if_splits option.splits sum.splits)

lemma process_run:
  "process E c body w = (Inr u, w') \<longleftrightarrow>
     (\<exists>e cmd w1 out. decode_envelope body = Some e \<and> mv_MessageID e \<noteq> [] \<and> buildCommand E c e w = (Inr cmd, w1)
        \<and> ProcessWager_Execute E cmd w1 = (Inr out, w'))"
proof -
  have "(case r of Inl err \<Rightarrow> failP (process_error err) | Inr out \<Rightarrow> retP ()) x = (Inr (), w') \<longleftrightarrow>
      (\<exists>out. r = Inr out) \<and> w' = x" for r :: "goerr + process_result" and x
    by (cases r) (auto simp: run_simps)
  note answer = this
  show ?thesis by (auto simp: process_def run_simps answer split: option.splits if_splits)
qed

lemma buildCommand_db: "wd_db (snd (buildCommand E c e w)) = wd_db w"
  by (simp add: buildCommand_def Let_def failP_def bindP_def new_uuid_def retP_def split: option.split sum.split)

lemma keeps_process: "keeps (reaches E d0) (process E c body)"
proof -
  have "keeps (reaches E d0) (buildCommand E c e)" for e
    by (rule keepsI) (use buildCommand_db in \<open>metis snd_conv\<close>)
  then show ?thesis
    unfolding process_def by (intro keeps_intros keeps_reaches_Execute)
qed

text \<open>The error of a message that can never be processed.\<close>

lemma permanent_is [simp]: "root_cause (permanent s) = ErrPermanent"
  by (simp add: permanent_def)

section \<open>What is recorded of it\<close>

lemma find_snoc: "find P xs = None \<Longrightarrow> P x \<Longrightarrow> find P (xs @ [x]) = Some x"
  by (induction xs) (auto split: if_splits)

lemma effect_inbox:
  "effect_still R t ev d d' \<Longrightarrow> db_inbox d' = db_inbox d"
  "effect_moved E R t w w2 dir now d d' \<Longrightarrow> db_inbox d' = db_inbox d"
  unfolding effect_still_def effect_moved_def
  by (elim exE conjE, drule arg_cong [where f = db_inbox], simp)+

lemma settles_inbox: "settles E R tx w dec now d d' out \<Longrightarrow> db_inbox d' = db_inbox d"
  by (erule settlesE) (simp_all add: effect_inbox)

lemma wager_spec_recorded:
  assumes spec: "wager_spec E cmd now d d' out" and msg: "pc_MessageID cmd \<noteq> []"
  shows "\<exists>rec. find_message cmd d' = Some rec \<and> ir_payload_hash rec = pc_PayloadHash cmd
    \<and> ir_wager_transaction_id rec = tx_id (ps_Transaction out)"
proof -
  have found: ?thesis if "inbox_recorded cmd i now d1 d'" "find_message cmd d = None" "db_inbox d1 = db_inbox d"
    "i = tx_id (ps_Transaction out)" for i d1
  proof -
    have "find_message cmd d' = Some (inbox_row_for cmd i now)"
      using that(1-3) msg by (auto simp: inbox_recorded_def find_message_def inbox_row_for_def intro!: find_snoc)
    then show ?thesis using that(4) by (simp add: inbox_row_for_def)
  qed
  show ?thesis
    using spec
  proof (cases rule: wager_specE)
    case (message w rec row t)
    have "tr_id row = ir_wager_transaction_id rec" using message(7) by (auto simp: find_Some_iff)
    then show ?thesis using message toDomain_row by (auto simp: replayResult_def)
  next
    case (key w row t)
    then show ?thesis using found by (auto simp: replayResult_def)
  next
    case (identity w row t)
    then show ?thesis using found by (auto simp: replayResult_def)
  next
    case (fresh w i tx dec tx' d1)
    obtain t b where t: "out = outcome t b" "tx_frozen t = tx_frozen tx'" by (rule settles_saved [OF fresh(8)])
    obtain j where tx': "tx' = tx\<lparr>tx_referenceTransactionID := j\<rparr>" using decides_frame [OF fresh(7)] by blast
    have "tx_id tx = i" using NewExternal_fields(1) [OF fresh(6)] by (simp add: external_params_def)
    moreover have "tx_id t = tx_id tx'" using t(2) by (cases t; cases tx'; simp add: tx_frozen_def)
    moreover have "db_inbox d1 = db_inbox d" using settles_inbox [OF fresh(8)] by simp
    ultimately show ?thesis using found [OF fresh(9,3)] t(1) tx' by (simp add: outcome_def)
  qed (use msg in simp)
qed

lemma find_message_later:
  assumes "find_message cmd d = Some rec" "db_extends d d'"
  shows "find_message cmd d' = Some rec"
proof -
  obtain new where "db_inbox d' = db_inbox d @ new" using assms(2) by (auto simp: db_extends_def grows_eq_prefix)
  moreover have "find P (xs @ ys) = Some x" if "find P xs = Some x" for P xs ys and x :: inbox_row
    using that by (induction xs) (auto split: if_splits)
  ultimately show ?thesis using assms(1) by (auto simp: find_message_def split: if_splits)
qed

text \<open>The messages that two commands carry are the same when consumer and identifier are.\<close>

lemma find_message_cong:
  "pc_ConsumerName cmd' = pc_ConsumerName cmd \<Longrightarrow> pc_MessageID cmd' = pc_MessageID cmd
     \<Longrightarrow> find_message cmd' d = find_message cmd d"
  by (simp add: find_message_def)

section \<open>The loop\<close>

lemma handle_frame [simp]:
  "cs_fetch (handle E c m s) = cs_fetch s" "cs_receives (handle E c m s) = cs_receives s"
  "cs_work (handle E c m s) = cs_work s"
  by (simp_all add: handle_def split: prod.split sum.split)

lemma release_frame [simp]:
  "cs_fetch (release ms s) = cs_fetch s" "cs_receives (release ms s) = cs_receives s"
  "cs_world (release ms s) = cs_world s"
  by (simp_all add: release_def)

lemma handle_reaches:
  assumes "reaches E d0 (wd_db (cs_world s))"
  shows "reaches E d0 (wd_db (cs_world (handle E c m s)))"
proof -
  obtain r w where run: "process E c (case sm_Body m of None \<Rightarrow> [] | Some b \<Rightarrow> b) (cs_world s) = (r, w)"
    by (metis prod.exhaust)
  then have "reaches E d0 (wd_db w)" using keepsD [OF keeps_process run assms] by simp
  then show ?thesis using run by (simp add: handle_def split: sum.split)
qed

lemma handle_batch_frame:
  "handle_batch Q E c ms s = (stop, s') \<Longrightarrow> cs_fetch s' = cs_fetch s \<and> cs_receives s' = cs_receives s
     \<and> (reaches E d0 (wd_db (cs_world s)) \<longrightarrow> reaches E d0 (wd_db (cs_world s')))"
proof (induction ms arbitrary: s)
  case (Cons m ms)
  let ?s = "s\<lparr>cs_work := Suc (cs_work s)\<rparr>"
  show ?case
  proof (cases "work_Err Q (cs_work s)")
    case True
    then show ?thesis using Cons.prems by auto
  next
    case False
    then have "handle_batch Q E c ms (handle E c m ?s) = (stop, s')" using Cons.prems by (simp add: Let_def)
    from Cons.IH [OF this] show ?thesis using handle_reaches [of E d0 ?s] by simp
  qed
qed simp

text \<open>Every message of a batch is either handled, in order, or released when the work was cancelled.\<close>

lemma handle_batch_split:
  "handle_batch Q E c ms s = (stop, s') \<Longrightarrow>
     \<exists>k dels. k \<le> length ms \<and> (stop \<longleftrightarrow> k < length ms) \<and> set dels \<subseteq> set (take k ms)
       \<and> cs_calls s' = cs_calls s @ map (\<lambda>m. DeleteMessage (sm_ReceiptHandle m)) dels
           @ map (\<lambda>m. ChangeMessageVisibility (sm_ReceiptHandle m) 0) (drop k ms)"
proof (induction ms arbitrary: s)
  case (Cons m ms)
  let ?s = "s\<lparr>cs_work := Suc (cs_work s)\<rparr>"
  show ?case
  proof (cases "work_Err Q (cs_work s)")
    case True
    then show ?thesis using Cons.prems by (intro exI [of _ 0] exI [of _ "[]"]) (auto simp: release_def)
  next
    case False
    then have "handle_batch Q E c ms (handle E c m ?s) = (stop, s')" using Cons.prems by (simp add: Let_def)
    from Cons.IH [OF this] obtain k dels where k: "k \<le> length ms" "stop \<longleftrightarrow> k < length ms" "set dels \<subseteq> set (take k ms)"
      "cs_calls s' = cs_calls (handle E c m ?s) @ map (\<lambda>m. DeleteMessage (sm_ReceiptHandle m)) dels
         @ map (\<lambda>m. ChangeMessageVisibility (sm_ReceiptHandle m) 0) (drop k ms)" by blast
    obtain pre where pre: "pre = [] \<or> pre = [m]"
      "cs_calls (handle E c m ?s) = cs_calls s @ map (\<lambda>m. DeleteMessage (sm_ReceiptHandle m)) pre"
    proof (cases "process E c (case sm_Body m of None \<Rightarrow> [] | Some b \<Rightarrow> b) (cs_world ?s)")
      case (Pair r w)
      then show ?thesis
        using that [of "[]"] that [of "[m]"] by (cases r) (simp_all add: handle_def)
    qed
    show ?thesis
      using k pre by (intro exI [of _ "Suc k"] exI [of _ "pre @ dels"]) auto
  qed
qed simp

text \<open>The loop ends once its context does.\<close>

lemma Run_stops:
  assumes "\<And>n. k \<le> n \<Longrightarrow> fetch_Err Q n"
  shows "\<exists>s'. Run Q E c s = Some s' \<and> cs_receives s' \<le> cs_receives s + (k - cs_fetch s)
    \<and> (reaches E d0 (wd_db (cs_world s)) \<longrightarrow> reaches E d0 (wd_db (cs_world s')))"
proof (induction "k - cs_fetch s" arbitrary: s rule: less_induct)
  case less
  show ?case
  proof (cases "fetch_Err Q (cs_fetch s)")
    case True
    then show ?thesis by (subst Run.simps) simp
  next
    case False
    then have lt: "cs_fetch s < k" using assms by (meson not_le)
    let ?s1 = "s\<lparr>cs_fetch := Suc (cs_fetch s), cs_receives := Suc (cs_receives s), cs_calls := cs_calls s @ [ReceiveMessage]\<rparr>"
    have goal: "\<exists>s'. Run Q E c s2 = Some s' \<and> cs_receives s' \<le> cs_receives s + (k - cs_fetch s)
        \<and> (reaches E d0 (wd_db (cs_world s)) \<longrightarrow> reaches E d0 (wd_db (cs_world s')))"
      if "cs_fetch s < cs_fetch s2" "cs_receives s2 = Suc (cs_receives s)"
        "reaches E d0 (wd_db (cs_world s)) \<longrightarrow> reaches E d0 (wd_db (cs_world s2))" for s2
      using less [of s2] that lt by fastforce
    show ?thesis
    proof (cases "receives Q (cs_receives s)")
      case (Inl err)
      let ?s2 = "?s1\<lparr>cs_fetch := Suc (cs_fetch ?s1)\<rparr>"
      have "Run Q E c s = (if fetch_Err Q (cs_fetch ?s1) \<or> pause_Done Q (cs_receives s) then Some ?s2 else Run Q E c ?s2)"
        using False Inl by (subst Run.simps) (simp add: Let_def)
      then show ?thesis using goal [of ?s2] lt by auto
    next
      case (Inr ms)
      obtain stop s2 where batch: "handle_batch Q E c ms ?s1 = (stop, s2)" by (metis prod.exhaust)
      have "Run Q E c s = (if stop then Some s2 else Run Q E c s2)"
        using False Inr batch by (subst Run.simps) (simp add: Let_def)
      then show ?thesis using goal [of s2] handle_batch_frame [OF batch, of d0] lt by auto
    qed
  qed
qed

end
