(* ===== verification/Messages.thy ===== *)
theory Messages
  imports Delivery Demo
begin

text \<open>
  The properties of the consumer, with a message that is delivered twice as their example.
\<close>

section \<open>An example\<close>

text \<open>Back quotes stand for the quotes of JSON.\<close>

definition quoted :: "string \<Rightarrow> string" where
  "quoted = map (\<lambda>c. if c = CHR ''`'' then CHR 0x22 else c)"

definition demo_body :: string where
  "demo_body = quoted ''{`messageId`: `m1`, `type`: `wager`, `data`: {`providerId`: `acme`,
     `externalTransactionId`: `b1`, `idempotencyKey`: `b1`, `playerId`: `7`, `walletId`: `1000`,
     `roundId`: `r`, `gameId`: `g`, `kind`: `BET`, `money`: {`amount`: `15.00`, `currency`: `BRL`}}}''"

definition demo_envelope :: message_envelope where
  "demo_envelope = \<lparr>mv_MessageID = ''m1'', mv_Type = ''wager'', mv_OccurredAt = [],
     mv_Data = \<lparr>me_ProviderID = ''acme'', me_ExternalTransactionID = ''b1'', me_IdempotencyKey = ''b1'',
       me_PlayerID = ''7'', me_WalletID = ''1000'', me_RoundID = ''r'', me_GameID = ''g'', me_Kind = ''BET'',
       me_Amount = ''15.00'', me_Currency = ''BRL'', me_ReferenceExternalTransactionID = [],
       me_CorrelationID = []\<rparr>\<rparr>"

lemmas parse_numeral = parse_value.simps(2) [of "pred_numeral k" for k, folded numeral_eq_Suc]
  parse_elements.simps(2) [of "pred_numeral k" for k, folded numeral_eq_Suc]
  parse_members.simps(2) [of "pred_numeral k" for k, folded numeral_eq_Suc]

lemma demo_parsed:
  "parse_json demo_body = Some (VObject [(''messageId'', VString ''m1''), (''type'', VString ''wager''),
     (''data'', VObject [(''providerId'', VString ''acme''), (''externalTransactionId'', VString ''b1''),
       (''idempotencyKey'', VString ''b1''), (''playerId'', VString ''7''), (''walletId'', VString ''1000''),
       (''roundId'', VString ''r''), (''gameId'', VString ''g''), (''kind'', VString ''BET''),
       (''money'', VObject [(''amount'', VString ''15.00''), (''currency'', VString ''BRL'')])])])"
  by (simp add: parse_json_def demo_body_def quoted_def after_def Let_def parse_literal_def
      maxNestingDepth_def parse_numeral)

lemma demo_decoded: "decode_envelope demo_body = Some demo_envelope"
  unfolding decode_envelope_def demo_parsed
  by (simp add: decode_struct_def set_envelope_def set_data_def set_money_def names_def fold_char_def Let_def
      zero_envelope_def zero_data_def demo_envelope_def)

text \<open>The command of the message; its hash is left as it is.\<close>

definition demo_command :: process_command where
  "demo_command = demo_bet\<lparr>pc_PayloadHash := PayloadHash (data_fields (mv_Data demo_envelope) Bet
       \<lparr>minorUnits = 1500, moneyCurrency = ''BRL''\<rparr>),
     pc_CorrelationID := 1100, pc_ConsumerName := ''c'', pc_MessageID := ''m1''\<rparr>"

lemma calm_parse: "uuid_Parse calm_env ''7'' = Some 7" "uuid_Parse calm_env ''1000'' = Some 1000"
  by (simp_all add: calm_env_def is_digit_def digits_val_def char_digit_def)

lemma demo_amount: "NewCurrency ''BRL'' = Inr ''BRL''" "ParseNonNegative ''15.00'' ''BRL'' = Inr \<lparr>minorUnits = 1500, moneyCurrency = ''BRL''\<rparr>"
proof -
  have sh: "decimal_shape [] ''15'' ''00''" by (simp add: decimal_shape_def is_digit_def)
  have "money_Parse ''15.00'' ''BRL'' = Inr \<lparr>minorUnits = 1500, moneyCurrency = ''BRL''\<rparr>"
    using money_Parse_shape [OF sh, of "''BRL''"] by (simp add: minor_value_def decimal_money_def digits_val_def char_digit_def)
  then show "ParseNonNegative ''15.00'' ''BRL'' = Inr \<lparr>minorUnits = 1500, moneyCurrency = ''BRL''\<rparr>"
    by (simp add: ParseNonNegative_def Money_IsNegative_def int64_simps)
qed (simp add: NewCurrency_def currencyPattern_def is_upper_def)

lemma demo_built:
  "buildCommand calm_env ''c'' demo_envelope (demo_world d n)
     = (Inr (demo_command\<lparr>pc_CorrelationID := of_nat (1000 + n)\<rparr>), demo_world d (Suc n))"
  using calm_parse demo_amount
  by (simp add: buildCommand_def demo_envelope_def demo_command_def demo_bet_def Let_def kind_of_string_def
      Kind_IsValidExternal_def bindP_def new_uuid_def retP_def demo_world_def start_world_def)

lemma demo_hash: "PayloadHash f \<noteq> []"
proof -
  have "length (hex_string bs) = 2 * length bs" for bs by (induction bs) (simp_all add: hex_string_def)
  then have "length (PayloadHash f) = 64" by (simp add: PayloadHash_def sha256_length)
  then show ?thesis by auto
qed

lemma demo_executed:
  "\<exists>out. fst (ProcessWager_Execute calm_env (demo_command\<lparr>pc_CorrelationID := 1100\<rparr>) (demo_world demo_db1 101)) = Inr out"
  by (simp add: demo_command_def demo_bet_def demo_world_def demo_db1_tables fresh_event1 demo_rows eval_simps demo_hash)

lemma demo_processed: "fst (process calm_env ''c'' demo_body (demo_world demo_db1 100)) = Inr ()"
proof -
  obtain out w where "ProcessWager_Execute calm_env (demo_command\<lparr>pc_CorrelationID := 1100\<rparr>) (demo_world demo_db1 101) = (Inr out, w)"
    using demo_executed by (metis prod.collapse)
  then have "process calm_env ''c'' demo_body (demo_world demo_db1 100) = (Inr (), w)"
    using demo_decoded demo_built [of demo_db1 100] by (auto simp: process_run demo_envelope_def)
  then show ?thesis by simp
qed


lemma demo_redelivered:
  obtains w1 where "process calm_env ''c'' demo_body (demo_world demo_db1 100) = (Inr (), w1)"
  using demo_processed by (metis prod.collapse)

section \<open>Properties\<close>

text \<open>C31: a message leaves the queue only when its operation is recorded: when the consumer deletes a
  message, the inbox holds its identifier and names a stored transaction; a message that was not
  processed is not deleted.\<close>

theorem deleted_message_is_recorded:
  assumes "reaches E empty_db (wd_db (cs_world s))" and "sm_Body m = Some body"
    and "cs_calls (handle E c m s) \<noteq> cs_calls s"
  shows "cs_calls (handle E c m s) = cs_calls s @ [DeleteMessage (sm_ReceiptHandle m)]
    \<and> (\<exists>e. decode_envelope body = Some e \<and> (\<exists>rec \<in> set (db_inbox (wd_db (cs_world (handle E c m s)))).
         ir_consumer_name rec = c \<and> ir_message_id rec = mv_MessageID e
         \<and> (\<exists>t \<in> set (db_tx (wd_db (cs_world (handle E c m s)))). tr_id t = ir_wager_transaction_id rec)))"
proof -
  obtain r w where run: "process E c body (cs_world s) = (r, w)" by (metis prod.exhaust)
  then obtain u where r: "r = Inr u" using assms(2,3) by (cases r) (auto simp: handle_def)
  then have h: "cs_world (handle E c m s) = w" "cs_calls (handle E c m s) = cs_calls s @ [DeleteMessage (sm_ReceiptHandle m)]"
    using run assms(2) by (simp_all add: handle_def)
  obtain e cmd w1 out where e: "decode_envelope body = Some e" "mv_MessageID e \<noteq> []"
    and cmd: "buildCommand E c e (cs_world s) = (Inr cmd, w1)" "ProcessWager_Execute E cmd w1 = (Inr out, w)"
    using run r by (auto simp: process_run)
  note b = buildCommand_run [OF cmd(1)]
  obtain now where "wager_spec E cmd now (wd_db w1) (wd_db w) out" by (rule Execute_success [OF cmd(2)])
  then obtain rec where "find_message cmd (wd_db w) = Some rec" using wager_spec_recorded b e(2) by fastforce
  then have rec: "rec \<in> set (db_inbox (wd_db w))" "ir_consumer_name rec = c" "ir_message_id rec = mv_MessageID e"
    using b by (auto simp: find_message_def find_Some_iff split: if_splits)
  have "reaches E empty_db (wd_db w)" using keepsD [OF keeps_process run assms(1)] .
  then have "schema_ok (wd_db w)" using reachable_schema by simp
  then have "ir_wager_transaction_id rec \<in> tr_id ` set (db_tx (wd_db w))"
    using rec(1) by (simp add: schema_ok_def inbox_table_ok_def)
  then show ?thesis using h e(1) rec by force
qed

theorem deleted_message_is_recorded_witness:
  "\<exists>rec \<in> set (db_inbox (wd_db (snd (process calm_env ''c'' demo_body (demo_world demo_db1 100))))). ir_message_id rec = ''m1''"
proof -
  let ?m = "\<lparr>sm_Body = Some demo_body, sm_ReceiptHandle = None\<rparr>"
    and ?s = "\<lparr>cs_world = demo_world demo_db1 100, cs_calls = [], cs_fetch = 0, cs_work = 0, cs_receives = 0\<rparr>"
  obtain w1 where run: "process calm_env ''c'' demo_body (demo_world demo_db1 100) = (Inr (), w1)"
    by (rule demo_redelivered)
  then have h: "cs_calls (handle calm_env ''c'' ?m ?s) \<noteq> cs_calls ?s" "cs_world (handle calm_env ''c'' ?m ?s) = w1"
    by (simp_all add: handle_def)
  from deleted_message_is_recorded [OF _ _ h(1), of demo_body] show ?thesis
    using demo_step1 h(2) run demo_decoded by (auto simp: demo_envelope_def)
qed

text \<open>C32: the consumer stops: once its fetch context is done for good, \<open>Run\<close> returns, whatever the
  queue answers, after a bounded number of receives, and all it did to the tables is steps of the
  service.\<close>

theorem consumer_stops:
  assumes "\<And>n. k \<le> n \<Longrightarrow> fetch_Err Q n"
  shows "\<exists>s'. Run Q E c s = Some s' \<and> cs_receives s' \<le> cs_receives s + (k - cs_fetch s)
    \<and> reaches E (wd_db (cs_world s)) (wd_db (cs_world s'))"
  using Run_stops [OF assms, where E = E and c = c and s = s and ?d0.0 = "wd_db (cs_world s)"] by blast

theorem consumer_stops_witness:
  "\<exists>s'. Run \<lparr>fetch_Err = (\<lambda>n. 3 \<le> n), work_Err = (\<lambda>_. False), receives = (\<lambda>_. Inl EventErr), pause_Done = (\<lambda>_. False)\<rparr>
     calm_env ''c'' \<lparr>cs_world = start_world empty_db, cs_calls = [], cs_fetch = 0, cs_work = 0, cs_receives = 0\<rparr> = Some s'
     \<and> cs_receives s' \<le> 3"
  using consumer_stops [of 3 "\<lparr>fetch_Err = (\<lambda>n. 3 \<le> n), work_Err = (\<lambda>_. False), receives = (\<lambda>_. Inl EventErr), pause_Done = (\<lambda>_. False)\<rparr>"
      calm_env "''c''" "\<lparr>cs_world = start_world empty_db, cs_calls = [], cs_fetch = 0, cs_work = 0, cs_receives = 0\<rparr>"]
  by auto

text \<open>C33: when its work is cancelled in the middle of a batch the consumer hands back exactly the
  messages it has not begun: each of them is made visible again at once, none of those it began is,
  and only messages it began are deleted.\<close>

theorem cancelled_batch_is_released:
  assumes "handle_batch Q E c ms s = (stop, s')"
  shows "\<exists>k dels. k \<le> length ms \<and> (stop \<longleftrightarrow> k < length ms) \<and> set dels \<subseteq> set (take k ms)
    \<and> cs_calls s' = cs_calls s @ map (\<lambda>m. DeleteMessage (sm_ReceiptHandle m)) dels
        @ map (\<lambda>m. ChangeMessageVisibility (sm_ReceiptHandle m) 0) (drop k ms)"
  using assms by (rule handle_batch_split)

theorem cancelled_batch_is_released_witness:
  "\<exists>dels. set dels \<subseteq> {} \<and> cs_calls (snd (handle_batch
       \<lparr>fetch_Err = (\<lambda>n. False), work_Err = (\<lambda>_. True), receives = (\<lambda>_. Inl EventErr), pause_Done = (\<lambda>_. False)\<rparr>
       calm_env ''c'' [\<lparr>sm_Body = None, sm_ReceiptHandle = Some ''h''\<rparr>]
       \<lparr>cs_world = start_world empty_db, cs_calls = [], cs_fetch = 0, cs_work = 0, cs_receives = 0\<rparr>))
     = map (\<lambda>m. DeleteMessage (sm_ReceiptHandle m)) dels @ [ChangeMessageVisibility (Some ''h'') 0]"
proof -
  let ?Q = "\<lparr>fetch_Err = (\<lambda>n. False), work_Err = (\<lambda>_. True), receives = (\<lambda>_. Inl EventErr), pause_Done = (\<lambda>_. False)\<rparr>"
    and ?s = "\<lparr>cs_world = start_world empty_db, cs_calls = [], cs_fetch = 0, cs_work = 0, cs_receives = 0\<rparr>"
    and ?ms = "[\<lparr>sm_Body = None, sm_ReceiptHandle = Some ''h''\<rparr>]"
  obtain s' where b: "handle_batch ?Q calm_env ''c'' ?ms ?s = (True, s')" by (simp add: Let_def)
  from cancelled_batch_is_released [OF b] obtain k dels where k: "k < 1" "set dels \<subseteq> set (take k ?ms)"
    "cs_calls s' = map (\<lambda>m. DeleteMessage (sm_ReceiptHandle m)) dels
       @ map (\<lambda>m. ChangeMessageVisibility (sm_ReceiptHandle m) 0) (drop k ?ms)" by auto
  then show ?thesis using b by auto
qed

end
