(* ===== verification/Requests.thy ===== *)
theory Requests
  imports Effects Handlers Messages Reads
begin

text \<open>
  What the HTTP interface promises its callers: every request is answered with a well-formed answer,
  an answer in the 400s but for 422 means that nothing happened, the answer to a submission tells the
  outcome that was stored, nobody acts without a role that allows it, and a request and a message
  with the same content are the same command.
\<close>

section \<open>Handlers\<close>

lemma answerP_eq:
  "answerP f ok w = (Inr (case fst (f w) of Inl err \<Rightarrow> respondError err | Inr x \<Rightarrow> ok x), snd (f w))"
  by (simp add: answerP_def bindP_def tryP_def retP_def split: prod.split sum.split)

lemma correlationID_eq:
  "\<exists>cid. correlationID E rq w = (Inr cid, w\<lparr>wd_uuids := Suc (wd_uuids w)\<rparr>)"
  by (simp add: correlationID_def bindP_def new_uuid_def retP_def Let_def)

lemma correlated_simps [simp]:
  "rs_Status (correlated E i rs) = rs_Status rs" "rs_Body (correlated E i rs) = rs_Body rs"
  by (simp_all add: correlated_def)

lemma json_response_simps [simp]:
  "rs_Status (json_response n b) = n" "rs_Body (json_response n b) = b"
  "rs_Status (abortWith n c) = n" "rs_Body (abortWith n c) = ErrorBody c"
  by (simp_all add: json_response_def abortWith_def)

text \<open>The status that belongs to a code.\<close>

fun error_status :: "error_code \<Rightarrow> nat" where
  "error_status CodeInvalidRequest = 400"
| "error_status CodeUnauthenticated = 401"
| "error_status CodeForbidden = 403"
| "error_status CodeNotFound = 404"
| "error_status CodeWalletExists = 409"
| "error_status CodeIdempotencyConflict = 409"
| "error_status CodeOperationConflict = 409"
| "error_status CodeUnavailable = 503"

lemma respondError_code: "\<exists>c. respondError err = abortWith (error_status c) c"
  unfolding respondError_def by (auto intro: exI [of _ CodeInvalidRequest] exI [of _ CodeForbidden]
    exI [of _ CodeNotFound] exI [of _ CodeWalletExists] exI [of _ CodeIdempotencyConflict]
    exI [of _ CodeOperationConflict] exI [of _ CodeUnavailable])

text \<open>A failure of the driver is never the caller's fault.\<close>

lemma respondError_driver: "root_cause err = DriverErr s \<Longrightarrow> respondError err = abortWith 503 CodeUnavailable"
  by (simp add: respondError_def)

lemma respondError_unacknowledged: "unacknowledged E err \<Longrightarrow> rs_Status (respondError err) = 503"
  by (auto simp: unacknowledged_def respondError_driver)

section \<open>Well-formed answers\<close>

definition submit_wf :: "nat \<Rightarrow> submit_response \<Rightarrow> bool" where
  "submit_wf n b \<longleftrightarrow>
     (if n = 422 then sp_Status b = ''REJECTED'' \<and> sp_Balance b = None
      else if n = 202 then sp_Status b \<in> {''PENDING'', ''PENDING_REFERENCE''} \<and> sp_Balance b = None
      else n = 200 \<and> (sp_Balance b \<noteq> None \<longrightarrow> sp_Status b = ''PROCESSED''))"

definition response_wf :: "response \<Rightarrow> bool" where
  "response_wf rs \<longleftrightarrow>
     (case rs_Body rs of
        ErrorBody c \<Rightarrow> rs_Status rs = error_status c
      | WalletBody b \<Rightarrow> rs_Status rs \<in> {200, 201}
      | SubmitBody b \<Rightarrow> submit_wf (rs_Status rs) b
      | _ \<Rightarrow> rs_Status rs = 200)"

lemma response_wf_abort [simp]: "response_wf (abortWith n c) \<longleftrightarrow> n = error_status c"
  by (simp add: response_wf_def)

lemma response_wf_error [simp]: "response_wf (respondError err)"
  using respondError_code [of err] by auto

lemma response_wf_correlated [simp]: "response_wf (correlated E i rs) = response_wf rs"
  by (simp add: response_wf_def split: http_body.split)

lemma response_wf_submit [simp]: "response_wf (respondSubmitResult E r)"
  by (simp add: response_wf_def respondSubmitResult_def submit_wf_def submitOut_def Let_def split: status.split)

lemma response_wf_json [simp]:
  "response_wf (json_response n (WalletBody b)) \<longleftrightarrow> n \<in> {200, 201}"
  "response_wf (json_response n (LedgerBody es c)) \<longleftrightarrow> n = 200"
  "response_wf (json_response n (ReconciliationBody b')) \<longleftrightarrow> n = 200"
  "response_wf (json_response n (TransactionBody b'')) \<longleftrightarrow> n = 200"
  by (simp_all add: response_wf_def)

text \<open>A program that answers well.\<close>

definition answers_well :: "response prog \<Rightarrow> bool" where
  "answers_well f \<longleftrightarrow> (\<forall>w. \<exists>rs w'. f w = (Inr rs, w') \<and> response_wf rs)"

lemma answers_well_retP: "response_wf rs \<Longrightarrow> answers_well (retP rs)"
  by (simp add: answers_well_def retP_def)

lemma answers_well_answerP: "(\<And>x. response_wf (ok x)) \<Longrightarrow> answers_well (answerP f ok)"
  by (simp add: answers_well_def answerP_eq split: sum.split)

lemma answers_well_correlated:
  "(\<And>cid. answers_well (f cid)) \<Longrightarrow>
     answers_well (bindP (correlationID E rq) (\<lambda>cid. bindP (f cid) (\<lambda>rs. retP (correlated E cid rs))))"
  unfolding answers_well_def
proof
  fix w assume f: "\<And>cid. \<forall>w. \<exists>rs w'. f cid w = (Inr rs, w') \<and> response_wf rs"
  obtain cid w1 where "correlationID E rq w = (Inr cid, w1)" using correlationID_eq by blast
  moreover obtain rs w2 where "f cid w1 = (Inr rs, w2)" "response_wf rs" using f by blast
  ultimately show "\<exists>rs w'. bindP (correlationID E rq) (\<lambda>cid. bindP (f cid) (\<lambda>rs. retP (correlated E cid rs))) w
      = (Inr rs, w') \<and> response_wf rs"
    by (simp add: bindP_def retP_def)
qed

lemma answers_well_cases:
  "answers_well f \<Longrightarrow> answers_well g \<Longrightarrow> answers_well (if b then f else g)"
  "answers_well f \<Longrightarrow> (\<And>x. answers_well (h x)) \<Longrightarrow> answers_well (case p of None \<Rightarrow> f | Some x \<Rightarrow> h x)"
  "(\<And>e. answers_well (k e)) \<Longrightarrow> (\<And>x. answers_well (h x)) \<Longrightarrow> answers_well (case r of Inl e \<Rightarrow> k e | Inr x \<Rightarrow> h x)"
  by (simp_all split: option.split sum.split)

lemmas answers_well_intros = answers_well_retP answers_well_answerP answers_well_correlated answers_well_cases

lemma submit_body: "rs_Body (respondSubmitResult E r) =
    SubmitBody (submitOut E (ps_Transaction r) (ps_Balance r) (ps_IdempotentReplay r))"
  by (simp add: respondSubmitResult_def Let_def split: status.split)

lemma answers_well_handler: "answers_well (handler H E r who rq)"
  by (cases r; simp add: H_OpenWallet_def H_GetWallet_def H_GetLedger_def H_Reconcile_def H_SubmitTransaction_def
      H_GetTransaction_def H_GetProviderTransaction_def; intro answers_well_intros; simp split: prod.split)

lemma Authenticate_error: "Authenticate v rq = Inl rs \<Longrightarrow> rs = abortWith 401 CodeUnauthenticated"
  by (auto simp: Authenticate_def split: option.splits sum.splits)

lemma answers_well_serve: "answers_well (serve H E ready r rq)"
  by (cases "Authenticate (if ready then Some H else None) rq")
    (auto simp: serve_def answers_well_handler dest!: Authenticate_error intro: answers_well_retP)

section \<open>What a request does to the tables\<close>

lemma queries_read_only:
  "read_only (Queries_GetWallet E i walletID)" "read_only (Queries_GetTransaction E i transactionID)"
  "read_only (Queries_GetProviderTransaction E i p k)" "read_only (Queries_GetLedger E i walletID cursor limit)"
  "read_only (Queries_Reconcile E later i walletID)"
  unfolding Queries_GetWallet_def Queries_GetTransaction_def Queries_GetProviderTransaction_def Queries_GetLedger_def
    ledgerRepo_Page_def transactionRepo_GetByID_def transactionRepo_GetByProviderExternalID_def walletRepo_Get_def
    walletRepo_get_def transactionRepo_scanOne_def Queries_Reconcile_def reconcile_body_def ledgerRepo_Totals_def Let_def
  by (intro read_onlyI keeps_intros)+

text \<open>A program that changes nothing when it answers with one of the client errors.\<close>

definition client_errors :: "nat set" where
  "client_errors = {400, 401, 403, 404, 409}"

definition safe :: "response prog \<Rightarrow> bool" where
  "safe f \<longleftrightarrow> (\<forall>w rs w'. f w = (Inr rs, w') \<longrightarrow> rs_Status rs \<in> client_errors \<longrightarrow> wd_db w' = wd_db w)"

lemma safe_retP: "safe (retP rs)"
  by (simp add: safe_def retP_def)

lemma safe_cases:
  "safe f \<Longrightarrow> safe g \<Longrightarrow> safe (if b then f else g)"
  "safe f \<Longrightarrow> (\<And>x. safe (h x)) \<Longrightarrow> safe (case p of None \<Rightarrow> f | Some x \<Rightarrow> h x)"
  "(\<And>e. safe (k e)) \<Longrightarrow> (\<And>x. safe (h x)) \<Longrightarrow> safe (case r of Inl e \<Rightarrow> k e | Inr x \<Rightarrow> h x)"
  by (simp_all split: option.split sum.split)

lemma safe_correlated:
  assumes "\<And>cid. safe (f cid)"
  shows "safe (bindP (correlationID E rq) (\<lambda>cid. bindP (f cid) (\<lambda>rs. retP (correlated E cid rs))))"
  unfolding safe_def
proof (intro allI impI)
  fix w rs w' assume run: "bindP (correlationID E rq) (\<lambda>cid. bindP (f cid) (\<lambda>rs. retP (correlated E cid rs))) w = (Inr rs, w')"
    and status: "rs_Status rs \<in> client_errors"
  obtain cid where cid: "correlationID E rq w = (Inr cid, w\<lparr>wd_uuids := Suc (wd_uuids w)\<rparr>)" using correlationID_eq by blast
  then obtain rs0 where "f cid (w\<lparr>wd_uuids := Suc (wd_uuids w)\<rparr>) = (Inr rs0, w')" "rs = correlated E cid rs0"
    using run by (auto simp: run_simps)
  then show "wd_db w' = wd_db w" using assms status by (fastforce simp: safe_def)
qed

lemma safe_read: "read_only f \<Longrightarrow> safe (answerP f ok)"
  by (auto simp: safe_def answerP_eq dest: read_onlyD [OF _ surjective_pairing])

text \<open>A use case that is atomic and whose success is no client error.\<close>

lemma safe_atomic:
  assumes "\<And>w err w'. f w = (Inl err, w') \<Longrightarrow> wd_db w' = wd_db w \<or> unacknowledged E err"
    and "\<And>x. rs_Status (ok x) \<notin> client_errors"
  shows "safe (answerP f ok)"
  unfolding safe_def
proof (intro allI impI)
  fix w rs w' assume run: "answerP f ok w = (Inr rs, w')" and status: "rs_Status rs \<in> client_errors"
  obtain r where f: "f w = (r, w')" using run by (auto simp: answerP_eq) (metis prod.collapse)
  then obtain err where "r = Inl err" "rs = respondError err"
    using run status assms(2) by (cases r) (auto simp: answerP_eq)
  then show "wd_db w' = wd_db w"
    using assms(1) f status respondError_unacknowledged by (fastforce simp: client_errors_def)
qed

lemma OpenWallet_atomic: "OpenWallet_Execute E cmd w = (Inl err, w') \<Longrightarrow> wd_db w' = wd_db w \<or> unacknowledged E err"
  by (auto simp: OpenWallet_Execute_def bindP_def read_clock_def dest: within_atomic)

lemma Execute_atomic: "ProcessWager_Execute E cmd w = (Inl err, w') \<Longrightarrow> wd_db w' = wd_db w \<or> unacknowledged E err"
  using ProcessWager_effect [of E cmd w "Inl err" w'] by (auto simp: wager_effect_def)

lemma submit_status: "rs_Status (respondSubmitResult E r) \<notin> client_errors"
  by (simp add: respondSubmitResult_def Let_def client_errors_def split: status.split)

lemma safe_use_cases:
  "safe (answerP (OpenWallet_Execute E cmd) (\<lambda>w. json_response 201 (WalletBody (walletOut E w))))"
  "safe (answerP (ProcessWager_Execute E cmd') (respondSubmitResult E))"
  by (rule safe_atomic [OF OpenWallet_atomic] safe_atomic [OF Execute_atomic submit_status];
    simp add: client_errors_def)+

lemma safe_handler: "safe (handler H E r who rq)"
  by (cases r; simp add: H_OpenWallet_def H_GetWallet_def H_GetLedger_def H_Reconcile_def H_SubmitTransaction_def
      H_GetTransaction_def H_GetProviderTransaction_def;
    intro safe_cases safe_retP safe_correlated safe_use_cases safe_read queries_read_only)

lemma safe_serve: "safe (serve H E ready r rq)"
  by (simp add: serve_def safe_handler safe_retP split: sum.split)

section \<open>Every request is a sequence of steps\<close>

lemma keeps_answerP: "keeps I f \<Longrightarrow> keeps I (answerP f ok)"
  unfolding answerP_def by (intro keeps_intros)

lemma keeps_correlationID: "keeps I (correlationID E rq)"
  unfolding correlationID_def Let_def by (intro keeps_intros)

lemma keeps_reaches_handler: "keeps (reaches E d0) (handler H E r who rq)"
  by (cases r; simp add: H_OpenWallet_def H_GetWallet_def H_GetLedger_def H_Reconcile_def H_SubmitTransaction_def
        H_GetTransaction_def H_GetProviderTransaction_def;
      intro keeps_intros keeps_answerP keeps_correlationID keeps_reaches_OpenWallet keeps_reaches_Execute
        keeps_reads queries_read_only)

lemma keeps_reaches_serve: "keeps (reaches E d0) (serve H E ready r rq)"
  by (cases "Authenticate (if ready then Some H else None) rq") (simp_all add: serve_def keeps_reaches_handler keeps_intros)


section \<open>Examples\<close>

text \<open>Tokens are the texts \<open>internal\<close> and \<open>acme\<close>, and a body is decoded to one request.\<close>

definition demo_submit :: submit_request where
  "demo_submit = \<lparr>sq_ProviderID = ''acme'', sq_ExternalTransactionID = ''b1'', sq_PlayerID = ''7'',
     sq_WalletID = ''1000'', sq_RoundID = ''r'', sq_GameID = ''g'', sq_Kind = ''BET'',
     sq_Money = \<lparr>md_Amount = ''15.00'', md_Currency = ''BRL''\<rparr>, sq_ReferenceExternalTransactionID = []\<rparr>"

definition demo_http :: http_env where
  "demo_http = \<lparr>bind_open = (\<lambda>_. None),
     bind_submit = (\<lambda>body. if body = ''bet'' then Some demo_submit
       else if body = ''bad'' then Some (demo_submit\<lparr>sq_PlayerID := ''x''\<rparr>) else None),
     oidc_issuer = (\<lambda>token. if token = ''internal'' \<or> token = ''acme'' then Some ''issuer'' else None),
     oidc_claims = (\<lambda>token. Some (if token = ''internal'' then \<lparr>tc_Roles = [''internal-service''], tc_ProviderID = []\<rparr>
       else \<lparr>tc_Roles = [''provider''], tc_ProviderID = ''acme''\<rparr>)),
     acceptedIssuers = [''issuer''], between_reads = (\<lambda>d. d)\<rparr>"

definition demo_request :: "string \<Rightarrow> string \<Rightarrow> request" where
  "demo_request auth body = \<lparr>rq_Header = (\<lambda>h. if h = ''Authorization'' then auth
       else if h = ''Idempotency-Key'' then ''b1'' else []), rq_Param = (\<lambda>_. []), rq_Query = (\<lambda>_. []), rq_Body = body\<rparr>"

lemma demo_authenticated:
  "Authenticate (Some demo_http) (demo_request ''Bearer acme'' body) = Inr \<lparr>id_ProviderID = ''acme'', id_Internal = False\<rparr>"
  by (simp add: Authenticate_def demo_request_def bearerToken_def lower_ascii_def is_upper_def trim_space_def
      is_space_def Let_def lazyVerifier_Verify_def OIDCVerifier_Verify_def demo_http_def)

lemma demo_command_built:
  "buildProcessCommand calm_env demo_submit ''b1'' cid = Inr (demo_command\<lparr>pc_CorrelationID := cid, pc_ConsumerName := [], pc_MessageID := []\<rparr>)"
  using calm_parse demo_amount
  by (simp add: buildProcessCommand_def demo_submit_def parseKind_def kind_of_string_def Kind_IsValid_def toMoney_def
      submit_fields_def data_fields_def demo_command_def demo_bet_def demo_envelope_def Kind_IsValidExternal_def)

lemma demo_submit_executed:
  "\<exists>out. fst (ProcessWager_Execute calm_env (demo_command\<lparr>pc_CorrelationID := 1100, pc_ConsumerName := [], pc_MessageID := []\<rparr>)
     (demo_world demo_db1 101)) = Inr out"
  by (simp add: demo_command_def demo_bet_def demo_world_def demo_db1_tables fresh_event1 demo_rows eval_simps demo_hash)

lemma demo_submitted:
  "\<exists>out w'. serve demo_http calm_env True PostTransactions (demo_request ''Bearer acme'' ''bet'') (demo_world demo_db1 100)
     = (Inr (correlated calm_env 1100 (respondSubmitResult calm_env out)), w')"
proof -
  obtain out w1 where "ProcessWager_Execute calm_env (demo_command\<lparr>pc_CorrelationID := 1100, pc_ConsumerName := [], pc_MessageID := []\<rparr>)
     (demo_world demo_db1 101) = (Inr out, w1)"
    using demo_submit_executed by (metis prod.collapse)
  then show ?thesis
    using demo_authenticated [of "''bet''"] demo_command_built [of 1100]
    by (auto simp: serve_def H_SubmitTransaction_def demo_request_def demo_http_def bindP_def retP_def correlationID_def
        new_uuid_def answerP_eq MayActAsProvider_def demo_submit_def demo_world_def start_world_def)
qed

section \<open>Properties\<close>

text \<open>C25: every request to every route is answered, whatever fails, and the answer is well-formed: an
  error code comes with its status, a wallet with 200 or 201, a submission with 200, 202 for a
  pending and 422 for a rejected transaction, a balance only with a processed one, and anything else
  with 200.\<close>

theorem every_request_is_answered:
  "\<exists>rs w'. serve H E ready r rq w = (Inr rs, w') \<and> response_wf rs"
  using answers_well_serve [of H E ready r rq] by (simp add: answers_well_def)

text \<open>C26: an answer 400, 401, 403, 404 or 409 means that nothing happened: the request left every
  table as it was.\<close>

theorem client_error_changes_nothing:
  assumes "serve H E ready r rq w = (Inr rs, w')" and "rs_Status rs \<in> {400, 401, 403, 404, 409}"
  shows "wd_db w' = wd_db w"
  using safe_serve [of H E ready r rq] assms unfolding safe_def client_errors_def by blast

theorem client_error_changes_nothing_witness:
  "wd_db (snd (serve demo_http calm_env True PostTransactions (demo_request ''Bearer acme'' ''what'') (demo_world demo_db1 100))) = demo_db1"
proof -
  have run: "serve demo_http calm_env True PostTransactions (demo_request ''Bearer acme'' ''what'') (demo_world demo_db1 100)
      = (Inr (abortWith 400 CodeInvalidRequest), demo_world demo_db1 100)"
    using demo_authenticated [of "''what''"]
    by (simp add: serve_def H_SubmitTransaction_def demo_request_def demo_http_def retP_def)
  from client_error_changes_nothing [OF run] show ?thesis by (simp add: run)
qed

text \<open>C27: the answer to a submission is the stored outcome: it is given to a caller that may act as the
  provider of the request, the command of the request made one step of the specification of
  \<open>Execute\<close>, and the answer shows the transaction and the balance of this step.\<close>

theorem submission_answer_is_outcome:
  assumes "serve H E ready PostTransactions rq w = (Inr rs, w')" and "rs_Body rs = SubmitBody b"
  shows "\<exists>who req cid cmd now out. Authenticate (if ready then Some H else None) rq = Inr who
    \<and> bind_submit H (rq_Body rq) = Some req \<and> MayActAsProvider who (sq_ProviderID req)
    \<and> buildProcessCommand E req (rq_Header rq ''Idempotency-Key'') cid = Inr cmd
    \<and> wager_spec E cmd now (wd_db w) (wd_db w') out
    \<and> b = submitOut E (ps_Transaction out) (ps_Balance out) (ps_IdempotentReplay out)"
proof -
  have err: "rs_Body (respondError e) \<noteq> SubmitBody b" for e
    using respondError_code [of e] by auto
  obtain who where who: "Authenticate (if ready then Some H else None) rq = Inr who"
    using assms by (cases "Authenticate (if ready then Some H else None) rq")
      (auto simp: serve_def retP_def dest!: Authenticate_error)
  then have h: "H_SubmitTransaction H E (Some who) rq w = (Inr rs, w')" using assms(1) by (simp add: serve_def)
  obtain req where req: "bind_submit H (rq_Body rq) = Some req" "MayActAsProvider who (sq_ProviderID req)"
    using h assms(2) by (auto simp: H_SubmitTransaction_def retP_def split: if_splits option.splits)
  obtain cid where cid: "correlationID E rq w = (Inr cid, w\<lparr>wd_uuids := Suc (wd_uuids w)\<rparr>)" using correlationID_eq by blast
  let ?w = "w\<lparr>wd_uuids := Suc (wd_uuids w)\<rparr>"
  obtain cmd where cmd: "buildProcessCommand E req (rq_Header rq ''Idempotency-Key'') cid = Inr cmd"
    using h assms(2) req cid err
    by (cases "buildProcessCommand E req (rq_Header rq ''Idempotency-Key'') cid")
      (auto simp: H_SubmitTransaction_def retP_def bindP_def split: if_splits)
  obtain r w1 where run: "ProcessWager_Execute E cmd ?w = (r, w1)" by (metis prod.exhaust)
  then obtain out where out: "r = Inr out" "w' = w1" "b = submitOut E (ps_Transaction out) (ps_Balance out) (ps_IdempotentReplay out)"
    using h assms(2) req cid cmd err
    by (cases r) (auto simp: H_SubmitTransaction_def retP_def bindP_def answerP_eq submit_body split: if_splits)
  obtain now where "wager_spec E cmd now (wd_db ?w) (wd_db w1) out" using run out(1) by (auto elim: Execute_success)
  then show ?thesis using who req cmd out by auto
qed

theorem submission_answer_is_outcome_witness:
  "\<exists>cmd now out d. wager_spec calm_env cmd now demo_db1 d out \<and> pc_IdempotencyKey cmd = ''b1''"
proof -
  let ?rq = "demo_request ''Bearer acme'' ''bet''"
  obtain out w' where run: "serve demo_http calm_env True PostTransactions ?rq (demo_world demo_db1 100)
      = (Inr (correlated calm_env 1100 (respondSubmitResult calm_env out)), w')"
    using demo_submitted by blast
  obtain b where "rs_Body (correlated calm_env 1100 (respondSubmitResult calm_env out)) = SubmitBody b"
    by (simp add: submit_body)
  from submission_answer_is_outcome [OF run this] obtain req cid cmd now out' where
    "buildProcessCommand calm_env req (rq_Header ?rq ''Idempotency-Key'') cid = Inr cmd"
    "wager_spec calm_env cmd now demo_db1 (wd_db w') out'" by auto
  moreover have "pc_IdempotencyKey cmd = ''b1''" using calculation(1)
    by (auto simp: buildProcessCommand_def demo_request_def bindR_def split: option.splits sum.splits)
  ultimately show ?thesis by blast
qed

text \<open>A provider that reads a transaction is shown none but its own.\<close>

definition shows_own :: "identity \<Rightarrow> response \<Rightarrow> bool" where
  "shows_own who rs = (case rs_Body rs of TransactionBody b \<Rightarrow> tp_ProviderID b = id_ProviderID who | ErrorBody c \<Rightarrow> True | _ \<Rightarrow> False)"

lemma shows_own_error [simp]: "shows_own who (respondError err)" "shows_own who (abortWith n c)"
  using respondError_code [of err] by (auto simp: shows_own_def)

lemma shows_own_transaction [simp]:
  "shows_own who (json_response n (TransactionBody b)) \<longleftrightarrow> tp_ProviderID b = id_ProviderID who"
  by (simp add: shows_own_def)

lemma shows_own_answer:
  assumes "read_only f" "\<And>t w'. f w = (Inr t, w') \<Longrightarrow> tx_providerID t = id_ProviderID who"
  shows "\<exists>rs w'. answerP f (\<lambda>tx. json_response 200 (TransactionBody (transactionOut E tx))) w = (Inr rs, w')
    \<and> wd_db w' = wd_db w \<and> shows_own who rs"
proof (cases "f w")
  case (Pair r w')
  then have "wd_db w' = wd_db w" using read_onlyD [OF assms(1)] by blast
  then show ?thesis using Pair assms(2)
    by (cases r) (auto simp: answerP_eq transactionOut_def)
qed

text \<open>C28: nobody acts without a role: a request without a token that verifies is answered 401 and does
  nothing at all. A provider is refused the wallet operations, and the submissions of others, again
  without any effect; a transaction that it is shown is its own, and reading under the name of another
  provider is answered 404.\<close>

theorem requests_respect_roles:
  "(case Authenticate (if ready then Some H else None) rq of
      Inl _ \<Rightarrow> serve H E ready r rq w = (Inr (abortWith 401 CodeUnauthenticated), w)
    | Inr who \<Rightarrow>
        id_Internal who
        \<or> r \<in> {GetTransactions, GetProviderTransactions}
          \<and> (\<exists>rs w'. serve H E ready r rq w = (Inr rs, w') \<and> wd_db w' = wd_db w \<and> shows_own who rs)
          \<and> (r = GetTransactions \<or> rq_Param rq ''providerId'' = id_ProviderID who
             \<or> serve H E ready r rq w = (Inr (abortWith 404 CodeNotFound), w))
        \<or> r = PostTransactions \<and> (\<exists>req. bind_submit H (rq_Body rq) = Some req \<and> sq_ProviderID req = id_ProviderID who)
        \<or> (\<exists>rs. serve H E ready r rq w = (Inr rs, w) \<and> rs_Status rs \<in> {400, 403}))"
proof (cases "Authenticate (if ready then Some H else None) rq")
  case (Inl rs)
  then show ?thesis using Authenticate_error [OF Inl] by (simp add: serve_def retP_def)
next
  case (Inr who)
  have forbidden: "respondError (AppErr ErrForbidden) = abortWith 403 CodeForbidden"
    and absent: "respondError (AppErr ErrNotFound) = abortWith 404 CodeNotFound" by (simp_all add: respondError_def)
  show ?thesis
  proof (cases "id_Internal who \<or> r \<notin> {GetTransactions, GetProviderTransactions}")
    case True
    then show ?thesis
      using Inr forbidden
      by (cases r) (auto simp: serve_def H_OpenWallet_def H_GetWallet_def H_GetLedger_def H_Reconcile_def
          H_SubmitTransaction_def MayUseWalletOperations_def MayActAsProvider_def answerP_eq retP_def failP_def
          Queries_GetWallet_def Queries_GetLedger_def Queries_Reconcile_def split: option.split)
  next
    case False
    then have provider: "\<not> id_Internal who" and r: "r = GetTransactions \<or> r = GetProviderTransactions" by auto
    have "\<exists>rs w'. serve H E ready r rq w = (Inr rs, w') \<and> wd_db w' = wd_db w \<and> shows_own who rs"
      if "r = GetTransactions"
    proof (cases "uuid_Parse E (rq_Param rq ''transactionId'')")
      case None
      then show ?thesis using that Inr by (simp add: serve_def H_GetTransaction_def retP_def)
    next
      case (Some k)
      then show ?thesis
        using shows_own_answer [OF queries_read_only(2), of E who k w who E] GetTransaction_run [of E who k w] provider that Inr
        by (simp add: serve_def H_GetTransaction_def MayActAsProvider_def)
    qed
    moreover have "(\<exists>rs w'. serve H E ready r rq w = (Inr rs, w') \<and> wd_db w' = wd_db w \<and> shows_own who rs)
        \<and> (rq_Param rq ''providerId'' = id_ProviderID who
           \<or> serve H E ready r rq w = (Inr (abortWith 404 CodeNotFound), w))"
      if "r = GetProviderTransactions"
    proof
      let ?p = "rq_Param rq ''providerId''" and ?k = "rq_Param rq ''externalTransactionId''"
      show "\<exists>rs w'. serve H E ready r rq w = (Inr rs, w') \<and> wd_db w' = wd_db w \<and> shows_own who rs"
        using shows_own_answer [OF queries_read_only(3), of E who ?p ?k w who E] GetProviderTransaction_run [of E who ?p ?k w]
          provider that Inr
        by (auto simp: serve_def H_GetProviderTransaction_def MayActAsProvider_def)
      show "?p = id_ProviderID who \<or> serve H E ready r rq w = (Inr (abortWith 404 CodeNotFound), w)"
        using provider that Inr absent
        by (auto simp: serve_def H_GetProviderTransaction_def Queries_GetProviderTransaction_def MayActAsProvider_def
            answerP_eq failP_def)
    qed
    ultimately show ?thesis using r Inr by auto
  qed
qed

text \<open>C29: HTTP and the queue agree: a request and a message with the same fields and idempotency key
  become the same command, payload hash included, up to the correlation identifier and the identity
  of the message; the queue accepts exactly what HTTP accepts, except the kind that is reserved for
  openings.\<close>

theorem entry_points_agree:
  assumes "mv_Data e = \<lparr>me_ProviderID = sq_ProviderID req, me_ExternalTransactionID = sq_ExternalTransactionID req,
      me_IdempotencyKey = key, me_PlayerID = sq_PlayerID req, me_WalletID = sq_WalletID req,
      me_RoundID = sq_RoundID req, me_GameID = sq_GameID req, me_Kind = sq_Kind req,
      me_Amount = md_Amount (sq_Money req), me_Currency = md_Currency (sq_Money req),
      me_ReferenceExternalTransactionID = sq_ReferenceExternalTransactionID req, me_CorrelationID = c\<rparr>"
    and "key \<noteq> []"
  shows "case fst (buildCommand E consumer e w) of
      Inr cmd \<Rightarrow> buildProcessCommand E req key cid =
        Inr (cmd\<lparr>pc_CorrelationID := cid, pc_ConsumerName := [], pc_MessageID := []\<rparr>)
    | Inl err \<Rightarrow> root_cause err = ErrPermanent
        \<and> (kind_of_string (sq_Kind req) = Opening \<or> (\<exists>e'. buildProcessCommand E req key cid = Inl e'))"
proof (cases "buildCommand E consumer e w")
  case (Pair r w')
  then show ?thesis
    using assms
    by (auto simp: buildCommand_def buildProcessCommand_def parseKind_def toMoney_def Let_def failP_def bindP_def
        new_uuid_def retP_def submit_fields_def data_fields_def Kind_IsValid_def Kind_IsValidExternal_def bindR_def
        split: option.splits sum.splits if_splits)
qed

theorem entry_points_agree_witness:
  "buildProcessCommand calm_env demo_submit ''b1'' 9
     = Inr (demo_command\<lparr>pc_CorrelationID := 9, pc_ConsumerName := [], pc_MessageID := []\<rparr>)"
proof -
  have "mv_Data demo_envelope = \<lparr>me_ProviderID = sq_ProviderID demo_submit, me_ExternalTransactionID = sq_ExternalTransactionID demo_submit,
      me_IdempotencyKey = ''b1'', me_PlayerID = sq_PlayerID demo_submit, me_WalletID = sq_WalletID demo_submit,
      me_RoundID = sq_RoundID demo_submit, me_GameID = sq_GameID demo_submit, me_Kind = sq_Kind demo_submit,
      me_Amount = md_Amount (sq_Money demo_submit), me_Currency = md_Currency (sq_Money demo_submit),
      me_ReferenceExternalTransactionID = sq_ReferenceExternalTransactionID demo_submit, me_CorrelationID = []\<rparr>"
    by (simp add: demo_envelope_def demo_submit_def)
  from entry_points_agree [OF this, where E = calm_env and consumer = "''c''" and w = "demo_world demo_db1 100" and cid = 9] show ?thesis
    using demo_built [of demo_db1 100] by simp
qed

text \<open>A submission whose player or wallet is no UUID is answered 503 \<open>UNAVAILABLE\<close>, as if it could
  be retried, and not 400: the error that \<open>buildProcessCommand\<close> makes for it is none of those that
  \<open>respondError\<close> knows.\<close>

theorem malformed_uuid_is_unavailable:
  assumes "Authenticate (if ready then Some H else None) rq = Inr who"
    and "rq_Header rq ''Idempotency-Key'' \<noteq> []" and "bind_submit H (rq_Body rq) = Some req"
    and "MayActAsProvider who (sq_ProviderID req)"
    and "uuid_Parse E (sq_PlayerID req) = None \<or> uuid_Parse E (sq_WalletID req) = None"
  shows "\<exists>rs w'. serve H E ready PostTransactions rq w = (Inr rs, w') \<and> rs_Status rs = 503
    \<and> rs_Body rs = ErrorBody CodeUnavailable"
proof -
  obtain cid where cid: "correlationID E rq w = (Inr cid, w\<lparr>wd_uuids := Suc (wd_uuids w)\<rparr>)" using correlationID_eq by blast
  obtain s where "buildProcessCommand E req (rq_Header rq ''Idempotency-Key'') cid = Inl (InvalidFieldErr s)"
    using assms(5) by (cases "uuid_Parse E (sq_PlayerID req)") (auto simp: buildProcessCommand_def)
  moreover have "respondError (InvalidFieldErr s) = abortWith 503 CodeUnavailable" by (simp add: respondError_def)
  ultimately show ?thesis using assms(1-4) cid by (simp add: serve_def H_SubmitTransaction_def bindP_def retP_def)
qed

theorem malformed_uuid_is_unavailable_witness:
  "\<exists>rs w'. serve demo_http calm_env True PostTransactions (demo_request ''Bearer acme'' ''bad'') (demo_world demo_db1 100)
     = (Inr rs, w') \<and> rs_Status rs = 503"
proof -
  let ?rq = "demo_request ''Bearer acme'' ''bad''"
  have auth: "Authenticate (if True then Some demo_http else None) ?rq = Inr \<lparr>id_ProviderID = ''acme'', id_Internal = False\<rparr>"
    using demo_authenticated by simp
  have req: "rq_Header ?rq ''Idempotency-Key'' \<noteq> []"
    "bind_submit demo_http (rq_Body ?rq) = Some (demo_submit\<lparr>sq_PlayerID := ''x''\<rparr>)"
    by (simp_all add: demo_request_def demo_http_def)
  have "MayActAsProvider \<lparr>id_ProviderID = ''acme'', id_Internal = False\<rparr> (sq_ProviderID (demo_submit\<lparr>sq_PlayerID := ''x''\<rparr>))"
    "uuid_Parse calm_env (sq_PlayerID (demo_submit\<lparr>sq_PlayerID := ''x''\<rparr>)) = None
     \<or> uuid_Parse calm_env (sq_WalletID (demo_submit\<lparr>sq_PlayerID := ''x''\<rparr>)) = None"
    by (simp_all add: MayActAsProvider_def demo_submit_def calm_env_def is_digit_def)
  from malformed_uuid_is_unavailable [OF auth req this] show ?thesis by blast
qed

end
