(* ===== verification/Redelivery.thy ===== *)
theory Redelivery
  imports Messages
begin

text \<open>
  A message that comes again. Whatever the service does after a message was processed, what the second delivery
  reads is still there and can be read: the wallet, the transaction of the idempotency key and the record of
  the inbox. So it changes nothing, and it is answered, and deleted, unless the database fails.
\<close>

section \<open>What stays readable\<close>

lemma find_only:
  assumes "x \<in> set xs" "P x" "\<And>y. y \<in> set xs \<Longrightarrow> P y \<Longrightarrow> y = x"
  shows "find P xs = Some x"
proof -
  obtain y where y: "find P xs = Some y" using assms(1,2) by (metis find_None_iff not_None_eq)
  then have "y \<in> set xs" "P y" by (metis find_Some_iff nth_mem)+
  then show ?thesis using y assms(3) by simp
qed

text \<open>The transaction of a key keeps its identifier and its payload hash, and every later state has it readable.\<close>

lemma key_stays_readable:
  assumes "find_key k d = Some row" "answers cmd row t" "db_extends d d'" "schema_ok d'"
  obtains row' u where "find_key k d' = Some row'" "toDomain row' = Inr u" "tx_id u = tx_id t"
    "tx_payloadHash u = pc_PayloadHash cmd" "find (\<lambda>r. tr_id r = tx_id t) (db_tx d') = Some row'"
proof -
  have row: "row \<in> set (db_tx d)" "tr_idempotency_key row = Some k" using find_keyD [OF assms(1)] by simp_all
  obtain row' where row': "row' \<in> set (db_tx d')" "same_tx row row'"
    using grows_member [of same_tx "db_tx d" "db_tx d'" row] row(1) assms(3) by (auto simp: db_extends_def)
  have key: "find_key k d' = Some row'" using row' same_tx_identity row(2) find_key_unique [OF assms(4)] by metis
  have "answers cmd row' (t\<lparr>tx_status := status_of_string (tr_status row')\<rparr>)"
    using same_tx_columns [OF row'(2)] assms(2) by (auto simp: answers_def)
  from answers_readable [OF assms(4) row'(1) this] obtain u where
    u: "toDomain row' = Inr u" "tx_id u = tx_id t" "tx_payloadHash u = pc_PayloadHash cmd" by auto
  have id: "tr_id row' = tx_id t" using same_tx_columns [OF row'(2)] assms(2) by (simp add: answers_def)
  have "unique_by (\<lambda>a b. tr_id a = tr_id b) (db_tx d')" using assms(4) by (simp add: schema_ok_def tx_table_ok_def)
  from unique_byD [OF this _ row'(1)] have "find (\<lambda>r. tr_id r = tx_id t) (db_tx d') = Some row'"
    using id by (intro find_only [OF row'(1)]) auto
  then show ?thesis using that key u by blast
qed

text \<open>So is the wallet.\<close>

lemma wallet_stays_readable:
  assumes "wallet_at d i w" "db_extends d d'" "schema_ok d'"
  obtains row' w' where "find (\<lambda>r. wr_id r = i) (db_wallet d') = Some row'" "wallet_of_row row' = Inr w'"
    "wlt_playerID w' = wlt_playerID w"
proof -
  obtain row where row: "row \<in> set (db_wallet d)" "wr_id row = i" "wallet_of_row row = Inr w"
    using assms(1) by (rule wallet_atD)
  obtain row' where row': "row' \<in> set (db_wallet d')" "same_wallet row row'"
    using grows_member [of same_wallet "db_wallet d" "db_wallet d'" row] row(1) assms(2) by (auto simp: db_extends_def)
  have found: "find (\<lambda>r. wr_id r = i) (db_wallet d') = Some row'"
    using row' row(2) wallet_row_unique [OF assms(3) _ row'(1)] by (intro find_only [OF row'(1)]) (auto simp: same_wallet_def)
  have "list_all snd (wallet_checks row')" using assms(3) row'(1) by (simp add: schema_ok_def wallet_table_ok_def)
  then have "\<exists>w'. wallet_of_row row' = Inr w' \<and> wlt_playerID w' = wlt_playerID w"
    using row(3) row'(2)
    by (auto simp: wallet_of_row_def RehydrateWallet_def same_wallet_def wallet_checks_def FromMinorUnits_def
        Money_IsNegative_def int64_simps split: if_splits)
  then show ?thesis using that found by blast
qed

section \<open>A run that only reads\<close>

lemma inbox_answers:
  assumes ok: "\<And>n. driver_fault E n = None" "\<And>n. commit_result E n = CommitOk"
    and "pc_MessageID cmd \<noteq> []" and "find_message cmd (wd_db w) = Some rec" "ir_payload_hash rec = pc_PayloadHash cmd"
    and "find (\<lambda>r. tr_id r = ir_wager_transaction_id rec) (db_tx (wd_db w)) = Some row" "toDomain row = Inr t"
    and "find_key (pc_IdempotencyKey cmd) (wd_db w) = Some krow" "toDomain krow = Inr u" "tx_payloadHash u = pc_PayloadHash cmd"
    and "find (\<lambda>r. wr_id r = pc_WalletID cmd) (db_wallet (wd_db w)) = Some wrow" "wallet_of_row wrow = Inr wlt"
    and "wlt_playerID wlt = pc_PlayerID cmd"
  shows "\<exists>w'. ProcessWager_Execute E cmd w = (Inr (replayResult t), w')"
proof -
  let ?now = "clock_Now E (wd_clock w)"
  let ?w1 = "w\<lparr>wd_calls := Suc (wd_calls w), wd_clock := Suc (wd_clock w)\<rparr>"
  have fast: "fastReplay E cmd (w\<lparr>wd_clock := Suc (wd_clock w)\<rparr>) = (Inr None, ?w1)"
    using assms(3,8-10) ok
    by (simp add: fastReplay_def found_or_absent_def bindP_def tryP_def wrapP_def retP_def liftR_def
        transactionRepo_GetByIdempotencyKey_def transactionRepo_scanOne_def sql_def Let_def select_tx_def find_key_def)
  have body: "execute_body E cmd ?now x = (Inr (replayResult t), x\<lparr>wd_calls := wd_calls x + 3\<rparr>)"
    if "wd_db x = wd_db w" "\<not> wd_aborted x" for x
    using assms(3-7,11-13) ok that
    by (simp add: execute_body_def or_else_def replayed_message_def bindP_def wrapP_def retP_def liftR_def
        walletRepo_GetForUpdate_def walletRepo_get_def select_wallet_def inboxRepo_Get_def select_inbox_def find_message_def
        transactionRepo_GetByID_def transactionRepo_scanOne_def sql_def Let_def select_tx_def eval_nat_numeral)
  have "\<exists>w'. within E (execute_body E cmd ?now) ?w1 = (Inr (replayResult t), w')"
    using ok body by (simp add: within_run begin_tx_def commit_def Let_def journal_must_balance_def)
  then show ?thesis
    using fast by (simp add: ProcessWager_Execute_def bindP_def read_clock_def or_else_def)
qed

section \<open>The second delivery\<close>

lemma buildCommand_succeeds:
  assumes "buildCommand E c e w = (Inr cmd, w1)" and "uuid_Parse E' = uuid_Parse E"
  obtains cmd' wb where "buildCommand E' c e w2 = (Inr cmd', wb)" "wd_db wb = wd_db w2"
    "cmd' = cmd\<lparr>pc_CorrelationID := pc_CorrelationID cmd'\<rparr>"
proof -
  have "\<exists>cmd' wb. buildCommand E' c e w2 = (Inr cmd', wb)"
    using assms by (auto simp: buildCommand_def Let_def run_simps new_uuid_def bindP_def retP_def
        split: if_splits option.splits sum.splits)
  then obtain cmd' wb where b: "buildCommand E' c e w2 = (Inr cmd', wb)" by blast
  then show ?thesis using that buildCommand_again [OF assms(1) b assms(2)] buildCommand_run [OF b] by blast
qed

lemma wager_spec_wallet:
  "wager_spec E cmd now d d' out \<Longrightarrow> pc_MessageID cmd \<noteq> []
     \<Longrightarrow> \<exists>w. wallet_at d (pc_WalletID cmd) w \<and> wlt_playerID w = pc_PlayerID cmd"
  by (erule wager_specE) auto

text \<open>What the first delivery has left, as any later state has it.\<close>

definition left_by :: "process_command \<Rightarrow> db \<Rightarrow> bool" where
  "left_by cmd d \<longleftrightarrow> (\<exists>rec row t krow u wrow wlt.
     find_message cmd d = Some rec \<and> ir_payload_hash rec = pc_PayloadHash cmd
     \<and> find (\<lambda>r. tr_id r = ir_wager_transaction_id rec) (db_tx d) = Some row \<and> toDomain row = Inr t
     \<and> find_key (pc_IdempotencyKey cmd) d = Some krow \<and> toDomain krow = Inr u \<and> tx_payloadHash u = pc_PayloadHash cmd
     \<and> find (\<lambda>r. wr_id r = pc_WalletID cmd) (db_wallet d) = Some wrow \<and> wallet_of_row wrow = Inr wlt
     \<and> wlt_playerID wlt = pc_PlayerID cmd)"

lemma first_leaves:
  assumes run: "ProcessWager_Execute E cmd w = (Inr out, w1)" and msg: "pc_MessageID cmd \<noteq> []"
    and new: "find_message cmd (wd_db w) = None" and ok: "schema_ok (wd_db w)" and later: "reaches E (wd_db w1) d"
  shows "left_by cmd d"
proof -
  have ok1: "schema_ok (wd_db w1)" using reachable_schema Execute_reaches [OF run] ok by blast
  have ok2: "schema_ok d" using reachable_schema [OF later] ok1 .
  have ext: "db_extends (wd_db w1) d" by (rule reachable_extends [OF later])
  have ext0: "db_extends (wd_db w) d" by (rule reachable_extends [OF rtranclp_trans [OF Execute_reaches [OF run] later]])
  obtain now where spec: "wager_spec E cmd now (wd_db w) (wd_db w1) out" by (rule Execute_success [OF run])
  obtain rec where rec: "find_message cmd (wd_db w1) = Some rec" "ir_payload_hash rec = pc_PayloadHash cmd"
      "ir_wager_transaction_id rec = tx_id (ps_Transaction out)"
    using wager_spec_recorded [OF spec msg] by blast
  obtain row where row: "find_key (pc_IdempotencyKey cmd) (wd_db w1) = Some row" "answers cmd row (ps_Transaction out)"
    using wager_spec_key [OF spec new ok ok1] by blast
  obtain row' u where u: "find_key (pc_IdempotencyKey cmd) d = Some row'" "toDomain row' = Inr u"
      "tx_payloadHash u = pc_PayloadHash cmd" "find (\<lambda>r. tr_id r = tx_id (ps_Transaction out)) (db_tx d) = Some row'"
    by (rule key_stays_readable [OF row ext ok2])
  obtain wlt where wlt: "wallet_at (wd_db w) (pc_WalletID cmd) wlt" "wlt_playerID wlt = pc_PlayerID cmd"
    using wager_spec_wallet [OF spec msg] by blast
  obtain wrow wlt' where "find (\<lambda>r. wr_id r = pc_WalletID cmd) (db_wallet d) = Some wrow" "wallet_of_row wrow = Inr wlt'"
      "wlt_playerID wlt' = pc_PlayerID cmd"
    using wallet_stays_readable [OF wlt(1) ext0 ok2] wlt(2) by metis
  then show ?thesis
    using u rec find_message_later [OF rec(1) ext] unfolding left_by_def by metis
qed

lemma left_by_correlation: "left_by (cmd\<lparr>pc_CorrelationID := i\<rparr>) d = left_by cmd d"
  by (simp add: left_by_def find_message_def)

lemma left_by_answers:
  assumes "\<And>n. driver_fault E n = None" "\<And>n. commit_result E n = CommitOk"
    and "pc_MessageID cmd \<noteq> []" "left_by cmd (wd_db w)"
  obtains out w' where "ProcessWager_Execute E cmd w = (Inr out, w')"
  using assms(4) inbox_answers [OF assms(1-3)] unfolding left_by_def by metis

lemma processed_again_unchanged:
  assumes first: "process E c body w = (Inr u, w1)" and later: "reaches E (wd_db w1) (wd_db w2)"
    and again: "process E' c body w2 = (r, w3)" and parse: "uuid_Parse E' = uuid_Parse E"
  shows "wd_db w3 = wd_db w2"
proof -
  obtain e cmd wa out where e: "decode_envelope body = Some e" "mv_MessageID e \<noteq> []"
    and cmd: "buildCommand E c e w = (Inr cmd, wa)" "ProcessWager_Execute E cmd wa = (Inr out, w1)"
    using first by (auto simp: process_run)
  have msg: "pc_MessageID cmd \<noteq> []" using buildCommand_run [OF cmd(1)] e(2) by simp
  obtain now where "wager_spec E cmd now (wd_db wa) (wd_db w1) out" by (rule Execute_success [OF cmd(2)])
  then obtain rec where "find_message cmd (wd_db w1) = Some rec" using wager_spec_recorded msg by blast
  then have rec: "find_message cmd (wd_db w2) = Some rec"
    using find_message_later reachable_extends [OF later] by blast
  obtain b wb where b: "buildCommand E' c e w2 = (b, wb)" by (metis prod.exhaust)
  have wb: "wd_db wb = wd_db w2" using buildCommand_db [of E' c e w2] b by simp
  show ?thesis
  proof (cases b)
    case (Inl err)
    then show ?thesis using again e b wb by (simp add: process_def bindP_def)
  next
    case (Inr cmd')
    obtain r' w' where run: "ProcessWager_Execute E' cmd' wb = (r', w')" by (metis prod.exhaust)
    have "wd_db w3 = wd_db w'"
      using again e b Inr run by (simp add: process_def bindP_def tryP_def retP_def failP_def split: sum.splits)
    moreover have "cmd' = cmd\<lparr>pc_CorrelationID := pc_CorrelationID cmd'\<rparr>"
      using buildCommand_again [OF cmd(1) _ parse] b Inr by blast
    then have "find_message cmd' (wd_db wb) = Some rec"
      using rec wb find_message_cong [of cmd' cmd] by (metis process_command.select_convs process_command.surjective process_command.update_convs)
    then have "wager_spec E' cmd' now (wd_db wb) d out \<Longrightarrow> d = wd_db wb" for now d out
      using wager_spec_message by metis
    then have "wd_db w' = wd_db wb" using ProcessWager_effect [OF run] by (auto simp: wager_effect_def split: sum.splits)
    ultimately show ?thesis using wb by simp
  qed
qed

section \<open>The property\<close>

text \<open>C30: a message that is delivered again is harmless, and it goes away. Once the consumer has processed a message,
  however long the service runs on, handling the same body again leaves every table as it is, whether it
  succeeds or fails; and if the first delivery was the first of its message identifier, then whenever the database does
  not fail in the second one, the message is answered from the inbox and deleted.\<close>

theorem redelivered_message_is_deleted:
  assumes reach: "reaches E empty_db (wd_db w)"
    and first: "process E c body w = (Inr u, w1)" and later: "reaches E (wd_db w1) (wd_db (cs_world s))"
    and body: "sm_Body msg = Some body" and parse: "uuid_Parse E' = uuid_Parse E"
  shows "wd_db (cs_world (handle E' c msg s)) = wd_db (cs_world s)
    \<and> ((\<forall>n. driver_fault E' n = None \<and> commit_result E' n = CommitOk)
        \<and> (\<forall>e. decode_envelope body = Some e \<longrightarrow>
             (\<forall>r \<in> set (db_inbox (wd_db w)). \<not> (ir_consumer_name r = c \<and> ir_message_id r = mv_MessageID e)))
       \<longrightarrow> cs_calls (handle E' c msg s) = cs_calls s @ [DeleteMessage (sm_ReceiptHandle msg)])"
proof (intro conjI impI)
  obtain r w3 where again: "process E' c body (cs_world s) = (r, w3)" by (metis prod.exhaust)
  show "wd_db (cs_world (handle E' c msg s)) = wd_db (cs_world s)"
    using processed_again_unchanged [OF first later again parse] body again by (simp add: handle_def split: sum.split)
next
  assume calm: "(\<forall>n. driver_fault E' n = None \<and> commit_result E' n = CommitOk)
      \<and> (\<forall>e. decode_envelope body = Some e \<longrightarrow>
           (\<forall>r \<in> set (db_inbox (wd_db w)). \<not> (ir_consumer_name r = c \<and> ir_message_id r = mv_MessageID e)))"
  obtain e cmd wa out where e: "decode_envelope body = Some e" "mv_MessageID e \<noteq> []"
    and cmd: "buildCommand E c e w = (Inr cmd, wa)" "ProcessWager_Execute E cmd wa = (Inr out, w1)"
    using first by (auto simp: process_run)
  note built = buildCommand_run [OF cmd(1)]
  have msg: "pc_MessageID cmd \<noteq> []" using built e(2) by simp
  have "find_message cmd (wd_db wa) = None" using calm e(1) built by (auto simp: find_message_def find_None_iff)
  moreover have "schema_ok (wd_db wa)" using reachable_schema [OF reach] built by simp
  ultimately have left: "left_by cmd (wd_db (cs_world s))" by (intro first_leaves [OF cmd(2) msg _ _ later])
  obtain cmd' wb where b: "buildCommand E' c e (cs_world s) = (Inr cmd', wb)" "wd_db wb = wd_db (cs_world s)"
      "cmd' = cmd\<lparr>pc_CorrelationID := pc_CorrelationID cmd'\<rparr>"
    by (rule buildCommand_succeeds [OF cmd(1) parse])
  have "pc_MessageID cmd' \<noteq> []" "left_by cmd' (wd_db wb)"
    using buildCommand_run [OF b(1)] e(2) left b(2) left_by_correlation [of "pc_CorrelationID cmd'" cmd] b(3) by simp_all
  then obtain out' w' where "ProcessWager_Execute E' cmd' wb = (Inr out', w')"
    using left_by_answers [of E' cmd' wb] calm by blast
  then have "process E' c body (cs_world s) = (Inr (), w')" using e b(1) by (auto simp: process_run)
  then show "cs_calls (handle E' c msg s) = cs_calls s @ [DeleteMessage (sm_ReceiptHandle msg)]"
    using body by (simp add: handle_def)
qed

theorem redelivered_message_is_deleted_witness:
  "\<exists>w1 msg s. process calm_env ''c'' demo_body (demo_world demo_db1 100) = (Inr (), w1)
     \<and> sm_Body msg = Some demo_body \<and> wd_db (cs_world s) = wd_db w1
     \<and> wd_db (cs_world (handle calm_env ''c'' msg s)) = wd_db w1
     \<and> cs_calls (handle calm_env ''c'' msg s) = [DeleteMessage (Some ''r2'')]"
proof -
  obtain w1 where run: "process calm_env ''c'' demo_body (demo_world demo_db1 100) = (Inr (), w1)"
    by (rule demo_redelivered)
  let ?msg = "\<lparr>sm_Body = Some demo_body, sm_ReceiptHandle = Some ''r2''\<rparr>"
  let ?s = "\<lparr>cs_world = demo_world (wd_db w1) 500, cs_calls = [], cs_fetch = 0, cs_work = 0, cs_receives = 0\<rparr>"
  have "wd_db (cs_world (handle calm_env ''c'' ?msg ?s)) = wd_db (cs_world ?s)
      \<and> cs_calls (handle calm_env ''c'' ?msg ?s) = cs_calls ?s @ [DeleteMessage (sm_ReceiptHandle ?msg)]"
    using redelivered_message_is_deleted [OF _ run, of ?s ?msg calm_env] demo_step1 by (simp add: demo_db1_tables)
  then show ?thesis using run by (intro exI [of _ w1] exI [of _ ?msg] exI [of _ ?s]) simp
qed

end
