(* ===== verification/Startup.thy ===== *)
theory Startup
  imports Errors
begin

text \<open>
  How the process waits for what it depends on: \<open>waitFor\<close> of \<open>internal/postgres/wait.go\<close>, the start
  hook of \<open>NewClient\<close> in \<open>internal/queue/queue.go\<close> and the discovery loop of \<open>NewOIDCVerifier\<close> in
  \<open>internal/httpapi/auth.go\<close>. The loops may never end, so they are partial functions. What a probe
  answers, the readings of the clock and when the context ends are streams: \<open>probe n\<close>, \<open>ctx_ended n\<close>
  and \<open>pause_ended n\<close> belong to the \<open>n\<close>th attempt (from 0), and the clock is read once before the loop
  and then at most once in each attempt. Log entries are left out.
\<close>

record startup_env =
  probe :: "nat \<Rightarrow> goerr option"
  wall_clock :: "nat \<Rightarrow> time"
  ctx_ended :: "nat \<Rightarrow> goerr option" \<comment> \<open>\<open>ctx.Err()\<close> after a failed probe\<close>
  pause_ended :: "nat \<Rightarrow> goerr option" \<comment> \<open>the context ends during the pause of a second\<close>

text \<open>The result is the returned error and how many attempts failed before.\<close>

partial_function (option) wait_attempts :: "startup_env \<Rightarrow> time \<Rightarrow> nat \<Rightarrow> (goerr option \<times> nat) option" where
  "wait_attempts S deadline n =
     (case probe S n of None \<Rightarrow> Some (None, n)
      | Some err \<Rightarrow>
        (case ctx_ended S n of Some e \<Rightarrow> Some (Some e, n)
         | None \<Rightarrow>
           if deadline < wall_clock S (Suc n) then Some (Some err, n)
           else (case pause_ended S n of Some e \<Rightarrow> Some (Some e, n)
                 | None \<Rightarrow> wait_attempts S deadline (Suc n))))"

definition waitFor :: "startup_env \<Rightarrow> duration \<Rightarrow> (goerr option \<times> nat) option" where
  "waitFor S budget = wait_attempts S (time_Add (wall_clock S 0) budget) 0"

text \<open>The hook of \<open>NewPool\<close>.\<close>

definition pool_OnStart :: "startup_env \<Rightarrow> duration \<Rightarrow> (goerr option \<times> nat) option" where
  "pool_OnStart S timeout =
     map_option (\<lambda>(err, n). (map_option (WrapErr ''connecting to postgres'') err, n)) (waitFor S timeout)"

text \<open>The hook of the queue's client.\<close>

partial_function (option) sqs_attempts :: "startup_env \<Rightarrow> time \<Rightarrow> nat \<Rightarrow> (goerr option \<times> nat) option" where
  "sqs_attempts S deadline n =
     (case probe S n of None \<Rightarrow> Some (None, n)
      | Some err \<Rightarrow>
        (case ctx_ended S n of Some e \<Rightarrow> Some (Some e, n)
         | None \<Rightarrow>
           if deadline < wall_clock S (Suc n) then Some (Some (WrapErr ''connecting to sqs'' err), n)
           else (case pause_ended S n of Some e \<Rightarrow> Some (Some e, n)
                 | None \<Rightarrow> sqs_attempts S deadline (Suc n))))"

definition sqs_OnStart :: "startup_env \<Rightarrow> duration \<Rightarrow> (goerr option \<times> nat) option" where
  "sqs_OnStart S timeout = sqs_attempts S (time_Add (wall_clock S 0) timeout) 0"

text \<open>The discovery does not look at the context before the deadline.\<close>

partial_function (option) discover :: "startup_env \<Rightarrow> time \<Rightarrow> nat \<Rightarrow> (goerr option \<times> nat) option" where
  "discover S deadline n =
     (case probe S n of None \<Rightarrow> Some (None, n)
      | Some err \<Rightarrow>
        if deadline < wall_clock S (Suc n) then Some (Some (WrapErr ''discovering OIDC issuer'' err), n)
        else (case pause_ended S n of Some e \<Rightarrow> Some (Some e, n)
              | None \<Rightarrow> discover S deadline (Suc n)))"

text \<open>The verifier it makes trusts the issuer and the additional ones.\<close>

definition NewOIDCVerifier :: "startup_env \<Rightarrow> duration \<Rightarrow> string \<Rightarrow> string list \<Rightarrow> (goerr + string list) option" where
  "NewOIDCVerifier S timeout issuerURL additional =
     map_option (\<lambda>(err, n). case err of Some e \<Rightarrow> Inl e | None \<Rightarrow> Inr (issuerURL # additional))
       (discover S (time_Add (wall_clock S 0) timeout) 0)"

section \<open>The interface of a wait\<close>

text \<open>
  The loops differ in how they wrap the last error and in whether they look at the context after a
  failed probe. A wait that goes round in this way returns, because a second passes between two
  attempts. Between the reading of the clock before the loop and that of the first attempt no pause is made:
  there the clock is only known not to go back.
\<close>

definition second_pauses :: "startup_env \<Rightarrow> bool" where
  "second_pauses S \<longleftrightarrow> wall_clock S 0 \<le> wall_clock S 1
     \<and> (\<forall>n. wall_clock S (Suc n) + 1000000000 \<le> wall_clock S (Suc (Suc n)))"

lemma clock_after:
  assumes "second_pauses S"
  shows "wall_clock S 0 + int n * 1000000000 \<le> wall_clock S (Suc n)"
proof (induction n)
  case 0
  then show ?case using assms by (simp add: second_pauses_def)
next
  case (Suc n)
  have "wall_clock S (Suc n) + 1000000000 \<le> wall_clock S (Suc (Suc n))" using assms by (simp add: second_pauses_def)
  then show ?case using Suc by simp
qed

text \<open>The last attempt after which a wait may still go round.\<close>

definition gives_up :: "duration \<Rightarrow> nat" where
  "gives_up budget = Suc (nat (sint budget div 1000000000))"

lemma deadline_passed:
  assumes "second_pauses S" "gives_up budget \<le> n"
  shows "time_Add (wall_clock S 0) budget < wall_clock S (Suc n)"
proof -
  have "sint budget div 1000000000 + 1 \<le> int n" using assms(2) by (simp add: gives_up_def)
  then have "(sint budget div 1000000000 + 1) * 1000000000 \<le> int n * 1000000000" by (rule mult_right_mono) simp
  moreover have "sint budget = (sint budget div 1000000000) * 1000000000 + sint budget mod 1000000000" by simp
  moreover have "sint budget mod 1000000000 < 1000000000" by simp
  ultimately have "sint budget < int n * 1000000000" by (simp only: distrib_right mult_1)
  then show ?thesis using clock_after [OF assms(1), of n] by (simp add: time_Add_def)
qed

text \<open>What a wait returns: nothing if its last probe succeeded and an error otherwise, after at most
  \<open>bound\<close> attempts. All its probes before failed, and each of these attempts found that the deadline had not
  passed; it gives up only because the deadline has passed or the context has ended.\<close>

definition waited :: "startup_env \<Rightarrow> time \<Rightarrow> nat \<Rightarrow> nat \<Rightarrow> goerr option \<times> nat \<Rightarrow> bool" where
  "waited S deadline n bound r \<longleftrightarrow> n \<le> snd r \<and> snd r \<le> max n bound \<and> (fst r = None \<longleftrightarrow> probe S (snd r) = None)
     \<and> (\<forall>k. n \<le> k \<and> k < snd r \<longrightarrow> probe S k \<noteq> None \<and> wall_clock S (Suc k) \<le> deadline)
     \<and> (fst r \<noteq> None \<longrightarrow> deadline < wall_clock S (Suc (snd r)) \<or> ctx_ended S (snd r) \<noteq> None \<or> pause_ended S (snd r) \<noteq> None)"

lemma waited_here:
  "(e = None \<longleftrightarrow> probe S n = None)
    \<Longrightarrow> (e \<noteq> None \<Longrightarrow> deadline < wall_clock S (Suc n) \<or> ctx_ended S n \<noteq> None \<or> pause_ended S n \<noteq> None)
    \<Longrightarrow> waited S deadline n bound (e, n)"
  by (auto simp: waited_def)

lemma waited_before:
  assumes "waited S deadline (Suc n) bound r" "probe S n \<noteq> None" "\<not> deadline < wall_clock S (Suc n)" "n < bound"
  shows "waited S deadline n bound r"
proof -
  have "probe S k \<noteq> None \<and> wall_clock S (Suc k) \<le> deadline" if "n \<le> k" "k < snd r" for k
  proof (cases "k = n")
    case False
    then have "Suc n \<le> k" using that by simp
    then show ?thesis using assms(1) that by (simp add: waited_def)
  qed (use assms in simp)
  then show ?thesis using assms(1,4) by (cases "fst r") (simp_all add: waited_def)
qed

locale retry_loop =
  fixes loop :: "startup_env \<Rightarrow> time \<Rightarrow> nat \<Rightarrow> (goerr option \<times> nat) option"
    and wrap :: "goerr \<Rightarrow> goerr"
    and looks :: bool
  assumes round: "loop S deadline n =
     (case probe S n of None \<Rightarrow> Some (None, n)
      | Some err \<Rightarrow>
        (case (if looks then ctx_ended S n else None) of Some e \<Rightarrow> Some (Some e, n)
         | None \<Rightarrow>
           if deadline < wall_clock S (Suc n) then Some (Some (wrap err), n)
           else (case pause_ended S n of Some e \<Rightarrow> Some (Some e, n)
                 | None \<Rightarrow> loop S deadline (Suc n))))"
begin

lemma stops_or_goes_round:
  "(\<exists>e. loop S deadline n = Some (e, n) \<and> (e = None \<longleftrightarrow> probe S n = None)
        \<and> (e \<noteq> None \<longrightarrow> deadline < wall_clock S (Suc n) \<or> ctx_ended S n \<noteq> None \<or> pause_ended S n \<noteq> None))
     \<or> (probe S n \<noteq> None \<and> \<not> deadline < wall_clock S (Suc n) \<and> loop S deadline n = loop S deadline (Suc n))"
  by (subst (1 2) round) (auto split: option.splits)

lemma returns:
  assumes "second_pauses S" "deadline = time_Add (wall_clock S 0) budget"
  shows "\<exists>r. loop S deadline n = Some r \<and> waited S deadline n (gives_up budget) r"
proof (induction "gives_up budget - n" arbitrary: n rule: less_induct)
  case less
  from stops_or_goes_round [of S deadline n] show ?case
  proof (elim disjE exE conjE)
    fix e assume "loop S deadline n = Some (e, n)" "(e = None) = (probe S n = None)"
      "e \<noteq> None \<longrightarrow> deadline < wall_clock S (Suc n) \<or> ctx_ended S n \<noteq> None \<or> pause_ended S n \<noteq> None"
    then show ?thesis by (intro exI [of _ "(e, n)"] conjI waited_here) auto
  next
    assume again: "probe S n \<noteq> None" "\<not> deadline < wall_clock S (Suc n)" "loop S deadline n = loop S deadline (Suc n)"
    then have lt: "n < gives_up budget" using deadline_passed [OF assms(1)] assms(2) not_le by blast
    then have "gives_up budget - Suc n < gives_up budget - n" by (rule diff_less_mono2 [OF lessI])
    from less [OF this] show ?thesis using again(3) waited_before [OF _ again(1,2) lt] by auto
  qed
qed

end

interpretation postgres_wait: retry_loop wait_attempts id True
  by unfold_locales (subst wait_attempts.simps, simp cong: option.case_cong if_cong)

interpretation sqs_wait: retry_loop sqs_attempts "WrapErr ''connecting to sqs''" True
  by unfold_locales (subst sqs_attempts.simps, simp cong: option.case_cong if_cong)

interpretation oidc_wait: retry_loop discover "WrapErr ''discovering OIDC issuer''" False
  by unfold_locales (subst discover.simps, simp cong: option.case_cong if_cong)

section \<open>The start does not hang\<close>


text \<open>A dependency that answers at the third attempt, within a budget of a minute. The clock of the first attempt is
  that before the loop: the first probe fails at once.\<close>

definition slow_start :: "startup_env" where
  "slow_start = \<lparr>probe = (\<lambda>n. if n < 2 then Some (DriverErr ''connection refused'') else None),
     wall_clock = (\<lambda>n. 1700000000000000000 + int (n - 1) * 1000000000),
     ctx_ended = (\<lambda>_. None), pause_ended = (\<lambda>_. None)\<rparr>"


end
