(* ===== verification/Workers.thy ===== *)
theory Workers
  imports System
begin

text \<open>
  The background workers of \<open>internal/worker/worker.go\<close>: the loop \<open>tick\<close> with the two jobs it drives,
  and the life of the goroutine of a worker under the hooks of \<open>start\<close>, as a step relation. A \<open>select\<close>
  that finds several of its cases ready takes any of them, so which case the \<open>n\<close>th one takes is a
  stream. Log entries are left out; the worker that consumes the queue runs the loop of the theory of
  the queue.
\<close>

section \<open>The ticking loop\<close>

text \<open>\<open>fetch_Done n\<close>: the \<open>n\<close>th \<open>select\<close> takes the end of fetching instead of the timer. The result
  counts the passes made.\<close>

partial_function (option) tick :: "(nat \<Rightarrow> bool) \<Rightarrow> (nat \<Rightarrow> world \<Rightarrow> world) \<Rightarrow> nat \<Rightarrow> world \<Rightarrow> (nat \<times> world) option" where
  "tick fetch_Done fn n w =
     (if fetch_Done n then Some (n, w) else tick fetch_Done fn (Suc n) (fn n w))"

text \<open>A failed pass is logged and the next one follows.\<close>

definition RegisterOutboxPublisher ::
  "(nat \<Rightarrow> bool) \<Rightarrow> env \<Rightarrow> publish_policy \<Rightarrow> (nat \<Rightarrow> publisher) \<Rightarrow> string \<Rightarrow> world \<Rightarrow> (nat \<times> world) option" where
  "RegisterOutboxPublisher fetch_Done E p pub owner w =
     tick fetch_Done (\<lambda>n. snd \<circ> PublishOutbox_RunOnce E p (pub n) owner) 0 w"

definition RegisterReferenceResolver ::
  "(nat \<Rightarrow> bool) \<Rightarrow> env \<Rightarrow> reference_policy \<Rightarrow> world \<Rightarrow> (nat \<times> world) option" where
  "RegisterReferenceResolver fetch_Done E p w =
     tick fetch_Done (\<lambda>n. snd \<circ> ResolveReferences_RunOnce E p) 0 w"

text \<open>The loop makes its passes up to the first \<open>select\<close> that takes the end, and keeps what each pass
  keeps.\<close>

locale ticking =
  fixes fn :: "nat \<Rightarrow> world \<Rightarrow> world" and I :: "db \<Rightarrow> bool"
  assumes pass_keeps: "I (wd_db w) \<Longrightarrow> I (wd_db (fn n w))"
begin

lemma tick_stops:
  assumes "fetch_Done k" "n \<le> k" "I (wd_db w)"
  shows "\<exists>m w'. tick fetch_Done fn n w = Some (m, w') \<and> n \<le> m \<and> m \<le> k \<and> fetch_Done m
    \<and> (\<forall>i. n \<le> i \<and> i < m \<longrightarrow> \<not> fetch_Done i) \<and> I (wd_db w')"
  using assms(2,3)
proof (induction "k - n" arbitrary: n w rule: less_induct)
  case less
  show ?case
  proof (cases "fetch_Done n")
    case True
    then show ?thesis using less.prems by (subst tick.simps) auto
  next
    case False
    then have lt: "n < k" using assms(1) less.prems(1) by (metis le_neq_implies_less)
    have "\<exists>m w'. tick fetch_Done fn (Suc n) (fn n w) = Some (m, w') \<and> Suc n \<le> m \<and> m \<le> k \<and> fetch_Done m
      \<and> (\<forall>i. Suc n \<le> i \<and> i < m \<longrightarrow> \<not> fetch_Done i) \<and> I (wd_db w')"
      by (rule less.hyps) (use lt pass_keeps [OF less.prems(2)] in auto)
    then obtain m w' where t: "tick fetch_Done fn (Suc n) (fn n w) = Some (m, w')" "Suc n \<le> m" "m \<le> k" "fetch_Done m"
      "\<forall>i. Suc n \<le> i \<and> i < m \<longrightarrow> \<not> fetch_Done i" "I (wd_db w')" by blast
    have "\<not> fetch_Done i" if "n \<le> i" "i < m" for i
      using that False t(5) by (cases "i = n") auto
    then show ?thesis using False t by (subst tick.simps) auto
  qed
qed

end

interpretation outbox_ticking:
  ticking "\<lambda>n. snd \<circ> PublishOutbox_RunOnce E p (pub n) owner" "reaches E d0" for E p pub owner d0
  by unfold_locales (simp add: keepsD [OF keeps_reaches_PublishOutbox prod.collapse [symmetric]])

interpretation reference_ticking:
  ticking "\<lambda>n. snd \<circ> ResolveReferences_RunOnce E p" "reaches E d0" for E p d0
  by unfold_locales (simp add: keepsD [OF keeps_reaches_ResolveReferences prod.collapse [symmetric]])

text \<open>A worker stops when it is told to. If fetching has ended by the \<open>k\<close>th \<open>select\<close> the loops of the
  outbox publisher and of the reference resolver return after at most \<open>k\<close> passes, at the first \<open>select\<close>
  that sees the end, and the database they leave is reached by transactions of the program,
  whatever the passes met.\<close>

theorem workers_stop:
  assumes "fetch_Done k"
  shows "(\<exists>m w'. RegisterOutboxPublisher fetch_Done E pp pub owner w = Some (m, w') \<and> m \<le> k \<and> fetch_Done m
        \<and> (\<forall>i < m. \<not> fetch_Done i) \<and> reaches E (wd_db w) (wd_db w'))
    \<and> (\<exists>m w'. RegisterReferenceResolver fetch_Done E rp w = Some (m, w') \<and> m \<le> k \<and> fetch_Done m
        \<and> (\<forall>i < m. \<not> fetch_Done i) \<and> reaches E (wd_db w) (wd_db w'))"
  unfolding RegisterOutboxPublisher_def RegisterReferenceResolver_def
  using outbox_ticking.tick_stops [where n = 0 and fetch_Done = fetch_Done and E = E and ?d0.0 = "wd_db w" and w = w
        and p = pp and pub = pub and owner = owner, OF assms]
    reference_ticking.tick_stops [where n = 0 and fetch_Done = fetch_Done and E = E and ?d0.0 = "wd_db w" and w = w
        and p = rp, OF assms]
  by simp

theorem workers_stop_witness:
  "\<exists>m w'. RegisterReferenceResolver (\<lambda>n. 2 \<le> n) calm_env DefaultReferencePolicy (start_world empty_db) = Some (m, w')
     \<and> m = 2 \<and> reaches calm_env empty_db (wd_db w')"
proof -
  have "\<exists>m w'. RegisterReferenceResolver (\<lambda>n. 2 \<le> n) calm_env DefaultReferencePolicy (start_world empty_db) = Some (m, w')
     \<and> m \<le> 2 \<and> 2 \<le> m \<and> reaches calm_env empty_db (wd_db w')"
    using workers_stop [of "\<lambda>n. 2 \<le> n" 2 calm_env DefaultPublishPolicy "\<lambda>_ _ _. None" "''o''" "start_world empty_db" DefaultReferencePolicy]
    by (auto simp: start_world_def)
  then show ?thesis by auto
qed

section \<open>The life of a worker\<close>

text \<open>What the hooks of \<open>start\<close> and the goroutine share: whether the start hook has set
  \<open>r.stopFetch\<close>, the two contexts of \<open>Lifetime\<close>, the channel \<open>done\<close> and how far the stop hook is. The
  stop hook returns no error.\<close>

datatype stop_hook = NotStopping | Draining | NeverStarted | Drained | BudgetExceeded | ShutdownCancelled

record runner =
  stopFetch_set :: bool
  Fetch_Done :: bool
  Work_Done :: bool
  done_closed :: bool
  OnStop :: stop_hook

definition new_runner :: runner where
  "new_runner = \<lparr>stopFetch_set = False, Fetch_Done = False, Work_Done = False, done_closed = False, OnStop = NotStopping\<rparr>"

text \<open>The steps of the hooks and of the goroutine in any order: the life cycle calls each hook once, the
  loop may return at any time, and a \<open>select\<close> takes any case that is ready. The deferred
  \<open>abandonWork\<close> runs when the stop hook returns.\<close>

inductive runner_step :: "runner \<Rightarrow> runner \<Rightarrow> bool" where
  OnStart: "\<lbrakk>\<not> stopFetch_set r; OnStop r = NotStopping\<rbrakk> \<Longrightarrow> runner_step r (r\<lparr>stopFetch_set := True\<rparr>)"
| loop_returns: "\<lbrakk>stopFetch_set r; \<not> done_closed r\<rbrakk> \<Longrightarrow> runner_step r (r\<lparr>done_closed := True\<rparr>)"
| OnStop_unstarted: "\<lbrakk>\<not> stopFetch_set r; OnStop r = NotStopping\<rbrakk> \<Longrightarrow> runner_step r (r\<lparr>OnStop := NeverStarted\<rparr>)"
| OnStop_begins: "\<lbrakk>stopFetch_set r; OnStop r = NotStopping\<rbrakk> \<Longrightarrow> runner_step r (r\<lparr>Fetch_Done := True, OnStop := Draining\<rparr>)"
| drained: "\<lbrakk>OnStop r = Draining; done_closed r\<rbrakk> \<Longrightarrow> runner_step r (r\<lparr>Work_Done := True, OnStop := Drained\<rparr>)"
| budget: "OnStop r = Draining \<Longrightarrow> runner_step r (r\<lparr>Work_Done := True, OnStop := BudgetExceeded\<rparr>)"
| cancelled: "OnStop r = Draining \<Longrightarrow> runner_step r (r\<lparr>Work_Done := True, OnStop := ShutdownCancelled\<rparr>)"

inductive_cases runner_stepE: "runner_step r r'"

text \<open>The contexts end with the stop hook: fetching when it begins, the work when it returns.\<close>

definition runner_wf :: "runner \<Rightarrow> bool" where
  "runner_wf r \<longleftrightarrow> (Fetch_Done r \<longleftrightarrow> OnStop r \<notin> {NotStopping, NeverStarted})
     \<and> (Work_Done r \<longleftrightarrow> OnStop r \<in> {Drained, BudgetExceeded, ShutdownCancelled})
     \<and> (OnStop r = Drained \<longrightarrow> done_closed r)
     \<and> (Fetch_Done r \<or> done_closed r \<longrightarrow> stopFetch_set r)"

lemma runner_wf_step: "runner_step r r' \<Longrightarrow> runner_wf r \<Longrightarrow> runner_wf r'"
  by (induction rule: runner_step.induct) (auto simp: runner_wf_def)

lemma runner_wf_reachable: "runner_step\<^sup>*\<^sup>* new_runner r \<Longrightarrow> runner_wf r"
  by (induction rule: rtranclp_induct) (auto simp: runner_wf_step, simp add: runner_wf_def new_runner_def)

lemma never_started_unstarted: "runner_step\<^sup>*\<^sup>* new_runner r \<Longrightarrow> OnStop r = NeverStarted \<Longrightarrow> \<not> stopFetch_set r"
  by (induction rule: rtranclp_induct) (auto simp: new_runner_def elim!: runner_stepE)

text \<open>A stop drains before it abandons. In every state a worker can reach, the context of its work has not
  ended while fetching goes on; a step that ends the work while the loop still runs is the end of the budget
  or of the shutdown itself, never the drained one; and once the stop hook has begun a step
  can end it.\<close>

theorem runner_drains_first:
  assumes "runner_step\<^sup>*\<^sup>* new_runner r"
  shows "(Work_Done r \<longrightarrow> Fetch_Done r)
    \<and> (\<forall>r'. runner_step r r' \<and> \<not> Work_Done r \<and> Work_Done r' \<and> \<not> done_closed r \<longrightarrow> OnStop r' \<in> {BudgetExceeded, ShutdownCancelled})
    \<and> (OnStop r = Drained \<longrightarrow> done_closed r)
    \<and> (OnStop r = Draining \<longrightarrow> (\<exists>r'. runner_step r r' \<and> Work_Done r'))"
proof (intro conjI allI impI)
  have wf: "runner_wf r" using assms by (rule runner_wf_reachable)
  show "Work_Done r \<Longrightarrow> Fetch_Done r" "OnStop r = Drained \<Longrightarrow> done_closed r"
    using wf by (auto simp: runner_wf_def)
  show "OnStop r' \<in> {BudgetExceeded, ShutdownCancelled}"
    if "runner_step r r' \<and> \<not> Work_Done r \<and> Work_Done r' \<and> \<not> done_closed r" for r'
    using that by (auto elim!: runner_stepE)
  show "\<exists>r'. runner_step r r' \<and> Work_Done r'" if "OnStop r = Draining"
    using budget [OF that] by auto
qed

theorem runner_drains_first_witness:
  "OnStop (new_runner\<lparr>stopFetch_set := True, Fetch_Done := True, OnStop := Draining\<rparr>) = Draining
    \<and> (\<exists>r'. runner_step (new_runner\<lparr>stopFetch_set := True, Fetch_Done := True, OnStop := Draining\<rparr>) r' \<and> Work_Done r')"
proof -
  have 1: "runner_step new_runner (new_runner\<lparr>stopFetch_set := True\<rparr>)"
    by (rule OnStart) (simp_all add: new_runner_def)
  have "runner_step (new_runner\<lparr>stopFetch_set := True\<rparr>) (new_runner\<lparr>stopFetch_set := True, Fetch_Done := True, OnStop := Draining\<rparr>)"
    using OnStop_begins [of "new_runner\<lparr>stopFetch_set := True\<rparr>"] by (simp add: new_runner_def)
  with 1 have "runner_step\<^sup>*\<^sup>* new_runner (new_runner\<lparr>stopFetch_set := True, Fetch_Done := True, OnStop := Draining\<rparr>)" by simp
  from runner_drains_first [OF this] show ?thesis by simp
qed

end
