(* ===== verification/Config.thy ===== *)
theory Config
  imports GoText
begin

text \<open>
  \<open>internal/config/config.go\<close>: the configuration is read from environment variables, and a variable
  that is unset, empty or malformed falls back to a default. The environment is a record: the
  variables (an unset one reads as empty), the host name if there is one, the process identifier and
  a fresh identifier. Floating point is not modelled: \<open>float_nanos\<close> is the product that
  \<open>time.ParseDuration\<close> computes for a fraction, and \<open>ParseFloat\<close> reads a number of type \<open>'f\<close>.
\<close>

record 'f os_env =
  Getenv :: "string \<Rightarrow> string"
  Hostname :: "string option"
  Getpid :: int
  NewString :: string
  float_nanos :: "nat \<Rightarrow> nat \<Rightarrow> nat \<Rightarrow> nat" \<comment> \<open>\<open>uint64(float64(f) * (float64(unit) / scale))\<close>\<close>
  ParseFloat :: "string \<Rightarrow> 'f option"
  float_one :: 'f

section \<open>Durations\<close>

text \<open>\<open>time.ParseDuration\<close>: a sign and a sequence of numbers with a unit. \<open>leadingInt\<close> fails above
  \<open>2^63\<close>; \<open>leadingFraction\<close> drops the digits that do not fit.\<close>

fun leadingInt :: "nat \<Rightarrow> string \<Rightarrow> (nat \<times> string) option" where
  "leadingInt x [] = Some (x, [])"
| "leadingInt x (c # cs) =
     (if \<not> is_digit c then Some (x, c # cs)
      else if 2 ^ 63 div 10 < x then None
      else if 2 ^ 63 < 10 * x + char_digit c then None
      else leadingInt (10 * x + char_digit c) cs)"

fun leadingFraction :: "nat \<Rightarrow> nat \<Rightarrow> bool \<Rightarrow> string \<Rightarrow> nat \<times> nat \<times> string" where
  "leadingFraction x scale overflow [] = (x, scale, [])"
| "leadingFraction x scale overflow (c # cs) =
     (if \<not> is_digit c then (x, scale, c # cs)
      else if overflow \<or> (2 ^ 63 - 1) div 10 < x \<or> 2 ^ 63 < 10 * x + char_digit c
        then leadingFraction x scale True cs
      else leadingFraction (10 * x + char_digit c) (10 * scale) False cs)"

definition unitMap :: "string \<Rightarrow> nat option" where
  "unitMap = map_of [(''ns'', 1), (''us'', 1000), ([CHR 0xC2, CHR 0xB5, CHR ''s''], 1000),
     ([CHR 0xCE, CHR 0xBC, CHR ''s''], 1000), (''ms'', 1000000), (''s'', 1000000000),
     (''m'', 60000000000), (''h'', 3600000000000)]"

definition number_char :: "char \<Rightarrow> bool" where
  "number_char c \<longleftrightarrow> c = CHR ''.'' \<or> is_digit c"

text \<open>One number with its unit: its nanoseconds and the rest of the text.\<close>

definition duration_part :: "'f os_env \<Rightarrow> string \<Rightarrow> (nat \<times> string) option" where
  "duration_part V s =
     (if s = [] \<or> \<not> number_char (hd s) then None
      else case leadingInt 0 s of None \<Rightarrow> None
      | Some (v, t) \<Rightarrow>
        let pre = length t \<noteq> length s; dot = t \<noteq> [] \<and> hd t = CHR ''.'';
            (f, scale, t') = (if dot then leadingFraction 0 1 False (tl t) else (0, 1, t));
            post = dot \<and> length t' \<noteq> length (tl t);
            u = takeWhile (\<lambda>c. \<not> number_char c) t' in
        if \<not> pre \<and> \<not> post then None
        else if u = [] then None
        else case unitMap u of None \<Rightarrow> None
        | Some unit \<Rightarrow>
          if 2 ^ 63 div unit < v then None
          else let n = v * unit + (if 0 < f then float_nanos V f unit scale else 0) in
            if 2 ^ 63 < n then None else Some (n, drop (length u) t'))"

lemma leadingInt_length: "leadingInt x s = Some (v, t) \<Longrightarrow> length t \<le> length s"
  by (induction s arbitrary: x) (auto split: if_splits dest: le_SucI)

lemma leadingFraction_length: "leadingFraction x k b s = (f, scale, t) \<Longrightarrow> length t \<le> length s"
  by (induction s arbitrary: x k b) (fastforce split: if_splits)+

lemma duration_part_length:
  assumes "duration_part V s = Some (n, r)"
  shows "length r < length s"
proof -
  obtain v t where t: "leadingInt 0 s = Some (v, t)"
    using assms by (auto simp: duration_part_def split: if_splits option.splits)
  let ?dot = "t \<noteq> [] \<and> hd t = CHR ''.''"
  obtain f scale t' where f: "(if ?dot then leadingFraction 0 1 False (tl t) else (0, 1, t)) = (f, scale, t')"
    by (metis prod_cases3)
  have "length t' \<le> length t"
    using f leadingFraction_length by (fastforce split: if_splits)
  moreover have "r = drop (length (takeWhile (\<lambda>c. \<not> number_char c) t')) t'" "takeWhile (\<lambda>c. \<not> number_char c) t' \<noteq> []"
    using assms t f by (auto simp: duration_part_def Let_def split: if_splits option.splits)
  then have "length r < length t'" by (cases t') auto
  ultimately show ?thesis using leadingInt_length [OF t] by simp
qed

function duration_parts :: "'f os_env \<Rightarrow> nat \<Rightarrow> string \<Rightarrow> nat option" where
  "duration_parts V d s =
     (if s = [] then Some d
      else case duration_part V s of None \<Rightarrow> None
      | Some (n, r) \<Rightarrow>
          let d' = (d + n) mod 2 ^ 64 in if 2 ^ 63 < d' then None else duration_parts V d' r)"
  by pat_completeness auto
termination
  by (relation "measure (\<lambda>(V, d, s). length s)") (auto dest: duration_part_length)

declare duration_parts.simps [simp del]

definition ParseDuration :: "'f os_env \<Rightarrow> string \<Rightarrow> duration option" where
  "ParseDuration V s =
     (let neg = (s \<noteq> [] \<and> hd s = CHR ''-''); t = (if s \<noteq> [] \<and> (hd s = CHR ''-'' \<or> hd s = CHR ''+'') then tl s else s) in
      if t = ''0'' then Some 0
      else if t = [] then None
      else case duration_parts V 0 t of None \<Rightarrow> None
      | Some d \<Rightarrow> if neg then Some (- of_nat d) else if 2 ^ 63 - 1 < d then None else Some (of_nat d))"

section \<open>Variables\<close>

definition envString :: "'f os_env \<Rightarrow> string \<Rightarrow> string \<Rightarrow> string" where
  "envString V key fallback = (if Getenv V key \<noteq> [] then Getenv V key else fallback)"

definition or_fallback :: "'a option \<Rightarrow> 'a \<Rightarrow> 'a" where
  "or_fallback r fallback = (case r of Some x \<Rightarrow> x | None \<Rightarrow> fallback)"

definition envInt :: "'f os_env \<Rightarrow> string \<Rightarrow> int \<Rightarrow> int" where
  "envInt V key fallback =
     (if Getenv V key \<noteq> [] then or_fallback (go_Atoi (Getenv V key)) fallback else fallback)"

definition envDuration :: "'f os_env \<Rightarrow> string \<Rightarrow> duration \<Rightarrow> duration" where
  "envDuration V key fallback =
     (if Getenv V key \<noteq> [] then or_fallback (ParseDuration V (Getenv V key)) fallback else fallback)"

definition ParseBool :: "string \<Rightarrow> bool option" where
  "ParseBool s =
     (if s \<in> {''1'', ''t'', ''T'', ''true'', ''TRUE'', ''True''} then Some True
      else if s \<in> {''0'', ''f'', ''F'', ''false'', ''FALSE'', ''False''} then Some False else None)"

definition envBool :: "'f os_env \<Rightarrow> string \<Rightarrow> bool \<Rightarrow> bool" where
  "envBool V key fallback =
     (if Getenv V key \<noteq> [] then or_fallback (ParseBool (Getenv V key)) fallback else fallback)"

definition envFloat :: "'f os_env \<Rightarrow> string \<Rightarrow> 'f \<Rightarrow> 'f" where
  "envFloat V key fallback =
     (if Getenv V key \<noteq> [] then or_fallback (ParseFloat V (Getenv V key)) fallback else fallback)"

text \<open>\<open>strings.Split\<close> at a character.\<close>

fun split_at :: "char \<Rightarrow> string \<Rightarrow> string list" where
  "split_at k [] = [[]]"
| "split_at k (c # cs) =
     (if c = k then [] # split_at k cs
      else case split_at k cs of [] \<Rightarrow> [[c]] | p # ps \<Rightarrow> (c # p) # ps)"

definition envList :: "'f os_env \<Rightarrow> string \<Rightarrow> string list" where
  "envList V key =
     (if Getenv V key = [] then []
      else filter (\<lambda>item. item \<noteq> []) (map trim_space (split_at (CHR '','') (Getenv V key))))"

definition show_int :: "int \<Rightarrow> string" where
  "show_int i = (if i < 0 then ''-'' @ show_nat (nat (- i)) else show_nat (nat i))"

definition defaultInstanceID :: "'f os_env \<Rightarrow> string" where
  "defaultInstanceID V =
     (case Hostname V of
        Some host \<Rightarrow> if host \<noteq> [] then host @ ''-'' @ show_int (Getpid V) else NewString V
      | None \<Rightarrow> NewString V)"

section \<open>The configuration\<close>

record postgres_config =
  cp_Host :: string
  cp_Port :: int
  cp_User :: string
  cp_Password :: string
  cp_DBName :: string
  cp_SSLMode :: string

record sqs_config =
  cs_Region :: string
  cs_Endpoint :: string
  cs_RequestQueueURL :: string
  cs_EventQueueURL :: string
  cs_ConsumerName :: string
  cs_MaxMessages :: "32 word"
  cs_WaitTimeSeconds :: "32 word"
  cs_VisibilityTimeout :: "32 word"

record oidc_config =
  co_IssuerURL :: string
  co_AdditionalIssuers :: "string list"
  co_Audience :: string
  co_DiscoveryTimeout :: duration

record worker_config =
  cw_OutboxInterval :: duration
  cw_ReferenceInterval :: duration
  cw_ShutdownTimeout :: duration

record 'f tracing_config =
  ct_Enabled :: bool
  ct_Endpoint :: string
  ct_ServiceName :: string
  ct_SampleRatio :: 'f

record 'f config =
  cfg_Port :: int
  cfg_InstanceID :: string
  cfg_Postgres :: postgres_config
  cfg_SQS :: sqs_config
  cfg_OIDC :: oidc_config
  cfg_Worker :: worker_config
  cfg_DependencyTimeout :: duration
  cfg_Tracing :: "'f tracing_config"

definition seconds :: "int \<Rightarrow> duration" where
  "seconds n = word_of_int (n * 1000000000)"

definition config_New :: "'f os_env \<Rightarrow> 'f config" where
  "config_New V =
     \<lparr>cfg_Port = envInt V ''JUNGLE_PORT'' 8080,
      cfg_InstanceID = envString V ''JUNGLE_INSTANCE_ID'' (defaultInstanceID V),
      cfg_Postgres =
        \<lparr>cp_Host = envString V ''POSTGRES_HOST'' ''localhost'', cp_Port = envInt V ''POSTGRES_PORT'' 5432,
         cp_User = envString V ''POSTGRES_USER'' ''jungle'', cp_Password = envString V ''POSTGRES_PASSWORD'' ''jungle'',
         cp_DBName = envString V ''POSTGRES_DB'' ''jungle'', cp_SSLMode = envString V ''POSTGRES_SSLMODE'' ''disable''\<rparr>,
      cfg_SQS =
        \<lparr>cs_Region = envString V ''AWS_REGION'' ''us-east-1'', cs_Endpoint = envString V ''SQS_ENDPOINT_URL'' [],
         cs_RequestQueueURL = envString V ''SQS_REQUEST_QUEUE_URL'' [],
         cs_EventQueueURL = envString V ''SQS_EVENT_QUEUE_URL'' [],
         cs_ConsumerName = envString V ''SQS_CONSUMER_NAME'' ''wager-transactions-consumer'',
         cs_MaxMessages = word_of_int (envInt V ''SQS_MAX_MESSAGES'' 10),
         cs_WaitTimeSeconds = word_of_int (envInt V ''SQS_WAIT_TIME_SECONDS'' 10),
         cs_VisibilityTimeout = word_of_int (envInt V ''SQS_VISIBILITY_TIMEOUT'' 60)\<rparr>,
      cfg_OIDC =
        \<lparr>co_IssuerURL = envString V ''OIDC_ISSUER_URL'' ''http://localhost:8081/realms/jungle'',
         co_AdditionalIssuers = envList V ''OIDC_ADDITIONAL_ISSUERS'',
         co_Audience = envString V ''OIDC_AUDIENCE'' ''jungle-api'',
         co_DiscoveryTimeout = envDuration V ''OIDC_DISCOVERY_TIMEOUT'' (seconds 90)\<rparr>,
      cfg_Worker =
        \<lparr>cw_OutboxInterval = envDuration V ''OUTBOX_INTERVAL'' (seconds 1),
         cw_ReferenceInterval = envDuration V ''REFERENCE_INTERVAL'' (seconds 5),
         cw_ShutdownTimeout = envDuration V ''SHUTDOWN_TIMEOUT'' (seconds 20)\<rparr>,
      cfg_DependencyTimeout = envDuration V ''STARTUP_DEPENDENCY_TIMEOUT'' (seconds 60),
      cfg_Tracing =
        \<lparr>ct_Enabled = envBool V ''TRACING_ENABLED'' True,
         ct_Endpoint = envString V ''OTEL_EXPORTER_OTLP_ENDPOINT'' ''localhost:4317'',
         ct_ServiceName = envString V ''OTEL_SERVICE_NAME'' ''jungle'',
         ct_SampleRatio = envFloat V ''TRACING_SAMPLE_RATIO'' (float_one V)\<rparr>\<rparr>"

text \<open>The data source name of \<open>NewPool\<close> and of the migrations; nothing is escaped.\<close>

definition postgres_dsn :: "postgres_config \<Rightarrow> string" where
  "postgres_dsn c = ''postgres://'' @ cp_User c @ '':'' @ cp_Password c @ ''@'' @ cp_Host c @ '':''
     @ show_int (cp_Port c) @ ''/'' @ cp_DBName c @ ''?sslmode='' @ cp_SSLMode c"


section \<open>Reading settings back\<close>

lemma is_digit_sign [simp]: "is_digit (CHR ''-'') = False" "is_digit (CHR ''+'') = False"
  "is_digit (CHR ''s'') = False" "is_digit (CHR ''.'') = False"
  by (simp_all add: is_digit_def)

text \<open>A printed integer of 64 bits is read back.\<close>

lemma show_nat_Cons: "show_nat n = c # cs \<Longrightarrow> is_digit c"
  using show_nat_digits [of n] by simp

lemma go_Atoi_show_int: "fits64 i \<Longrightarrow> go_Atoi (show_int i) = Some i"
proof (cases "i < 0")
  case True
  then show "fits64 i \<Longrightarrow> go_Atoi (show_int i) = Some i"
    by (simp add: go_Atoi_def show_int_def Let_def show_nat_digits)
next
  case False
  obtain c cs where s: "show_nat (nat i) = c # cs" by (cases "show_nat (nat i)") simp_all
  have c: "is_digit c" using show_nat_Cons [OF s] .
  then have "c \<noteq> CHR ''+''" "c \<noteq> CHR ''-''" by auto
  moreover have "digits_val (c # cs) = nat i" "list_all is_digit (c # cs)"
    using digits_val_show_nat [of "nat i"] show_nat_digits [of "nat i"] by (simp_all add: s)
  ultimately show "fits64 i \<Longrightarrow> go_Atoi (show_int i) = Some i"
    using False by (simp add: go_Atoi_def show_int_def Let_def s)
qed

lemma go_Atoi_too_big: "\<not> fits64 i \<Longrightarrow> go_Atoi (show_int i) = None"
proof (cases "i < 0")
  case True
  then show "\<not> fits64 i \<Longrightarrow> go_Atoi (show_int i) = None"
    by (simp add: go_Atoi_def show_int_def Let_def show_nat_digits)
next
  case False
  obtain c cs where s: "show_nat (nat i) = c # cs" by (cases "show_nat (nat i)") simp_all
  have "c \<noteq> CHR ''+''" "c \<noteq> CHR ''-''" using show_nat_Cons [OF s] by auto
  moreover have "digits_val (c # cs) = nat i"
    using digits_val_show_nat [of "nat i"] by (simp add: s)
  ultimately show "\<not> fits64 i \<Longrightarrow> go_Atoi (show_int i) = None"
    using False by (simp add: go_Atoi_def show_int_def Let_def s)
qed

text \<open>A list that is joined with commas is split again.\<close>

fun join_commas :: "string list \<Rightarrow> string" where
  "join_commas [] = []"
| "join_commas [s] = s"
| "join_commas (s # ss) = s @ '','' @ join_commas ss"

lemma split_at_no: "k \<notin> set s \<Longrightarrow> split_at k s = [s]"
  by (induction s) auto

lemma split_at_append: "k \<notin> set s \<Longrightarrow> split_at k (s @ k # t) = s # split_at k t"
  by (induction s) auto

lemma split_at_join:
  assumes "items \<noteq> []" "\<forall>s \<in> set items. CHR '','' \<notin> set s"
  shows "split_at (CHR '','') (join_commas items) = items"
  using assms by (induction items rule: join_commas.induct) (simp_all add: split_at_no split_at_append)

lemma envList_join:
  assumes "Getenv V key = join_commas items"
    "\<forall>s \<in> set items. s \<noteq> [] \<and> CHR '','' \<notin> set s \<and> trim_space s = s"
  shows "envList V key = items"
proof (cases "items = []")
  case False
  then have ne: "join_commas items \<noteq> []" using assms(2) by (induction items rule: join_commas.induct) auto
  have "split_at (CHR '','') (join_commas items) = items" using False assms(2) split_at_join by blast
  moreover have "map trim_space items = items" using assms(2) by (simp add: map_idI)
  ultimately show ?thesis using assms ne by (simp add: envList_def)
qed (use assms in \<open>simp add: envList_def\<close>)

text \<open>A whole number of seconds is read back.\<close>

lemma foldl_digits_ge: "(x :: nat) \<le> foldl (\<lambda>acc c. 10 * acc + char_digit c) x ds"
proof (induction ds arbitrary: x)
  case (Cons d ds)
  show ?case using Cons [of "10 * x + char_digit d"] by simp
qed simp

lemma leadingInt_digits:
  assumes "list_all is_digit ds" "foldl (\<lambda>acc c. 10 * acc + char_digit c) x ds \<le> 2 ^ 63"
    "rest = [] \<or> \<not> is_digit (hd rest)"
  shows "leadingInt x (ds @ rest) = Some (foldl (\<lambda>acc c. 10 * acc + char_digit c) x ds, rest)"
  using assms(1,2)
proof (induction ds arbitrary: x)
  case Nil
  then show ?case using assms(3) by (cases rest) auto
next
  case (Cons d ds)
  have "10 * x + char_digit d \<le> 2 ^ 63"
    using Cons.prems(2) foldl_digits_ge [of "10 * x + char_digit d" ds] by simp
  moreover from this have "x \<le> 2 ^ 63 div 10" by simp
  ultimately show ?case using Cons by simp
qed

lemma ParseDuration_seconds:
  assumes "int n * 1000000000 < 2 ^ 63"
  shows "ParseDuration V (show_nat n @ ''s'') = Some (seconds (int n))"
proof -
  obtain c cs where s: "show_nat n = c # cs" by (cases "show_nat n") simp_all
  have c: "is_digit c" using show_nat_Cons [OF s] .
  then have sign: "c \<noteq> CHR ''+''" "c \<noteq> CHR ''-''" by auto
  have bound: "n \<le> 9223372036" "n * 1000000000 < 2 ^ 63" using assms by simp_all
  have "leadingInt 0 (show_nat n @ ''s'') = Some (n, ''s'')"
    using leadingInt_digits [OF show_nat_digits, of 0 n "''s''"] bound digits_val_show_nat [of n]
    by (simp add: digits_val_def)
  then have "duration_part V (show_nat n @ ''s'') = Some (n * 1000000000, [])"
    using c bound by (simp add: duration_part_def Let_def s number_char_def unitMap_def)
  then have "duration_parts V 0 (show_nat n @ ''s'') = Some (n * 1000000000)"
    using bound by (subst duration_parts.simps) (simp add: Let_def duration_parts.simps [of V _ "[]"])
  then show ?thesis
    using sign bound by (simp add: ParseDuration_def Let_def s seconds_def)
qed

text \<open>A setting that is written out is read back. The port in decimal, a list of issuers joined with
  commas and a number of whole seconds are what the configuration then holds, up to the bounds of the
  machine integers; a port outside 64 bits leaves the default.\<close>

theorem settings_read_back:
  assumes "Getenv V ''JUNGLE_PORT'' = show_int port"
    and "Getenv V ''OIDC_ADDITIONAL_ISSUERS'' = join_commas issuers"
    and "\<forall>s \<in> set issuers. s \<noteq> [] \<and> CHR '','' \<notin> set s \<and> trim_space s = s"
    and "Getenv V ''SHUTDOWN_TIMEOUT'' = show_nat n @ ''s''" and "int n * 1000000000 < 2 ^ 63"
  shows "cfg_Port (config_New V) = (if fits64 port then port else 8080)
    \<and> co_AdditionalIssuers (cfg_OIDC (config_New V)) = issuers
    \<and> cw_ShutdownTimeout (cfg_Worker (config_New V)) = seconds (int n)"
proof (intro conjI)
  have "show_int port \<noteq> []" by (simp add: show_int_def)
  moreover have "\<not> fits64 port \<Longrightarrow> go_Atoi (show_int port) = None" by (rule go_Atoi_too_big)
  ultimately show "cfg_Port (config_New V) = (if fits64 port then port else 8080)"
    using assms(1) by (simp add: config_New_def envInt_def or_fallback_def go_Atoi_show_int)
  show "co_AdditionalIssuers (cfg_OIDC (config_New V)) = issuers"
    using envList_join [OF assms(2,3)] by (simp add: config_New_def)
  show "cw_ShutdownTimeout (cfg_Worker (config_New V)) = seconds (int n)"
    using assms(4) ParseDuration_seconds [OF assms(5), of V] by (simp add: config_New_def envDuration_def or_fallback_def)
qed

definition demo_os :: "unit os_env" where
  "demo_os = \<lparr>Getenv = (\<lambda>key. if key = ''JUNGLE_PORT'' then ''9000'' else if key = ''OIDC_ADDITIONAL_ISSUERS'' then ''a,b''
       else if key = ''SHUTDOWN_TIMEOUT'' then ''30s'' else []),
     Hostname = Some ''host'', Getpid = 7, NewString = ''u'', float_nanos = (\<lambda>_ _ _. 0), ParseFloat = (\<lambda>_. None),
     float_one = ()\<rparr>"

theorem settings_read_back_witness:
  "cfg_Port (config_New demo_os) = 9000 \<and> co_AdditionalIssuers (cfg_OIDC (config_New demo_os)) = [''a'', ''b'']
    \<and> cw_ShutdownTimeout (cfg_Worker (config_New demo_os)) = seconds 30"
proof -
  have "Getenv demo_os ''JUNGLE_PORT'' = show_int 9000" "Getenv demo_os ''OIDC_ADDITIONAL_ISSUERS'' = join_commas [''a'', ''b'']"
    "Getenv demo_os ''SHUTDOWN_TIMEOUT'' = show_nat 30 @ ''s''"
    by (simp_all add: demo_os_def) (simp_all add: show_int_def show_nat.simps digit_char_def char_of_def bit_0)
  moreover have "\<forall>s \<in> set [''a'', ''b'']. s \<noteq> [] \<and> CHR '','' \<notin> set s \<and> trim_space s = s"
    by (simp add: trim_space_def is_space_def)
  ultimately show ?thesis
    using settings_read_back [of demo_os 9000 "[''a'', ''b'']" 30] by (simp add: fits64_def)
qed

end
