(* ===== verification/Wiring.thy ===== *)
theory Wiring
  imports "HOL-Library.Multiset" Handlers Config
begin

text \<open>
  What the process puts together at start: the route table that \<open>Register\<close> of
  \<open>internal/router/router.go\<close> builds from the route sets of \<open>internal/httpapi/module.go\<close>,
  \<open>internal/health/health.go\<close> and \<open>internal/observability/module.go\<close>, the health handlers, and the command
  \<open>cmd/migrate/main.go\<close>.
\<close>

section \<open>Routes\<close>

text \<open>The functions that are registered with the engine.\<close>

datatype handler_func = AuthenticateFn | RouteFn route | LiveFn | ReadyFn | MetricsFn

record simpleRoute =
  Method :: string
  Pattern :: string
  Handler :: handler_func

definition Simple :: "string \<Rightarrow> string \<Rightarrow> handler_func \<Rightarrow> simpleRoute" where
  "Simple m p h = \<lparr>Method = m, Pattern = p, Handler = h\<rparr>"

record Set =
  Routes :: "simpleRoute list"
  Middlewares :: "handler_func list"

text \<open>The calls of \<open>Engine.Handle\<close>, in order.\<close>

definition Register :: "simpleRoute list \<Rightarrow> Set list \<Rightarrow> (string \<times> string \<times> handler_func list) list" where
  "Register routes sets =
     map (\<lambda>r. (Method r, Pattern r, [Handler r])) routes
     @ concat (map (\<lambda>s. map (\<lambda>r. (Method r, Pattern r, Middlewares s @ [Handler r])) (Routes s)) sets)"

definition httpapi_RouteSet :: Set where
  "httpapi_RouteSet =
     \<lparr>Routes = map (\<lambda>(m, p, r). Simple m p (RouteFn r)) route_table, Middlewares = [AuthenticateFn]\<rparr>"

definition health_RouteSet :: Set where
  "health_RouteSet =
     \<lparr>Routes = [Simple ''GET'' ''/health/live'' LiveFn, Simple ''GET'' ''/health/ready'' ReadyFn], Middlewares = []\<rparr>"

definition metrics_RouteSet :: Set where
  "metrics_RouteSet = \<lparr>Routes = [Simple ''GET'' ''/metrics'' MetricsFn], Middlewares = []\<rparr>"

text \<open>The lookups over the table of a concrete method and pattern.\<close>

lemma Register_sets:
  "set (Register [] sets) = (\<Union>s \<in> set sets. (\<lambda>r. (Method r, Pattern r, Middlewares s @ [Handler r])) ` set (Routes s))"
  by (simp add: Register_def)

lemma registered_httpapi:
  "(\<lambda>r. (Method r, Pattern r, Middlewares httpapi_RouteSet @ [Handler r])) ` set (Routes httpapi_RouteSet)
     = (\<lambda>(m, p, r). (m, p, [AuthenticateFn, RouteFn r])) ` set route_table"
  by (simp add: httpapi_RouteSet_def Simple_def image_image split_def)

lemma mset_Register: "mset ss = mset ss' \<Longrightarrow> mset (Register [] ss) = mset (Register [] ss')"
proof -
  assume "mset ss = mset ss'"
  then have "sum_list (map f ss) = sum_list (map f ss')" for f :: "Set \<Rightarrow> (string \<times> string \<times> handler_func list) multiset"
    by (simp flip: sum_mset_sum_list)
  then show ?thesis by (simp add: Register_def mset_concat comp_def)
qed

text \<open>C36: no business route is left open. In whatever order the container hands the three route sets to
  \<open>Register\<close>, no method and pattern is registered twice, every route of the API is registered behind
  \<open>Authenticate\<close> and in front of nothing else, and what is served without authentication is the two
  health checks and the metrics.\<close>

theorem business_routes_authenticate:
  assumes "mset sets = mset [httpapi_RouteSet, health_RouteSet, metrics_RouteSet]"
  shows "distinct (map (\<lambda>(m, p, hs). (m, p)) (Register [] sets))
    \<and> (\<forall>(m, p, r) \<in> set route_table. (m, p, [AuthenticateFn, RouteFn r]) \<in> set (Register [] sets))
    \<and> (\<forall>(m, p, hs) \<in> set (Register [] sets).
         (\<exists>r. (m, p, r) \<in> set route_table \<and> hs = [AuthenticateFn, RouteFn r])
         \<or> m = ''GET'' \<and> (p, hs) \<in> {(''/health/live'', [LiveFn]), (''/health/ready'', [ReadyFn]), (''/metrics'', [MetricsFn])})"
proof (intro conjI)
  let ?sets = "[httpapi_RouteSet, health_RouteSet, metrics_RouteSet]"
  have "distinct (map (\<lambda>(m, p, hs). (m, p)) (Register [] ?sets))"
    by (simp add: Register_def httpapi_RouteSet_def health_RouteSet_def metrics_RouteSet_def Simple_def route_table_def)
  moreover have "mset (map (\<lambda>(m, p, hs). (m, p)) (Register [] sets)) = mset (map (\<lambda>(m, p, hs). (m, p)) (Register [] ?sets))"
    using mset_Register [OF assms] by (simp only: mset_map)
  ultimately show "distinct (map (\<lambda>(m, p, hs). (m, p)) (Register [] sets))"
    using mset_eq_imp_distinct_iff by blast
  have "set sets = {httpapi_RouteSet, health_RouteSet, metrics_RouteSet}"
    using mset_eq_setD [OF assms] by simp
  then have regs: "set (Register [] sets) = (\<lambda>(m, p, r). (m, p, [AuthenticateFn, RouteFn r])) ` set route_table
      \<union> {(''GET'', ''/health/live'', [LiveFn]), (''GET'', ''/health/ready'', [ReadyFn])} \<union> {(''GET'', ''/metrics'', [MetricsFn])}"
    by (simp add: Register_sets registered_httpapi health_RouteSet_def metrics_RouteSet_def Simple_def Un_assoc)
  show "\<forall>(m, p, r) \<in> set route_table. (m, p, [AuthenticateFn, RouteFn r]) \<in> set (Register [] sets)"
    unfolding regs by force
  show "\<forall>(m, p, hs) \<in> set (Register [] sets).
         (\<exists>r. (m, p, r) \<in> set route_table \<and> hs = [AuthenticateFn, RouteFn r])
         \<or> m = ''GET'' \<and> (p, hs) \<in> {(''/health/live'', [LiveFn]), (''/health/ready'', [ReadyFn]), (''/metrics'', [MetricsFn])}"
    unfolding regs by auto
qed

theorem business_routes_authenticate_witness:
  "(''POST'', ''/wallets'', [AuthenticateFn, RouteFn PostWallets])
     \<in> set (Register [] [health_RouteSet, metrics_RouteSet, httpapi_RouteSet])"
proof -
  have "mset [health_RouteSet, metrics_RouteSet, httpapi_RouteSet] = mset [httpapi_RouteSet, health_RouteSet, metrics_RouteSet]"
    by simp
  note business_routes_authenticate [OF this, THEN conjunct2, THEN conjunct1]
  moreover have "(''POST'', ''/wallets'', PostWallets) \<in> set route_table" by (simp add: route_table_def)
  ultimately show ?thesis by blast
qed

section \<open>Health\<close>

text \<open>The name of a queue is what follows the last slash of its URL.\<close>

fun name_from :: "string \<Rightarrow> nat \<Rightarrow> string" where
  "name_from url 0 = url"
| "name_from url (Suc i) = (if url ! i = CHR ''/'' then drop (Suc i) url else name_from url i)"

definition queueNameFromURL :: "string \<Rightarrow> string" where
  "queueNameFromURL url = name_from url (length url)"

text \<open>What the two dependencies answer within the time limit is a parameter.\<close>

record health_answer =
  ha_Status :: nat
  ha_status :: string
  ha_checks :: "(string \<times> string) list"

definition Live :: health_answer where
  "Live = \<lparr>ha_Status = 200, ha_status = ''ok'', ha_checks = []\<rparr>"

definition Ready :: "'f config \<Rightarrow> goerr option \<Rightarrow> (string \<Rightarrow> goerr option) \<Rightarrow> health_answer" where
  "Ready cfg Ping GetQueueUrl =
     (let queue = GetQueueUrl (queueNameFromURL (cs_RequestQueueURL (cfg_SQS cfg)));
          ready = (Ping = None \<and> queue = None) in
      \<lparr>ha_Status = (if ready then 200 else 503), ha_status = (if ready then ''ok'' else ''degraded''),
       ha_checks = [(''postgres'', if Ping = None then ''ok'' else ''unavailable''),
                    (''sqs'', if queue = None then ''ok'' else ''unavailable'')]\<rparr>)"

lemma name_from_last:
  "i \<le> length url \<Longrightarrow> CHR ''/'' \<notin> set (drop i url) \<Longrightarrow>
    \<exists>p. url = p @ name_from url i \<and> CHR ''/'' \<notin> set (name_from url i) \<and> (p = [] \<or> last p = CHR ''/'')"
proof (induction i)
  case (Suc i)
  then have d: "drop i url = url ! i # drop (Suc i) url" by (simp add: Cons_nth_drop_Suc)
  show ?case
  proof (cases "url ! i = CHR ''/''")
    case True
    have "url = take (Suc i) url @ drop (Suc i) url" by simp
    moreover have "last (take (Suc i) url) = CHR ''/''"
      using True Suc.prems(1) by (simp add: take_Suc_conv_app_nth)
    ultimately show ?thesis using True Suc.prems(2) by (metis name_from.simps(2))
  next
    case False
    then show ?thesis using Suc d by simp
  qed
qed simp

text \<open>The readiness check asks for the right queue and tells the truth. The queue it asks for is named by the
  part of the configured URL after its last slash, the answer is 200 exactly when the database and
  that queue both answer, and each check says which of them does.\<close>

theorem readiness_is_truthful:
  "\<exists>host name. cs_RequestQueueURL (cfg_SQS cfg) = host @ name \<and> CHR ''/'' \<notin> set name \<and> (host = [] \<or> last host = CHR ''/'')
    \<and> (ha_Status (Ready cfg Ping GetQueueUrl) = (if Ping = None \<and> GetQueueUrl name = None then 200 else 503))
    \<and> (map_of (ha_checks (Ready cfg Ping GetQueueUrl)) ''postgres'' = Some (if Ping = None then ''ok'' else ''unavailable''))
    \<and> (map_of (ha_checks (Ready cfg Ping GetQueueUrl)) ''sqs'' = Some (if GetQueueUrl name = None then ''ok'' else ''unavailable''))"
proof -
  let ?url = "cs_RequestQueueURL (cfg_SQS cfg)"
  obtain host where "?url = host @ queueNameFromURL ?url" "CHR ''/'' \<notin> set (queueNameFromURL ?url)"
    "host = [] \<or> last host = CHR ''/''"
    using name_from_last [of "length ?url" ?url] by (auto simp: queueNameFromURL_def)
  then show ?thesis
    by (intro exI [of _ host] exI [of _ "queueNameFromURL ?url"]) (simp add: Ready_def Let_def)
qed

section \<open>The migration command\<close>

text \<open>The library that runs the migrations is a parameter: what opening it and each of its operations
  return. \<open>NoChange\<close> is \<open>migrate.ErrNoChange\<close>.\<close>

datatype migrated = Migrated | NoChange | MigrateErr goerr

record migrator =
  migrate_New :: "string \<Rightarrow> string \<Rightarrow> goerr option"
  migrate_Up :: migrated
  migrate_Down :: migrated
  migrate_Steps :: "64 word \<Rightarrow> migrated"
  migrate_Version :: "goerr + nat \<times> bool"

datatype exit = Usage | Fatal goerr | PrintedVersion nat bool | PrintedOk

definition exit_code :: "exit \<Rightarrow> nat" where
  "exit_code x = (case x of Usage \<Rightarrow> 1 | Fatal _ \<Rightarrow> 1 | PrintedVersion _ _ \<Rightarrow> 0 | PrintedOk \<Rightarrow> 0)"

definition migrations_path :: "'f os_env \<Rightarrow> string" where
  "migrations_path V = (if Getenv V ''MIGRATIONS_PATH'' = [] then ''migrations'' else Getenv V ''MIGRATIONS_PATH'')"

definition finish :: "migrated \<Rightarrow> exit" where
  "finish r = (case r of MigrateErr err \<Rightarrow> Fatal (WrapErr ''running'' err) | _ \<Rightarrow> PrintedOk)"

definition migrate_main :: "'f os_env \<Rightarrow> migrator \<Rightarrow> string list \<Rightarrow> exit" where
  "migrate_main V M args =
     (if length args < 2 then Usage
      else case migrate_New M (''file://'' @ migrations_path V) (postgres_dsn (cfg_Postgres (config_New V))) of
        Some err \<Rightarrow> Fatal (WrapErr ''opening migrator'' err)
      | None \<Rightarrow>
          if args ! 1 = ''up'' then finish (migrate_Up M)
          else if args ! 1 = ''down'' then
            (if 3 \<le> length args
             then (case go_Atoi (args ! 2) of
                     None \<Rightarrow> Fatal (DriverErr ''invalid step count'')
                   | Some steps \<Rightarrow> finish (migrate_Steps M (- word_of_int steps)))
             else finish (migrate_Down M))
          else if args ! 1 = ''version'' then
            (case migrate_Version M of Inl err \<Rightarrow> Fatal (WrapErr ''reading version'' err)
             | Inr (version, dirty) \<Rightarrow> PrintedVersion version dirty)
          else Usage)"

text \<open>A step count with a minus sign is taken, so a request to go down goes up.\<close>

lemma negative_down_goes_up:
  assumes "migrate_New M (''file://'' @ migrations_path V) (postgres_dsn (cfg_Postgres (config_New V))) = None"
  shows "migrate_main V M [''migrate'', ''down'', ''-1''] = finish (migrate_Steps M 1)"
proof -
  have "go_Atoi ''-1'' = Some (- 1)"
    by (simp add: go_Atoi_def Let_def digits_val_def char_digit_def is_digit_def fits64_def)
  then show ?thesis using assms by (simp add: migrate_main_def)
qed

end
