(* ===== verification/Concurrency.thy ===== *)
theory Concurrency
  imports Demo
begin

text \<open>
  The version of a wallet as the program's second line of defence. \<open>Execute\<close> and \<open>settleOne\<close> read a
  wallet under a row lock and write it back with the version they read as a condition. What follows
  does not rely on the lock: whatever transactions commit between the read and the write, a write
  that succeeds has overwritten exactly the wallet that was read.
\<close>

section \<open>Versions go up\<close>

text \<open>A wallet that a step changes gets a higher version.\<close>

definition versions_rise :: "db \<Rightarrow> db \<Rightarrow> bool" where
  "versions_rise d d' \<longleftrightarrow> (\<forall>r \<in> set (db_wallet d). \<forall>r' \<in> set (db_wallet d').
     wr_id r' = wr_id r \<longrightarrow> r' = r \<or> sint (wr_version r) < sint (wr_version r'))"

lemma wallet_ids_unique:
  "schema_ok d \<Longrightarrow> r \<in> set (db_wallet d) \<Longrightarrow> r' \<in> set (db_wallet d) \<Longrightarrow> wr_id r' = wr_id r \<Longrightarrow> r' = r"
  by (auto simp: schema_ok_def wallet_table_ok_def dest: unique_byD)

definition versions_positive :: "db \<Rightarrow> bool" where
  "versions_positive d \<longleftrightarrow> (\<forall>r \<in> set (db_wallet d). 1 \<le> sint (wr_version r))"

lemma schema_versions: "schema_ok d \<Longrightarrow> versions_positive d"
  by (auto simp: versions_positive_def schema_ok_def wallet_table_ok_def wallet_checks_def word_sle_eq)

lemma versions_positive_frame: "db_wallet d' = db_wallet d \<Longrightarrow> versions_positive d' = versions_positive d"
  by (simp add: versions_positive_def)

lemma versions_rise_same: "schema_ok d \<Longrightarrow> db_wallet d' = db_wallet d \<Longrightarrow> versions_rise d d'"
  using wallet_ids_unique by (auto simp: versions_rise_def)

lemma versions_rise_added:
  assumes "schema_ok d" "db_wallet d' = db_wallet d @ [r]" "\<forall>x \<in> set (db_wallet d). wr_id x \<noteq> wr_id r"
  shows "versions_rise d d'"
  using assms wallet_ids_unique [OF assms(1)] by (auto simp: versions_rise_def)

lemma versions_rise_trans:
  assumes "versions_rise d d1" "versions_rise d1 d2" "wr_id ` set (db_wallet d) \<subseteq> wr_id ` set (db_wallet d1)"
  shows "versions_rise d d2"
  unfolding versions_rise_def
proof (intro ballI impI)
  fix r r2 assume r: "r \<in> set (db_wallet d)" "r2 \<in> set (db_wallet d2)" "wr_id r2 = wr_id r"
  have "wr_id r \<in> wr_id ` set (db_wallet d1)" using assms(3) by (rule subsetD) (simp add: r(1))
  then obtain r1 where r1: "r1 \<in> set (db_wallet d1)" "wr_id r1 = wr_id r" by (metis imageE)
  have "r1 = r \<or> sint (wr_version r) < sint (wr_version r1)" "r2 = r1 \<or> sint (wr_version r1) < sint (wr_version r2)"
    using assms(1,2) r r1 by (simp_all add: versions_rise_def)
  then show "r2 = r \<or> sint (wr_version r) < sint (wr_version r2)" by auto
qed

text \<open>An update sets the version it read plus one; the check that versions are positive refuses the
  one that would wrap around.\<close>

lemma next_version: "1 \<le> sint (v + 1) \<Longrightarrow> sint v < sint ((v :: int64) + 1)"
  using sint_add64 [of v 1] wrap64_cases [of "sint v + 1"] sint_ge [of v] sint_lt [of v]
  by (simp split: if_splits)

lemma versions_rise_update:
  assumes ok: "schema_ok d" "versions_positive d'"
    and upd: "update_wallet_balance i v b (v + 1) tm t0 d = Inr (n, d\<lparr>db_wallet := db_wallet d'\<rparr>)"
  shows "versions_rise d d'"
  unfolding versions_rise_def
proof (intro ballI impI)
  fix r r' assume r: "r \<in> set (db_wallet d)" "r' \<in> set (db_wallet d')" "wr_id r' = wr_id r"
  obtain r0 where r0: "r0 \<in> set (db_wallet d)" and r': "r' = (if wr_id r0 = i \<and> wr_version r0 = v
      then r0\<lparr>wr_balance_minor_units := b, wr_version := v + 1, wr_updated_at := tm\<rparr> else r0)"
    using upd r(2) by (auto simp: update_wallet_Inr db_wallet_update_eq)
  have "r0 = r" using wallet_ids_unique [OF ok(1) r(1) r0] r(3) r' by (simp split: if_splits)
  moreover have "1 \<le> sint (wr_version r')" using ok(2) r(2) by (simp add: versions_positive_def)
  ultimately show "r' = r \<or> sint (wr_version r) < sint (wr_version r')"
    using r' next_version by (auto split: if_splits)
qed

section \<open>Every step\<close>

lemma effect_still_wallets:
  assumes "effect_still R t ev d d'"
  shows "db_wallet d' = db_wallet d"
proof -
  obtain o1 where "d' = d\<lparr>db_tx := db_tx d', db_outbox := db_outbox d @ [o1]\<rparr>"
    using assms unfolding effect_still_def by blast
  from arg_cong [OF this, of db_wallet] show ?thesis by simp
qed

lemma settles_versions:
  assumes st: "settles E R tx w dec now d d' out" and at: "wallet_at d (tx_walletID tx) w"
    and ok: "schema_ok d" "versions_positive d'"
  shows "versions_rise d d'"
  using st
proof (cases rule: settlesE)
  case (moved w' t)
  obtain row where row: "wallet_of_row row = Inr w" using at by (rule wallet_atD)
  have "wlt_version w' = wlt_version w + 1"
    using applyMovement_Inr [OF moved(4)] wallet_of_row_fields [OF row] by simp
  moreover obtain n t0 where "update_wallet_balance (wlt_id w') (wlt_version w) (minorUnits (wlt_balance w')) (wlt_version w')
      (timestamptz (wlt_updatedAt w')) t0 d = Inr (n, d\<lparr>db_wallet := db_wallet d'\<rparr>)"
    using moved(6) unfolding effect_moved_def by blast
  ultimately show ?thesis using versions_rise_update [OF ok] by simp
qed (auto intro: versions_rise_same [OF ok(1)] dest: effect_still_wallets)

lemma service_step_versions:
  assumes step: "service_step S d d'" and ok: "schema_ok d" "versions_positive d'"
  shows "versions_rise d d'"
  using step
proof cases
  case idle
  then show ?thesis by (simp add: versions_rise_same [OF ok(1)])
next
  case (opened E ocmd now wlt)
  have "\<exists>r. db_wallet d' = db_wallet d @ [r] \<and> (\<forall>x \<in> set (db_wallet d). wr_id x \<noteq> wr_id r)"
    using opened(2)
  proof (cases rule: open_specE)
    case (funded i t d1 oid funding d2 lid entry i1 i2 es o1 o2)
    obtain txs where "d2 = d1\<lparr>db_tx := txs\<rparr>" using save_insert.saved_db [OF funded(6)] by blast
    then show ?thesis using funded(1,3) by (auto simp: insert_wallet_Inr)
  qed (auto simp: insert_wallet_Inr)
  then show ?thesis using versions_rise_added [OF ok(1)] by blast
next
  case (wagered E cmd now out)
  from wagered(2) show ?thesis
  proof (cases rule: wager_specE)
    case (fresh w i tx dec tx' d1)
    have same: "db_wallet d' = db_wallet d1" using fresh(9) by (auto simp: inbox_recorded_def split: if_splits)
    have "tx_walletID tx' = pc_WalletID cmd"
      using NewExternal_fields [OF fresh(6)] decides_frame [OF fresh(7)] by (auto simp: external_params_def)
    then have "versions_rise d d1"
      using settles_versions [OF fresh(8) _ ok(1)] fresh(1) ok(2) versions_positive_frame [OF same] by simp
    then show ?thesis by (simp add: versions_rise_def same)
  qed (auto intro!: versions_rise_same [OF ok(1)] simp: inbox_recorded_def split: if_splits)
next
  case (resolved E p rec now moved)
  from resolved(2) show ?thesis
  proof (cases rule: reference_specE)
    case (waiting t w dec t1 s n)
    then show ?thesis
      by (auto simp: update_reference_attempt_def update_tx_rows_Inr intro: versions_rise_same [OF ok(1)])
  next
    case (resolved t w dec t1 out)
    have "tx_walletID t1 = tx_walletID t"
      using resolved(5) by (auto elim!: decides_reversalE simp: ResolveReference_Inr_iff split: if_splits)
    then show ?thesis using settles_versions [OF resolved(7) _ ok] resolved(4) by simp
  qed (auto intro: versions_rise_same [OF ok(1)] dest: effect_still_wallets)
next
  case (failed rec now recorded)
  then show ?thesis by (auto elim!: failure_specE intro: versions_rise_same [OF ok(1)] dest: effect_still_wallets)
next
  case published
  then show ?thesis using only_outbox_tables by (blast intro: versions_rise_same [OF ok(1)])
qed

lemma wallets_stay: "db_extends d d' \<Longrightarrow> wr_id ` set (db_wallet d) \<subseteq> wr_id ` set (db_wallet d')"
proof
  fix k assume "db_extends d d'" "k \<in> wr_id ` set (db_wallet d)"
  then obtain r where "r \<in> set (db_wallet d)" "k = wr_id r" "grows same_wallet (db_wallet d) (db_wallet d')"
    by (auto simp: db_extends_def)
  then show "k \<in> wr_id ` set (db_wallet d')" using grows_member same_wallet_def by fastforce
qed

lemma reachable_versions:
  assumes "(transaction S)\<^sup>*\<^sup>* d d'" "schema_ok d"
  shows "versions_rise d d' \<and> schema_ok d'"
  using assms
proof (induction rule: rtranclp_induct)
  case base
  then show ?case by (simp add: versions_rise_same)
next
  case (step d1 d2)
  have ok: "schema_ok d1" "schema_ok d2" using step schema.transaction_keeps by blast+
  have "versions_rise d1 d2"
    by (rule service_step_versions [OF transaction_refines [OF step(2)] ok(1) schema_versions [OF ok(2)]])
  then show ?case
    using versions_rise_trans step ok wallets_stay [OF reachable_extends [OF step(1)]] by blast
qed

section \<open>No update is lost\<close>

lemma wallet_found:
  assumes "schema_ok d" "row \<in> set (db_wallet d)"
  shows "find (\<lambda>r. wr_id r = wr_id row) (db_wallet d) = Some row"
proof -
  have "find (\<lambda>r. wr_id r = wr_id row) (db_wallet d) \<noteq> None" using assms(2) by (auto simp: find_None_iff)
  then obtain r where r: "find (\<lambda>r. wr_id r = wr_id row) (db_wallet d) = Some r" by blast
  then have "r \<in> set (db_wallet d)" "wr_id r = wr_id row" by (auto simp: find_Some_iff)
  then show ?thesis using wallet_ids_unique [OF assms] r by simp
qed

text \<open>A conditional update that changes a row has found it as it was read.\<close>

lemma UpdateBalance_result:
  assumes "walletRepo_UpdateBalance E q wlt v w = (r, w')"
  shows "case r of Inr _ \<Rightarrow> (\<exists>row \<in> set (db_wallet (wd_db w)). wr_id row = wlt_id wlt \<and> wr_version row = v)
    | Inl _ \<Rightarrow> wd_db w' = wd_db w"
proof -
  let ?upd = "update_wallet_balance (wlt_id wlt) v (minorUnits (wlt_balance wlt)) (wlt_version wlt) (timestamptz (wlt_updatedAt wlt))"
  obtain a w1 where run: "sql E q ?upd w = (a, w1)" by (metis prod.exhaust)
  show ?thesis
  proof (cases a)
    case (Inl e)
    then show ?thesis using assms run sql_fail by (auto simp: walletRepo_UpdateBalance_def bindP_def wrapP_def)
  next
    case (Inr n)
    then obtain t where up: "?upd t (wd_db w) = Inr (n, wd_db w1)" using run by (auto elim: sql_run_db)
    show ?thesis
    proof (cases "n = 0")
      case True
      then have none: "\<forall>r \<in> set (db_wallet (wd_db w)). \<not> (wr_id r = wlt_id wlt \<and> wr_version r = v)"
        using up by (simp add: update_wallet_Inr filter_empty_conv)
      have "map (\<lambda>r. if wr_id r = wlt_id wlt \<and> wr_version r = v then f r else r) (db_wallet (wd_db w)) = db_wallet (wd_db w)" for f
        by (rule map_idI) (simp add: none)
      then have "wd_db w1 = wd_db w" using up by (simp add: update_wallet_Inr)
      then show ?thesis using assms run Inr True
        by (auto simp: walletRepo_UpdateBalance_def bindP_def wrapP_def failP_def)
    next
      case False
      then have "\<exists>row \<in> set (db_wallet (wd_db w)). wr_id row = wlt_id wlt \<and> wr_version row = v"
        using up by (auto simp: update_wallet_Inr filter_empty_conv)
      moreover have "r = Inr ()" using assms run Inr False
        by (auto simp: walletRepo_UpdateBalance_def bindP_def wrapP_def retP_def)
      ultimately show ?thesis by simp
    qed
  qed
qed

text \<open>C21: no update is lost, even without the row lock. A wallet is read, then any transactions of the
  service commit, of any number of replicas, and then it is written with the version that was read:
  if the write succeeds, the wallet was still exactly the one that was read; if the wallet was
  changed in between, the write fails and changes nothing.\<close>

theorem no_lost_update:
  assumes "(transaction S)\<^sup>*\<^sup>* empty_db (wd_db w0)"
    and "walletRepo_GetForUpdate E q i w0 = (Inr wlt, w1)"
    and "(transaction S)\<^sup>*\<^sup>* (wd_db w1) (wd_db w2)"
    and "wlt_id wlt' = i" and "walletRepo_UpdateBalance E' q' wlt' (wlt_version wlt) w2 = (r, w3)"
  shows "case r of Inr _ \<Rightarrow> wallet_at (wd_db w2) i wlt
      \<and> find (\<lambda>row. wr_id row = i) (db_wallet (wd_db w2)) = find (\<lambda>row. wr_id row = i) (db_wallet (wd_db w1))
    | Inl _ \<Rightarrow> wd_db w3 = wd_db w2"
proof (cases r)
  case (Inl e)
  then show ?thesis using UpdateBalance_result [OF assms(5)] by simp
next
  case (Inr u)
  have ok: "schema_ok (wd_db w0)" using reachable_versions [OF assms(1)] by simp
  obtain row0 where row0: "find (\<lambda>r. wr_id r = i) (db_wallet (wd_db w0)) = Some row0" "wallet_of_row row0 = Inr wlt"
    and same: "wd_db w1 = wd_db w0" using assms(2) by (rule walletRepo_GetForUpdate_run)
  then have in0: "row0 \<in> set (db_wallet (wd_db w0))" "wr_id row0 = i" by (auto simp: find_Some_iff)
  have rise: "versions_rise (wd_db w0) (wd_db w2)" and ok2: "schema_ok (wd_db w2)"
    using reachable_versions [OF assms(3)] ok same by simp_all
  obtain row2 where row2: "row2 \<in> set (db_wallet (wd_db w2))" "wr_id row2 = i" "wr_version row2 = wlt_version wlt"
    using UpdateBalance_result [OF assms(5)] Inr assms(4) by auto
  have "wlt_version wlt = wr_version row0" using wallet_of_row_fields [OF row0(2)] by simp
  then have eq: "row2 = row0"
    using rise [unfolded versions_rise_def, rule_format, OF in0(1) row2(1)] in0(2) row2(2,3) by simp
  have "find (\<lambda>r. wr_id r = i) (db_wallet (wd_db w2)) = Some row0"
    using wallet_found [OF ok2 row2(1)] row2(2) eq by simp
  then show ?thesis using row0 Inr same by (simp add: wallet_at_def)
qed

text \<open>The wallet of the example is read before its bet and written after it.\<close>

theorem no_lost_update_witness:
  "\<exists>e w3. walletRepo_UpdateBalance calm_env Tx
       \<lparr>wlt_id = 1000, wlt_playerID = 7, wlt_currency = ''BRL'', wlt_balance = \<lparr>minorUnits = 4000, moneyCurrency = ''BRL''\<rparr>,
        wlt_version = 2, wlt_createdAt = 1000000, wlt_updatedAt = 1000000\<rparr> 1 (demo_world demo_db2 0) = (Inl e, w3)
     \<and> wd_db w3 = demo_db2"
proof -
  let ?read = "\<lparr>wlt_id = 1000, wlt_playerID = 7, wlt_currency = ''BRL'', wlt_balance = \<lparr>minorUnits = 5000, moneyCurrency = ''BRL''\<rparr>,
        wlt_version = 1, wlt_createdAt = 1000000, wlt_updatedAt = 1000000\<rparr>"
    and ?new = "\<lparr>wlt_id = 1000, wlt_playerID = 7, wlt_currency = ''BRL'', wlt_balance = \<lparr>minorUnits = 4000, moneyCurrency = ''BRL''\<rparr>,
        wlt_version = 2, wlt_createdAt = 1000000, wlt_updatedAt = 1000000\<rparr>"
  obtain w1 where get: "walletRepo_GetForUpdate calm_env Pool 1000 (demo_world demo_db1 0) = (Inr ?read, w1)"
      "wd_db w1 = demo_db1"
    by (simp add: demo_world_def demo_db1_tables demo_rows eval_simps)
  obtain r w3 where put: "walletRepo_UpdateBalance calm_env Tx ?new 1 (demo_world demo_db2 0) = (r, w3)"
    by (metis prod.exhaust)
  have "\<not> wallet_at demo_db2 1000 ?read"
    by (simp add: wallet_at_def demo_db2_tables demo_rows wallet_of_row_def RehydrateWallet_def bindR_def FromMinorUnits_def)
  with no_lost_update [of "uuid_String calm_env" "demo_world demo_db1 0" calm_env Pool 1000 ?read w1 "demo_world demo_db2 0" ?new calm_env Tx r w3]
    demo_step1 demo_step2 get put show ?thesis
    by (cases r) auto
qed

end
