(* ===== verification/Waiting.thy ===== *)
theory Waiting
  imports Examples
begin

text \<open>
  How long a reversal waits for the operation it names. A pass of \<open>settleOne\<close> over the record that
  the worker has just claimed either ends the wait, or counts one more attempt, of which there are only as
  many as the policy allows, or fails, and then counts nothing: the attempt is recorded in the transaction
  that is rolled back. \<open>recordPermanentFailure\<close>, which is there for the passes that fail, looks at the
  same count, so it gives nothing up before the attempts that were recorded allow it.
\<close>

section \<open>One pass\<close>

text \<open>\<open>row_at d i row\<close>: the row of a transaction. \<open>claimed d i rec\<close>: the record that
  \<open>ClaimPendingReference\<close> makes of it.\<close>

definition row_at :: "db \<Rightarrow> uuid \<Rightarrow> tx_row \<Rightarrow> bool" where
  "row_at d i row \<longleftrightarrow> row \<in> set (db_tx d) \<and> tr_id row = i"

definition waiting_at :: "db \<Rightarrow> uuid \<Rightarrow> tx_row \<Rightarrow> bool" where
  "waiting_at d i row \<longleftrightarrow> row_at d i row \<and> tr_status row = ''PENDING_REFERENCE''"

definition claimed :: "db \<Rightarrow> uuid \<Rightarrow> pending_record \<Rightarrow> bool" where
  "claimed d i rec \<longleftrightarrow> (\<exists>row. row_at d i row \<and> toDomain row = Inr (pr_Transaction rec)
     \<and> pr_Attempts rec = tr_reference_attempts row \<and> pr_FirstSeenAt rec = tr_reference_first_seen_at row)"

lemma row_at_unique:
  "schema_ok d \<Longrightarrow> row_at d i r \<Longrightarrow> row_at d i r' \<Longrightarrow> r' = r"
  by (auto simp: row_at_def schema_ok_def tx_table_ok_def dest: unique_byD)

lemma stored_tx_row:
  assumes "stored_tx d i t"
  obtains row where "row_at d i row" "toDomain row = Inr t"
  using assms by (auto simp: stored_tx_def row_at_def find_Some_iff in_set_conv_nth)

lemma claimed_id: "claimed d i rec \<Longrightarrow> tx_id (pr_Transaction rec) = i"
  using toDomain_row by (auto simp: claimed_def row_at_def)

text \<open>What the worker's claim returns are such records.\<close>

lemma claim_is_claimed:
  assumes run: "transactionRepo_ClaimPendingReference E q limit t w = (Inr recs, w')" and "rec \<in> set recs"
  shows "claimed (wd_db w) (tx_id (pr_Transaction rec)) rec"
proof -
  let ?rec = "\<lambda>row. bindR (toDomain row) (\<lambda>tx. Inr \<lparr>pr_Transaction = tx, pr_Attempts = tr_reference_attempts row,
        pr_FirstSeenAt = tr_reference_first_seen_at row\<rparr>)"
  have "mapR ?rec (due_references limit t (wd_db w)) = Inr recs"
    using run by (auto simp: transactionRepo_ClaimPendingReference_def run_simps query_def elim!: sql_run_db)
  moreover have "set (due_references limit t (wd_db w)) \<subseteq> set (db_tx (wd_db w))"
    by (auto simp: due_references_def dest!: in_set_takeD)
  ultimately obtain rows where "mapR ?rec rows = Inr recs" "set rows \<subseteq> set (db_tx (wd_db w))" by blast
  then show ?thesis using assms(2)
  proof (induction rows arbitrary: recs)
    case (Cons row rows)
    then show ?case
      using toDomain_row by (fastforce simp: bindR_Inr_iff claimed_def row_at_def)
  qed simp
qed

section \<open>What a pass does\<close>

text \<open>A pass that ends the wait leaves a terminal transaction.\<close>

lemma saved_status:
  assumes "stored_tx d i t" "schema_ok d" "tx_frozen t' = tx_frozen t"
    and "effect_still tx_updated t' ev d d' \<or> effect_moved E tx_updated t' w w' dir now d d'"
  shows "\<exists>row'. row_at d' i row' \<and> tr_status row' = status_string (tx_status t')"
proof -
  have "tx_updated t' d (d\<lparr>db_tx := db_tx d'\<rparr>)"
    using assms(4) unfolding effect_still_def effect_moved_def by blast
  then obtain r' where "replaced t' r' d (d\<lparr>db_tx := db_tx d'\<rparr>)" using stored_tx_saves [OF assms(1-3)] by blast
  then have "r' \<in> set (db_tx d')" "tr_id r' = tx_id t'" "tr_status r' = status_string (tx_status t')"
    by (simp_all add: replaced_def row_for_def)
  moreover have "tx_id t' = tx_id t" using assms(3) by (cases t; cases t') (simp add: tx_frozen_def)
  moreover have "tx_id t = i" using assms(1) toDomain_row by (auto elim!: stored_tx_row simp: row_at_def)
  ultimately show ?thesis by (auto simp: row_at_def)
qed

lemma saved_terminal:
  assumes "stored_tx d i t" "schema_ok d" "tx_frozen t' = tx_frozen t" "Tx_IsTerminal t'"
    and "effect_still tx_updated t' ev d d' \<or> effect_moved E tx_updated t' w w' dir now d d'"
  shows "\<exists>row'. row_at d' i row' \<and> terminal_status (tr_status row')"
  using saved_status [OF assms(1-3,5)] assms(4)
  by (auto simp: Tx_IsTerminal_def Status_IsTerminal_def terminal_status_def)

lemma settles_terminal:
  assumes st: "settles E tx_updated t1 w dec now d d' out" and "dc_kind dec \<noteq> DecisionPendingReference"
    and "stored_tx d i t" "schema_ok d" "tx_frozen t1 = tx_frozen t"
  shows "\<exists>row'. row_at d' i row' \<and> terminal_status (tr_status row')"
  using st
proof (cases rule: settlesE)
  case (rejected u)
  show ?thesis
    by (rule saved_terminal [OF assms(3,4) _ _ disjI1 [OF rejected(4)]])
      (use rejected assms(5) in \<open>auto simp: MarkRejected_Inr_iff tx_frozen_def Tx_IsTerminal_def Status_IsTerminal_def\<close>)
next
  case (refused err u)
  show ?thesis
    by (rule saved_terminal [OF assms(3,4) _ _ disjI1 [OF refused(7)]])
      (use refused assms(5) in \<open>auto simp: MarkRejected_Inr_iff tx_frozen_def Tx_IsTerminal_def Status_IsTerminal_def\<close>)
next
  case (still u)
  show ?thesis
    by (rule saved_terminal [OF assms(3,4) _ _ disjI1 [OF still(5)]])
      (use still assms(5) in \<open>auto simp: MarkProcessed_Inr_iff tx_frozen_def Tx_IsTerminal_def Status_IsTerminal_def\<close>)
next
  case (moved w' u)
  show ?thesis
    by (rule saved_terminal [OF assms(3,4) _ _ disjI2 [OF moved(6)]])
      (use moved assms(5) in \<open>auto simp: MarkProcessed_Inr_iff tx_frozen_def Tx_IsTerminal_def Status_IsTerminal_def\<close>)
qed (use assms(2) in simp)

text \<open>The result of a pass over a waiting reversal.\<close>

definition passed :: "reference_policy \<Rightarrow> pending_record \<Rightarrow> time \<Rightarrow> uuid \<Rightarrow> db \<Rightarrow> bool \<Rightarrow> bool" where
  "passed p rec now i d' moved \<longleftrightarrow>
     (if moved then \<exists>row'. row_at d' i row' \<and> terminal_status (tr_status row')
      else \<not> exhausted p rec now \<and> (\<exists>row'. waiting_at d' i row' \<and> tr_reference_attempts row' = pr_Attempts rec + 1
        \<and> tr_reference_first_seen_at row' = pr_FirstSeenAt rec
        \<and> tr_reference_next_attempt_at row' = timestamptz (time_Add now (ReferencePolicy_backoffFor p (pr_Attempts rec + 1)))))"

lemma pass_result:
  assumes spec: "reference_spec E p rec now d d' moved" and ok: "schema_ok d"
    and row: "waiting_at d i row" and rec: "claimed d i rec"
  shows "passed p rec now i d' moved"
  using spec
proof (cases rule: reference_specE)
  note i = claimed_id [OF rec]
  {
    case (gone t)
    obtain r where "row_at d i r" "toDomain r = Inr t" using gone(3) i by (auto elim: stored_tx_row)
    then have "toDomain row = Inr t" using row row_at_unique [OF ok] by (auto simp: waiting_at_def)
    then have "status_string (tx_status t) = ''PENDING_REFERENCE''" "Status_IsValid (tx_status t)"
      using row toDomain_row toDomain_valid by (auto simp: waiting_at_def)
    then show ?thesis using gone(4) by (cases "tx_status t") auto
  next
    case (waiting t w dec t1 s n)
    have "tx_id t = i" using waiting(2) toDomain_row by (auto elim!: stored_tx_row simp: row_at_def i)
    obtain r0 where r0: "row_at d i r0" "pr_FirstSeenAt rec = tr_reference_first_seen_at r0"
      using rec by (auto simp: claimed_def)
    then have "r0 = row" using row row_at_unique [OF ok] by (auto simp: waiting_at_def)
    let ?tm = "timestamptz (time_Add now (ReferencePolicy_backoffFor p (pr_Attempts rec + 1)))"
    let ?new = "row\<lparr>tr_reference_attempts := pr_Attempts rec + 1, tr_reference_next_attempt_at := ?tm\<rparr>"
    have "db_tx d' = map (\<lambda>r. if tr_id r = i \<and> tr_status r = ''PENDING_REFERENCE''
        then r\<lparr>tr_reference_attempts := pr_Attempts rec + 1, tr_reference_next_attempt_at := ?tm\<rparr> else r) (db_tx d)"
      using waiting(8) \<open>tx_id t = i\<close> by (simp add: update_reference_attempt_def update_tx_rows_Inr)
    moreover have "row \<in> set (db_tx d)" "tr_id row = i" "tr_status row = ''PENDING_REFERENCE''"
      using row by (simp_all add: waiting_at_def row_at_def)
    ultimately have "?new \<in> set (db_tx d')" by force
    then have "waiting_at d' i ?new" using row by (simp add: waiting_at_def row_at_def)
    then show ?thesis
      using waiting(1,7) r0(2) \<open>r0 = row\<close> unfolding passed_def by (auto intro!: exI [of _ ?new])
  next
    case (expired t w dec t1 t')
    have "tx_frozen t' = tx_frozen t" "Tx_IsTerminal t'"
      using expired(8) by (auto simp: MarkRejected_Inr_iff tx_frozen_def Tx_IsTerminal_def Status_IsTerminal_def)
    then show ?thesis
      using saved_terminal [OF expired(2) ok _ _ disjI1 [OF expired(9)]] expired(1) i by (simp add: passed_def)
  next
    case (resolved t w dec t1 out)
    have "tx_frozen t1 = tx_frozen t"
      using resolved(5) by (auto elim!: decides_reversalE simp: ResolveReference_Inr_iff tx_frozen_def split: if_splits)
    then show ?thesis
      using settles_terminal [OF resolved(7,6,2) ok] resolved(1) i by (simp add: passed_def)
  }
qed

lemma settleOne_pass:
  assumes run: "settleOne E p rec w = (Inr moved, w')" and "schema_ok (wd_db w)"
    and "waiting_at (wd_db w) i row" "claimed (wd_db w) i rec"
  shows "passed p rec (clock_Now E (wd_clock w)) i (wd_db w') moved"
proof -
  have "within E (settle_one_body E p rec (clock_Now E (wd_clock w))) (w\<lparr>wd_clock := Suc (wd_clock w)\<rparr>) = (Inr moved, w')"
    using run by (simp add: settleOne_def bindP_def read_clock_def)
  from within_refines [OF this, of "reference_spec E p rec (clock_Now E (wd_clock w))"]
  have "reference_spec E p rec (clock_Now E (wd_clock w)) (wd_db w) (wd_db w') moved"
    using settle_one_body_run by auto
  from pass_result [OF this assms(2-4)] show ?thesis .
qed

text \<open>A pass that fails has recorded nothing.\<close>

lemma settleOne_fails:
  assumes "settleOne E p rec w = (Inl err, w')" and "\<not> unacknowledged E err"
  shows "wd_db w' = wd_db w"
proof -
  have "within E (settle_one_body E p rec (clock_Now E (wd_clock w))) (w\<lparr>wd_clock := Suc (wd_clock w)\<rparr>) = (Inl err, w')"
    using assms(1) by (simp add: settleOne_def bindP_def read_clock_def)
  from within_refines [OF this, of "reference_spec E p rec (clock_Now E (wd_clock w))"]
  show ?thesis using settle_one_body_run assms(2) by auto
qed

text \<open>What is done after a failed pass.\<close>

lemma recordPermanentFailure_early:
  "pr_Attempts rec + 1 < rp_MaxAttempts p \<Longrightarrow>
     \<exists>w'. recordPermanentFailure E p rec w = (Inr False, w') \<and> wd_db w' = wd_db w"
  by (simp add: recordPermanentFailure_def bindP_def ctx_err_def retP_def)

lemma recordPermanentFailure_records:
  assumes run: "recordPermanentFailure E p rec w = (Inr True, w')" and ok: "schema_ok (wd_db w)" and rec: "claimed (wd_db w) i rec"
  shows "rp_MaxAttempts p \<le> pr_Attempts rec + 1 \<and> (\<exists>row'. row_at (wd_db w') i row' \<and> tr_status row' = ''FAILED'')"
proof -
  let ?now = "clock_Now E (wd_clock w)" and ?w = "w\<lparr>wd_ctx := Suc (wd_ctx w), wd_clock := Suc (wd_clock w)\<rparr>"
  have att: "rp_MaxAttempts p \<le> pr_Attempts rec + 1" and body: "within E (permanent_failure_body E rec ?now) ?w = (Inr True, w')"
    using run
    by (auto simp: recordPermanentFailure_def bindP_def ctx_err_def read_clock_def tryP_def retP_def
        split: if_splits prod.split_asm sum.split_asm)
  from within_refines [OF body, of "failure_spec rec ?now"] have "failure_spec rec ?now (wd_db w) (wd_db w') True"
    using permanent_failure_body_run by auto
  then show ?thesis
  proof (cases rule: failure_specE)
    case (failed t t')
    have "tx_frozen t' = tx_frozen t" "tx_status t' = Failed"
      using failed(4) by (auto simp: MarkFailed_Inr_iff tx_frozen_def)
    then show ?thesis
      using saved_status [OF failed(2) ok _ disjI1 [OF failed(5)]] claimed_id [OF rec] att by simp
  qed simp
qed

lemma waiting_schema: "schema_ok waiting_db"
proof -
  have "reaches calm_env demo_db1 waiting_db"
    using keepsD [OF keeps_reaches_Execute [of calm_env demo_db1 orphan_refund] surjective_pairing, of "demo_world demo_db1 100"]
    by (simp add: waiting_db_def)
  then show ?thesis using schema.transactions_keep [OF rtranclp_trans [OF demo_step1]] by simp
qed

section \<open>The wait is bounded\<close>

text \<open>\<open>n\<close> passes over the waiting transaction \<open>i\<close> that succeed and leave it waiting, and \<open>f\<close> that fail, each with
  the record as it was claimed before; in between the service may do anything else that leaves the
  transaction as it is.\<close>

inductive waits :: "reference_policy \<Rightarrow> uuid \<Rightarrow> (uuid \<Rightarrow> string) \<Rightarrow> db \<Rightarrow> nat \<Rightarrow> nat \<Rightarrow> db \<Rightarrow> bool" for p i S d where
  begins: "waits p i S d 0 0 d"
| pass: "\<lbrakk>waits p i S d n f (wd_db w); claimed (wd_db w) i rec; uuid_String E = S; settleOne E p rec w = (Inr False, w')\<rbrakk>
    \<Longrightarrow> waits p i S d (Suc n) f (wd_db w')"
| fails: "\<lbrakk>waits p i S d n f (wd_db w); claimed (wd_db w) i rec; uuid_String E = S; settleOne E p rec w = (Inl err, w');
      \<not> unacknowledged E err\<rbrakk>
    \<Longrightarrow> waits p i S d n (Suc f) (wd_db w')"
| others: "\<lbrakk>waits p i S d n f d1; transaction S d1 d2; \<And>row. row_at d1 i row \<Longrightarrow> row_at d2 i row\<rbrakk>
    \<Longrightarrow> waits p i S d n f d2"

lemma settleOne_transaction:
  assumes "settleOne E p rec w = (r, w')"
  shows "transaction (uuid_String E) (wd_db w) (wd_db w')"
  using transaction.settles_reference [of E "uuid_String E" p rec "clock_Now E (wd_clock w)"
      "w\<lparr>wd_clock := Suc (wd_clock w)\<rparr>" r w'] assms
  by (simp add: settleOne_def bindP_def read_clock_def)

text \<open>After \<open>n\<close> such passes the transaction is still the waiting one, and \<open>n\<close> attempts more are counted, all of
  them within the policy; the passes that failed have left no trace.\<close>

definition still_waits :: "reference_policy \<Rightarrow> uuid \<Rightarrow> tx_row \<Rightarrow> nat \<Rightarrow> db \<Rightarrow> bool" where
  "still_waits p i row n d' \<longleftrightarrow> (\<exists>row'. waiting_at d' i row'
     \<and> tr_reference_attempts row' = tr_reference_attempts row + int n
     \<and> tr_reference_first_seen_at row' = tr_reference_first_seen_at row
     \<and> (n \<noteq> 0 \<longrightarrow> tr_reference_attempts row' < rp_MaxAttempts p))"

lemma waits_counts:
  assumes "waits p i S d n f d'" "schema_ok d" "waiting_at d i row"
  shows "schema_ok d' \<and> still_waits p i row n d'"
  using assms(1)
proof (induction rule: waits.induct)
  case begins
  then show ?case using assms(2,3) by (auto simp: still_waits_def)
next
  case (pass n f w rec E w')
  then obtain row1 where row1: "waiting_at (wd_db w) i row1"
      "tr_reference_attempts row1 = tr_reference_attempts row + int n"
      "tr_reference_first_seen_at row1 = tr_reference_first_seen_at row" and ok: "schema_ok (wd_db w)"
    by (auto simp: still_waits_def)
  have "passed p rec (clock_Now E (wd_clock w)) i (wd_db w') False"
    by (rule settleOne_pass [OF pass.hyps(4) ok row1(1) pass.hyps(2)])
  moreover have "pr_Attempts rec = tr_reference_attempts row1 \<and> pr_FirstSeenAt rec = tr_reference_first_seen_at row1"
    using pass.hyps(2) row1(1) row_at_unique [OF ok] by (auto simp: claimed_def waiting_at_def)
  moreover have "schema_ok (wd_db w')"
    using schema.transaction_keeps [OF settleOne_transaction [OF pass.hyps(4)] ok] .
  ultimately show ?case using row1 by (auto simp: passed_def exhausted_def still_waits_def)
next
  case (fails n f w rec E err w')
  then show ?case using settleOne_fails by simp
next
  case (others n f d1 d2)
  then show ?case using schema.transaction_keeps [OF others.hyps(2)] by (fastforce simp: waiting_at_def still_waits_def)
qed


lemma settleOne_record:
  "tx_id (pr_Transaction r1) = tx_id (pr_Transaction r2) \<Longrightarrow> pr_Attempts r1 = pr_Attempts r2
    \<Longrightarrow> pr_FirstSeenAt r1 = pr_FirstSeenAt r2 \<Longrightarrow> settleOne E p r1 = settleOne E p r2"
  unfolding settleOne_def settle_one_body_def by (simp only:)


end
