(* ===== verification/Draining.thy ===== *)
theory Draining
  imports Publishing Examples
begin

text \<open>
  What a run of the outbox publisher achieves when nothing fails: every event that was due is
  published. The lemmas are triples of total correctness over a healthy environment, with one rule
  for each combinator.
\<close>

section \<open>Runs that succeed\<close>

text \<open>No statement fails, every commit is acknowledged, the context is not cancelled, and the clock does not
  go back.\<close>

definition healthy :: "env \<Rightarrow> bool" where
  "healthy E \<longleftrightarrow> (\<forall>n. driver_fault E n = None \<and> commit_result E n = CommitOk \<and> ctx_Err E n = None
     \<and> clock_Now E n \<le> clock_Now E (Suc n))"

lemma healthyD:
  "healthy E \<Longrightarrow> driver_fault E n = None" "healthy E \<Longrightarrow> commit_result E n = CommitOk"
  "healthy E \<Longrightarrow> ctx_Err E n = None"
  by (simp_all add: healthy_def)

lemma healthy_clock: "healthy E \<Longrightarrow> m \<le> n \<Longrightarrow> clock_Now E m \<le> clock_Now E n"
  by (rule lift_Suc_mono_le) (auto simp: healthy_def)

text \<open>\<open>yields f w Q\<close>: the run of \<open>f\<close> succeeds, and \<open>Q\<close> holds of its result and the tables it leaves.\<close>

definition yields :: "'a prog \<Rightarrow> world \<Rightarrow> ('a \<Rightarrow> db \<Rightarrow> bool) \<Rightarrow> bool" where
  "yields f w Q \<longleftrightarrow> (\<exists>x w'. f w = (Inr x, w') \<and> (wd_aborted w' \<longrightarrow> wd_aborted w)
     \<and> wd_clock w \<le> wd_clock w' \<and> Q x (wd_db w'))"

lemma yields_weaken: "yields f w R \<Longrightarrow> (\<And>x d. R x d \<Longrightarrow> Q x d) \<Longrightarrow> yields f w Q"
  unfolding yields_def by blast

lemma yields_ret: "Q x (wd_db w) \<Longrightarrow> yields (retP x) w Q"
  by (simp add: yields_def retP_def)

lemma yields_bind:
  assumes "yields f w R"
    and "\<And>x w'. \<lbrakk>R x (wd_db w'); wd_aborted w' \<longrightarrow> wd_aborted w; wd_clock w \<le> wd_clock w'\<rbrakk> \<Longrightarrow> yields (g x) w' Q"
  shows "yields (bindP f g) w Q"
proof -
  obtain x w' where f: "f w = (Inr x, w')" "wd_aborted w' \<longrightarrow> wd_aborted w" "wd_clock w \<le> wd_clock w'" "R x (wd_db w')"
    using assms(1) by (auto simp: yields_def)
  from assms(2) [OF f(4,2,3)] show ?thesis using f by (auto simp: yields_def bindP_def intro: order_trans)
qed

lemma yields_wrap: "yields f w Q \<Longrightarrow> yields (wrapP s f) w Q"
  by (auto simp: yields_def wrapP_def)

lemma yields_try: "yields f w Q \<Longrightarrow> yields (tryP f) w (\<lambda>r d. \<exists>x. r = Inr x \<and> Q x d)"
  by (auto simp: yields_def tryP_def)

lemma yields_clock: "yields (read_clock E) w (\<lambda>t d. t = clock_Now E (wd_clock w) \<and> d = wd_db w)"
  by (simp add: yields_def read_clock_def)

lemma yields_ctx: "healthy E \<Longrightarrow> yields (ctx_err E) w (\<lambda>c d. c = None \<and> d = wd_db w)"
  by (simp add: yields_def ctx_err_def healthyD)

lemma yields_sql:
  assumes "healthy E" "\<not> wd_aborted w" "\<And>now. stmt now (wd_db w) = Inr (x, d)"
  shows "yields (sql E q stmt) w (\<lambda>y e. y = x \<and> e = d)"
  using assms by (simp add: yields_def sql_def Let_def healthyD)

text \<open>A transaction that leaves the journal alone is committed.\<close>

lemma yields_within:
  assumes ok: "healthy E"
    and body: "\<And>w1. \<lbrakk>wd_db w1 = wd_db w; \<not> wd_aborted w1; wd_clock w1 = wd_clock w\<rbrakk>
      \<Longrightarrow> yields body w1 (\<lambda>x d. Q x d \<and> db_journal d = db_journal (wd_db w))"
  shows "yields (within E body) w Q"
proof -
  let ?w1 = "w\<lparr>wd_calls := Suc (wd_calls w), wd_txnow := pg_now E (wd_calls w), wd_aborted := False\<rparr>"
  have starts: "begin_tx E w = (Inr (), ?w1)" using ok by (simp add: begin_tx_def Let_def healthyD)
  obtain x w2 where run: "body ?w1 = (Inr x, w2)" "\<not> wd_aborted w2" "wd_clock w \<le> wd_clock w2" "Q x (wd_db w2)"
      "db_journal (wd_db w2) = db_journal (wd_db w)"
    using body [of ?w1] by (auto simp: yields_def)
  have "commit E (wd_db w) w2 = (Inr (), w2\<lparr>wd_calls := Suc (wd_calls w2)\<rparr>)"
    using ok run by (simp add: commit_def Let_def journal_must_balance_def healthyD)
  with starts run show ?thesis
    unfolding yields_def within_run by auto
qed

section \<open>What publishing does to the outbox\<close>

text \<open>The events in \<open>ids\<close> are published, the others are as they were; or only their locks changed.\<close>

definition delivered :: "uuid set \<Rightarrow> db \<Rightarrow> db \<Rightarrow> bool" where
  "delivered ids d d' \<longleftrightarrow> list_all2 (\<lambda>r r'. or_event_id r' = or_event_id r
     \<and> (if or_event_id r \<in> ids then or_published_at r' \<noteq> None else r' = r)) (db_outbox d) (db_outbox d')"

definition locked :: "uuid set \<Rightarrow> db \<Rightarrow> db \<Rightarrow> bool" where
  "locked ids d d' \<longleftrightarrow> list_all2 (\<lambda>r r'. or_event_id r' = or_event_id r \<and> (or_event_id r \<notin> ids \<longrightarrow> r' = r))
     (db_outbox d) (db_outbox d')"

lemma list_all2_map_self: "(\<And>r. r \<in> set rs \<Longrightarrow> P r (f r)) \<Longrightarrow> list_all2 P rs (map f rs)"
  by (simp add: list_all2_conv_all_nth)

lemma delivered_none: "delivered {} d d"
  by (simp add: delivered_def list_all2_same)

lemma delivered_append:
  assumes "delivered A d d1" "delivered B d1 d2"
  shows "delivered (A \<union> B) d d2"
  using assms unfolding delivered_def list_all2_conv_all_nth by (auto split: if_splits)

lemma locked_delivered:
  assumes "locked A d d1" "delivered A d1 d2"
  shows "delivered A d d2"
  using assms unfolding delivered_def locked_def list_all2_conv_all_nth by (auto split: if_splits)

lemma delivered_ids: "delivered A d d' \<Longrightarrow> map or_event_id (db_outbox d') = map or_event_id (db_outbox d)"
  unfolding delivered_def by (induction rule: list_all2_induct) auto

definition unpublished :: "db \<Rightarrow> nat" where
  "unpublished d = length (filter (\<lambda>r. or_published_at r = None) (db_outbox d))"

lemma delivered_unpublished:
  assumes "delivered A d d'" and "\<And>r. r \<in> set (db_outbox d) \<Longrightarrow> or_event_id r \<in> A \<Longrightarrow> or_published_at r = None"
  shows "unpublished d = unpublished d' + length (filter (\<lambda>r. or_event_id r \<in> A) (db_outbox d))"
  using assms unfolding delivered_def unpublished_def
  by (induction rule: list_all2_induct) (auto split: if_splits)

section \<open>The steps of a batch\<close>

lemma OldestPending_yields:
  assumes "healthy E" "\<not> wd_aborted w"
  shows "yields (outboxRepo_OldestPending E Tx now) w (\<lambda>_ d. d = wd_db w)"
  unfolding outboxRepo_OldestPending_def
proof (rule yields_bind)
  show "yields (wrapP ''measuring outbox lag'' (sql E Tx (query (\<lambda>now d.
       case map or_occurred_at (filter (\<lambda>r. or_published_at r = None) (db_outbox d)) of
         [] \<Rightarrow> None | u # us \<Rightarrow> Some (foldl min u us))))) w (\<lambda>_ d. d = wd_db w)"
    by (rule yields_wrap, rule yields_weaken, rule yields_sql [OF assms, where d = "wd_db w"]) (auto simp: query_def)
qed (auto intro: yields_ret split: option.split)

lemma Claim_yields:
  assumes "healthy E" "\<not> wd_aborted w"
  shows "yields (outboxRepo_Claim E Tx owner limit lockFor t) w (\<lambda>batch d.
     let ids = or_event_id ` set (claimed_rows limit t (wd_db w)) in
     map ob_EventID batch = map or_event_id (filter (\<lambda>r. or_event_id r \<in> ids) (db_outbox (wd_db w)))
     \<and> locked ids (wd_db w) d \<and> db_journal d = db_journal (wd_db w))"
proof -
  let ?d = "wd_db w" and ?until = "time_Add t lockFor"
  let ?rs = "map (claim_upd owner ?until) (filter (claim_hit limit t ?d) (db_outbox ?d))"
    and ?e = "?d\<lparr>db_outbox := map (\<lambda>r. if claim_hit limit t ?d r then claim_upd owner ?until r else r) (db_outbox ?d)\<rparr>"
  have "claim_outbox owner limit ?until t now ?d = Inr (?rs, ?e)" for now by (simp add: claim_outbox_Inr)
  then have claim: "yields (sql E Tx (claim_outbox owner limit ?until t)) w (\<lambda>rs e. rs = ?rs \<and> e = ?e)"
    by (rule yields_sql [OF assms])
  show ?thesis
    unfolding outboxRepo_Claim_def
    by (rule yields_bind [OF yields_wrap [OF claim]], rule yields_ret)
      (auto simp: Let_def comp_def outbox_record_of_row_def locked_def claim_hit_def [abs_def] intro!: list_all2_map_self)
qed

lemma claim_batch_yields:
  assumes "healthy E"
  shows "yields (claim_batch E p owner now) w (\<lambda>batch d.
     let ids = or_event_id ` set (claimed_rows (pp_BatchSize p) now (wd_db w)) in
     map ob_EventID batch = map or_event_id (filter (\<lambda>r. or_event_id r \<in> ids) (db_outbox (wd_db w)))
     \<and> locked ids (wd_db w) d)"
  unfolding claim_batch_def
proof (rule yields_within [OF assms], rule yields_bind)
  fix w1 :: world assume w1: "wd_db w1 = wd_db w" "\<not> wd_aborted w1"
  show "yields (outboxRepo_OldestPending E Tx now) w1 (\<lambda>_ d. d = wd_db w1)"
    by (rule OldestPending_yields [OF assms w1(2)])
  fix x and w2 :: world assume "wd_db w2 = wd_db w1" "wd_aborted w2 \<longrightarrow> wd_aborted w1"
  with w1 show "yields (outboxRepo_Claim E Tx owner (pp_BatchSize p) (pp_LockFor p) now) w2 (\<lambda>batch d.
     (let ids = or_event_id ` set (claimed_rows (pp_BatchSize p) now (wd_db w)) in
     map ob_EventID batch = map or_event_id (filter (\<lambda>r. or_event_id r \<in> ids) (db_outbox (wd_db w)))
     \<and> locked ids (wd_db w) d) \<and> db_journal d = db_journal (wd_db w))"
    using Claim_yields [OF assms, of w2 owner "pp_BatchSize p" "pp_LockFor p" now]
    by (auto simp: Let_def elim!: yields_weaken)
qed

lemma mark_record_yields:
  assumes ok: "healthy E"
  shows "yields (mark_record E p rec None) w (\<lambda>_ d. delivered {ob_EventID rec} (wd_db w) d)"
  unfolding mark_record_def outboxRepo_MarkPublished_def
proof (rule yields_within [OF ok], rule yields_bind [OF yields_clock], simp, rule yields_bind)
  fix t and w2 :: world assume w2: "wd_db w2 = wd_db w" "\<not> wd_aborted w2"
  let ?d = "wd_db w" and ?hit = "\<lambda>r. or_event_id r = ob_EventID rec \<and> or_published_at r = None"
  let ?e = "?d\<lparr>db_outbox := map (\<lambda>r. if ?hit r then r\<lparr>or_published_at := Some (timestamptz t),
      or_locked_by := None, or_locked_until := None\<rparr> else r) (db_outbox ?d)\<rparr>"
  show "yields (wrapP ''marking outbox event published'' (sql E Tx (update_published (ob_EventID rec) t))) w2 (\<lambda>_ d. d = ?e)"
    by (rule yields_wrap, rule yields_weaken, rule yields_sql [OF ok w2(2), where d = ?e])
      (simp_all add: update_published_def update_outbox_rows_def w2)
  show "yields (retP ()) w3 (\<lambda>x d. delivered {ob_EventID rec} ?d d \<and> db_journal d = db_journal ?d)"
    if "wd_db w3 = ?e" for w3 :: world
    by (rule yields_ret) (auto simp: that delivered_def intro!: list_all2_map_self)
qed

lemma publish_records_yields:
  assumes ok: "healthy E" and pub: "\<And>rec n. pub rec n = None"
  shows "yields (publish_records E p pub recs n) w
     (\<lambda>(k, e) d. k = n + length recs \<and> e = None \<and> delivered (set (map ob_EventID recs)) (wd_db w) d)"
proof (induction recs arbitrary: n w)
  case Nil
  then show ?case by (auto intro: yields_ret simp: delivered_none)
next
  case (Cons rec recs)
  let ?Q = "\<lambda>(k, e) d. k = n + length (rec # recs) \<and> e = None \<and> delivered (set (map ob_EventID (rec # recs))) (wd_db w) d"
  have "yields (bindP (tryP (mark_record E p rec None)) (\<lambda>mark. case mark of
          Inl _ \<Rightarrow> publish_records E p pub recs n
        | Inr _ \<Rightarrow> publish_records E p pub recs (Suc n))) w1 ?Q" if db: "wd_db w1 = wd_db w" for w1
  proof (rule yields_bind [OF yields_try [OF mark_record_yields [OF ok]]])
    fix r and w2 :: world assume "\<exists>x. r = Inr x \<and> delivered {ob_EventID rec} (wd_db w1) (wd_db w2)"
    then obtain x where "r = Inr x" "delivered {ob_EventID rec} (wd_db w) (wd_db w2)" using db by auto
    then show "yields (case r of Inl _ \<Rightarrow> publish_records E p pub recs n
        | Inr _ \<Rightarrow> publish_records E p pub recs (Suc n)) w2 ?Q"
      using Cons.IH [of "Suc n" w2] delivered_append [of "{ob_EventID rec}" "wd_db w" "wd_db w2"]
      by (auto elim!: yields_weaken)
  qed
  then show ?case
    unfolding publish_records.simps
    by (intro yields_bind [OF yields_ctx [OF ok]]) (simp add: pub yields_def)
qed

section \<open>A batch\<close>

text \<open>A claim takes as many of the due events as it may.\<close>

lemma claimed_rows_all:
  assumes "outbox_table_ok d"
  shows "length (filter (claim_hit limit t d) (db_outbox d)) = min (nat limit) (length (filter (claimable t) (db_outbox d)))"
proof -
  have uniq: "distinct (db_outbox d)"
    using assms by (simp add: outbox_table_ok_def unique_by_distinct distinct_map)
  have sub: "set (claimed_rows limit t d) \<subseteq> set (db_outbox d)" using claimed_rows_subset by blast
  have "filter (claim_hit limit t d) (db_outbox d) = filter (\<lambda>r. r \<in> set (claimed_rows limit t d)) (db_outbox d)"
    by (rule filter_cong) (simp_all add: claim_hit_row [OF assms])
  also have "length \<dots> = card (set (claimed_rows limit t d) \<inter> set (db_outbox d))"
    using uniq by (simp add: distinct_length_filter)
  also have "\<dots> = length (claimed_rows limit t d)"
    using uniq sub by (simp add: Int_absorb2 distinct_card claimed_rows_def distinct_take)
  also have "\<dots> = min (nat limit) (length (filter (claimable t) (db_outbox d)))" by (simp add: claimed_rows_def)
  finally show ?thesis .
qed

text \<open>A batch publishes all of what is due, or as many events as it may.\<close>

lemma publishBatch_yields:
  assumes ok: "healthy E" and pub: "\<And>rec n. pub rec n = None" and size: "0 < pp_BatchSize p"
    and uniq: "outbox_table_ok (wd_db w)"
  shows "yields (publishBatch E p pub owner) w (\<lambda>(k, drained, e) d. e = None \<and> (\<exists>ids. delivered ids (wd_db w) d
     \<and> (if drained then \<forall>r \<in> set (db_outbox (wd_db w)). claimable (clock_Now E (wd_clock w)) r \<longrightarrow> or_event_id r \<in> ids
        else unpublished (wd_db w) = unpublished d + nat (pp_BatchSize p))))"
    (is "yields _ _ (\<lambda>(k, drained, e) d. e = None \<and> ?P drained d)")
proof -
  let ?d = "wd_db w" and ?t = "clock_Now E (wd_clock w)" and ?B = "nat (pp_BatchSize p)"
  let ?ids = "or_event_id ` set (claimed_rows (pp_BatchSize p) ?t ?d)"
  let ?hits = "filter (\<lambda>r. or_event_id r \<in> ?ids) (db_outbox ?d)"
  let ?due = "filter (claimable ?t) (db_outbox ?d)"
  have hits: "length ?hits = min ?B (length ?due)"
    using claimed_rows_all [OF uniq] by (simp add: claim_hit_def [abs_def])
  have unp: "or_published_at r = None" if "r \<in> set (db_outbox ?d)" "or_event_id r \<in> ?ids" for r
    using that claim_hit_row [OF uniq that(1)] claimed_rows_subset by (simp add: claim_hit_def claimable_def)
  have all: "or_event_id r \<in> ?ids" if "length ?hits < ?B" "r \<in> set (db_outbox ?d)" "claimable ?t r" for r
  proof -
    have "claimed_rows (pp_BatchSize p) ?t ?d = sort_key or_next_attempt_at ?due"
      using that(1) hits by (simp add: claimed_rows_def)
    then show ?thesis using that(2,3) by simp
  qed
  have rest: "yields (bindP (publish_records E p pub batch 0) (\<lambda>(published, err). case err of
           Some e \<Rightarrow> retP (published, True, Some e)
         | None \<Rightarrow> retP (published, int (length batch) < pp_BatchSize p, None))) w2
      (\<lambda>(k, drained, e) d. e = None \<and> ?P drained d)"
    if batch: "map ob_EventID batch = map or_event_id ?hits" and lock: "locked ?ids ?d (wd_db w2)" for batch and w2 :: world
  proof (rule yields_bind [OF publish_records_yields [OF ok pub]])
    fix x and w3 :: world
    assume "(\<lambda>(k, e) d. k = 0 + length batch \<and> e = None \<and> delivered (set (map ob_EventID batch)) (wd_db w2) d) x (wd_db w3)"
    then have x: "x = (length batch, None)" and "delivered (ob_EventID ` set batch) (wd_db w2) (wd_db w3)" by auto
    note this(2)
    moreover have "ob_EventID ` set batch = ?ids"
      using arg_cong [OF batch, of set] claimed_rows_subset by (fastforce simp: image_iff)
    ultimately have del: "delivered ?ids ?d (wd_db w3)" using locked_delivered [OF lock] by simp
    have len: "length batch = length ?hits" using arg_cong [OF batch, of length] by simp
    have un: "unpublished ?d = unpublished (wd_db w3) + length ?hits"
      by (rule delivered_unpublished [OF del unp])
    have "?P (int (length batch) < pp_BatchSize p) (wd_db w3)"
    proof (cases "int (length batch) < pp_BatchSize p")
      case True
      then have "length ?hits < ?B" by (subst len [symmetric]) linarith
      then have "\<forall>r \<in> set (db_outbox ?d). claimable ?t r \<longrightarrow> or_event_id r \<in> ?ids" using all by blast
      then show ?thesis using del by (simp only: True if_True) blast
    next
      case False
      then have "?B \<le> length ?hits" by (subst len [symmetric]) linarith
      moreover have "length ?hits \<le> ?B" by (subst hits) simp
      ultimately have "unpublished ?d = unpublished (wd_db w3) + ?B" using un by linarith
      then show ?thesis using del by (simp only: False if_False) blast
    qed
    then show "yields (case x of (published, err) \<Rightarrow> (case err of
           Some e \<Rightarrow> retP (published, True, Some e)
         | None \<Rightarrow> retP (published, int (length batch) < pp_BatchSize p, None))) w3
      (\<lambda>(k, drained, e) d. e = None \<and> ?P drained d)"
      unfolding x prod.case option.case by (intro yields_ret) simp
  qed
  show ?thesis
    unfolding publishBatch_def
  proof (rule yields_bind [OF yields_clock], clarify, rule yields_bind [OF yields_try [OF claim_batch_yields [OF ok]]])
    fix r :: "goerr + outbox_record list" and w1 w2 :: world
    assume "wd_db w1 = wd_db w" "\<exists>x. r = Inr x \<and> (let ids = or_event_id ` set (claimed_rows (pp_BatchSize p) ?t (wd_db w1)) in
       map ob_EventID x = map or_event_id (filter (\<lambda>r. or_event_id r \<in> ids) (db_outbox (wd_db w1))) \<and> locked ids (wd_db w1) (wd_db w2))"
    then obtain batch where "r = Inr batch" "map ob_EventID batch = map or_event_id ?hits" "locked ?ids ?d (wd_db w2)"
      by (auto simp: Let_def)
    then show "yields (case r of Inl err \<Rightarrow> retP (0, False, Some (WrapErr ''claiming outbox batch'' err))
       | Inr batch \<Rightarrow> bindP (publish_records E p pub batch 0) (\<lambda>(published, err). case err of
           Some e \<Rightarrow> retP (published, True, Some e)
         | None \<Rightarrow> retP (published, int (length batch) < pp_BatchSize p, None))) w2
      (\<lambda>(k, drained, e) d. e = None \<and> ?P drained d)"
      using rest by simp
  qed
qed

section \<open>A run\<close>

lemma run_passes_yields:
  assumes ok: "healthy E" and pub: "\<And>rec n. pub rec n = None" and size: "0 < pp_BatchSize p"
  shows "outbox_table_ok (wd_db w) \<Longrightarrow> unpublished (wd_db w) < passes * nat (pp_BatchSize p)
    \<Longrightarrow> t0 \<le> clock_Now E (wd_clock w)
    \<Longrightarrow> yields (run_passes E p pub owner passes n) w (\<lambda>(k, e) d. e = None \<and> (\<exists>ids. delivered ids (wd_db w) d
       \<and> (\<forall>r \<in> set (db_outbox (wd_db w)). claimable t0 r \<longrightarrow> or_event_id r \<in> ids)))"
proof (induction passes arbitrary: n w)
  case (Suc passes)
  let ?d = "wd_db w" and ?t = "clock_Now E (wd_clock w)"
  let ?Q = "\<lambda>(k, e) d. e = None \<and> (\<exists>ids. delivered ids ?d d
       \<and> (\<forall>r \<in> set (db_outbox ?d). claimable t0 r \<longrightarrow> or_event_id r \<in> ids))"
  have due: "claimable ?t r" if "claimable t0 r" for r
    using that timestamptz_mono [OF Suc.prems(3)] by (auto simp: claimable_def split: option.splits)
  show ?case
    unfolding run_passes.simps
  proof (rule yields_bind [OF publishBatch_yields [OF ok pub size Suc.prems(1)]])
    fix x :: "nat \<times> bool \<times> goerr option" and w1 :: world
    assume post: "(\<lambda>(k, drained, e) d. e = None \<and> (\<exists>ids. delivered ids ?d d
     \<and> (if drained then \<forall>r \<in> set (db_outbox ?d). claimable ?t r \<longrightarrow> or_event_id r \<in> ids
        else unpublished ?d = unpublished d + nat (pp_BatchSize p)))) x (wd_db w1)" and clock: "wd_clock w \<le> wd_clock w1"
    obtain k drained e where x: "x = (k, drained, e)" by (cases x)
    with post obtain ids where e: "e = None" and del: "delivered ids ?d (wd_db w1)"
      and res: "if drained then \<forall>r \<in> set (db_outbox ?d). claimable ?t r \<longrightarrow> or_event_id r \<in> ids
        else unpublished ?d = unpublished (wd_db w1) + nat (pp_BatchSize p)" by auto
    have "yields (if drained then retP (n + k, None) else bindP (ctx_err E) (\<lambda>cancelled.
           if cancelled \<noteq> None then retP (n + k, None) else run_passes E p pub owner passes (n + k))) w1 ?Q"
    proof (cases drained)
      case True
      then have "\<forall>r \<in> set (db_outbox ?d). claimable t0 r \<longrightarrow> or_event_id r \<in> ids" using res due by simp
      then show ?thesis using True del by (simp only: if_True) (intro yields_ret, auto)
    next
      case False
      have ids1: "map or_event_id (db_outbox (wd_db w1)) = map or_event_id (db_outbox ?d)" by (rule delivered_ids [OF del])
      have next_pass: "yields (run_passes E p pub owner passes (n + k)) w2 ?Q"
        if w2: "wd_db w2 = wd_db w1" "wd_clock w1 \<le> wd_clock w2" for w2 :: world
      proof (rule yields_weaken [OF Suc.IH])
        show "outbox_table_ok (wd_db w2)"
          using Suc.prems(1) ids1 w2(1) by (simp add: outbox_table_ok_def unique_by_distinct)
        show "unpublished (wd_db w2) < passes * nat (pp_BatchSize p)" using res False Suc.prems(2) w2(1) by simp
        show "t0 \<le> clock_Now E (wd_clock w2)"
          using Suc.prems(3) healthy_clock [OF ok, of "wd_clock w" "wd_clock w2"] clock w2(2) by linarith
        fix y d assume "(\<lambda>(k, e) d. e = None \<and> (\<exists>ids. delivered ids (wd_db w2) d
           \<and> (\<forall>r \<in> set (db_outbox (wd_db w2)). claimable t0 r \<longrightarrow> or_event_id r \<in> ids))) y d"
        then obtain k' ids' where y: "y = (k', None)" "delivered ids' (wd_db w1) d"
          and due': "\<forall>r \<in> set (db_outbox (wd_db w1)). claimable t0 r \<longrightarrow> or_event_id r \<in> ids'" using w2(1) by auto
        have "or_event_id r \<in> ids \<union> ids'" if "r \<in> set (db_outbox ?d)" "claimable t0 r" for r
        proof -
          have "or_event_id r \<in> ids \<or> r \<in> set (db_outbox (wd_db w1))"
            using del that(1) unfolding delivered_def
            by (auto simp: list_all2_conv_all_nth in_set_conv_nth split: if_splits)
          then show ?thesis using due' that(2) by blast
        qed
        then show "?Q y d" using y delivered_append [OF del y(2)] by auto
      qed
      show ?thesis
        using False by (simp only: if_False)
          (rule yields_bind [OF yields_ctx [OF ok]], simp, rule next_pass, simp_all)
    qed
    then show "yields (case x of (published, drained, err) \<Rightarrow> (case err of
       Some e \<Rightarrow> retP (n + published, Some e)
     | None \<Rightarrow>
         if drained then retP (n + published, None)
         else bindP (ctx_err E) (\<lambda>cancelled.
           if cancelled \<noteq> None then retP (n + published, None)
           else run_passes E p pub owner passes (n + published)))) w1 ?Q"
      by (simp only: x e prod.case option.case)
  qed
qed simp

text \<open>C19: the outbox drains. When nothing fails, the publisher accepts what it is given and there are fewer
  unpublished events than a run may handle, then after the run every event that was due when it
  began is marked published, and no event was dropped or added.\<close>

theorem outbox_drains:
  assumes "healthy E" and "\<And>rec n. pub rec n = None" and "0 < pp_BatchSize p" and "schema_ok (wd_db w)"
    and "unpublished (wd_db w) < pp_MaxPassesPerRun p * nat (pp_BatchSize p)"
  shows "\<exists>n w'. PublishOutbox_RunOnce E p pub owner w = (Inr (n, None), w')
    \<and> map or_event_id (db_outbox (wd_db w')) = map or_event_id (db_outbox (wd_db w))
    \<and> (\<forall>r \<in> set (db_outbox (wd_db w)). claimable (clock_Now E (wd_clock w)) r \<longrightarrow>
         (\<exists>r' \<in> set (db_outbox (wd_db w')). or_event_id r' = or_event_id r \<and> or_published_at r' \<noteq> None))"
proof -
  have "outbox_table_ok (wd_db w)" using assms(4) by (simp add: schema_ok_def)
  then have "yields (run_passes E p pub owner (pp_MaxPassesPerRun p) 0) w (\<lambda>(k, e) d. e = None \<and> (\<exists>ids. delivered ids (wd_db w) d
       \<and> (\<forall>r \<in> set (db_outbox (wd_db w)). claimable (clock_Now E (wd_clock w)) r \<longrightarrow> or_event_id r \<in> ids)))"
    by (intro run_passes_yields) (use assms in auto)
  then obtain n w' ids where
    run: "PublishOutbox_RunOnce E p pub owner w = (Inr (n, None), w')" and del: "delivered ids (wd_db w) (wd_db w')"
    and due: "\<forall>r \<in> set (db_outbox (wd_db w)). claimable (clock_Now E (wd_clock w)) r \<longrightarrow> or_event_id r \<in> ids"
    by (auto simp: yields_def PublishOutbox_RunOnce_def)
  have "\<exists>r' \<in> set (db_outbox (wd_db w')). or_event_id r' = or_event_id r \<and> or_published_at r' \<noteq> None"
    if "r \<in> set (db_outbox (wd_db w))" "claimable (clock_Now E (wd_clock w)) r" for r
  proof -
    have "or_event_id r \<in> ids" using due that by blast
    then show ?thesis
      using del that(1) unfolding delivered_def list_all2_conv_all_nth by (fastforce simp: in_set_conv_nth)
  qed
  then show ?thesis using run delivered_ids [OF del] by blast
qed

theorem outbox_drains_witness:
  "\<exists>n w'. PublishOutbox_RunOnce calm_env DefaultPublishPolicy (\<lambda>_ _. None) ''w'' (demo_world event_db 0) = (Inr (n, None), w')
     \<and> map or_event_id (db_outbox (wd_db w')) = [or_event_id sample_event]"
proof -
  have "healthy calm_env" by (simp add: healthy_def)
  moreover have "unpublished event_db = 1" "0 < pp_BatchSize DefaultPublishPolicy"
      "1 < pp_MaxPassesPerRun DefaultPublishPolicy * nat (pp_BatchSize DefaultPublishPolicy)"
    by (simp_all add: unpublished_def event_db_def sample_event_def DefaultPublishPolicy_def)
  ultimately show ?thesis
    using outbox_drains [of calm_env "\<lambda>_ _. None" DefaultPublishPolicy "demo_world event_db 0" "''w''"] event_db_ok
    by (auto simp: event_db_def)
qed

end
