(* ===== verification/Signals.thy ===== *)
theory Signals
  imports Handlers Queue Config PublishOutbox ResolveReferences
begin

text \<open>
  What the program tells its operators: the metrics of \<open>internal/observability/metrics.go\<close>, the spans
  and attributes of \<open>tracing.go\<close> and the entries of the log. The theories of the components leave
  them out; here the operations that emit them are written once more, with the signals in the order
  in which the code emits them, and \<open>erase\<close> forgets the signals again. The clients of Prometheus
  and OpenTelemetry and the logger only take what they are given. A measured duration and the text
  of an error are not part of a signal, the error itself is.
\<close>

section \<open>Signals\<close>

text \<open>The variables of \<open>metrics.go\<close>: counters and histograms with the values of their labels, gauges with what
  they are set to.\<close>

datatype metric =
    TransactionResults string string string
  | Duplicates string
  | ConcurrencyConflicts
  | ProcessingLatency string
  | MessageRetries
  | MessagesDeadLettered
  | OutboxPublished
  | OutboxRetries
  | OutboxLagSeconds duration
  | ReconciliationDivergences
  | AuthFailures string
  | PermanentFailures
  | PendingReferences int

fun metric_name :: "metric \<Rightarrow> string" where
  "metric_name (TransactionResults k st src) = ''jungle_wager_transaction_results_total''"
| "metric_name (Duplicates m) = ''jungle_duplicate_operations_total''"
| "metric_name ConcurrencyConflicts = ''jungle_concurrency_conflicts_total''"
| "metric_name (ProcessingLatency src) = ''jungle_wager_processing_seconds''"
| "metric_name MessageRetries = ''jungle_message_retries_total''"
| "metric_name MessagesDeadLettered = ''jungle_messages_dead_lettered_total''"
| "metric_name OutboxPublished = ''jungle_outbox_published_total''"
| "metric_name OutboxRetries = ''jungle_outbox_retries_total''"
| "metric_name (OutboxLagSeconds d) = ''jungle_outbox_lag_seconds''"
| "metric_name ReconciliationDivergences = ''jungle_reconciliation_divergences_total''"
| "metric_name (AuthFailures r) = ''jungle_auth_failures_total''"
| "metric_name PermanentFailures = ''jungle_permanent_failures_total''"
| "metric_name (PendingReferences n) = ''jungle_pending_references''"

fun metric_labels :: "metric \<Rightarrow> (string \<times> string) list" where
  "metric_labels (TransactionResults k st src) = [(''kind'', k), (''status'', st), (''source'', src)]"
| "metric_labels (Duplicates m) = [(''mechanism'', m)]"
| "metric_labels (ProcessingLatency src) = [(''source'', src)]"
| "metric_labels (AuthFailures r) = [(''reason'', r)]"
| "metric_labels _ = []"

text \<open>The registry of Prometheus refuses a name that it has already; samples of one name have the
  same labels.\<close>

lemma metric_labels_of_name:
  "metric_name a = metric_name b \<Longrightarrow> map fst (metric_labels a) = map fst (metric_labels b)"
  by (cases a; cases b) simp_all

text \<open>A field of a log entry or an attribute of a span.\<close>

datatype field =
    StringField string string
  | BoolField string bool
  | IntField string int
  | ErrorField goerr
  | NamedError string goerr

fun field_key :: "field \<Rightarrow> string" where
  "field_key (StringField k v) = k"
| "field_key (BoolField k v) = k"
| "field_key (IntField k v) = k"
| "field_key (ErrorField e) = ''error''"
| "field_key (NamedError k e) = k"

datatype level = InfoLevel | WarnLevel | ErrorLevel

text \<open>The description of a failed span is a text of the program or the text of an error.\<close>

datatype description = Described string | ErrorText goerr

datatype signal =
    Metric metric
  | Log level string "field list"
  | StartSpan string
  | SetAttributes "field list"
  | RecordError goerr
  | SetStatusError description
  | EndSpan

section \<open>Attributes\<close>

definition WalletAttributes :: "string \<Rightarrow> string \<Rightarrow> field list" where
  "WalletAttributes walletID playerID =
     [StringField ''jungle.wallet_id'' walletID, StringField ''jungle.player_id'' playerID]"

definition OperationAttributes :: "string \<Rightarrow> string \<Rightarrow> string \<Rightarrow> field list" where
  "OperationAttributes providerID externalID kind =
     [StringField ''jungle.provider_id'' providerID, StringField ''jungle.external_transaction_id'' externalID,
      StringField ''jungle.kind'' kind]"

definition OutcomeAttributes :: "string \<Rightarrow> string \<Rightarrow> string \<Rightarrow> bool \<Rightarrow> field list" where
  "OutcomeAttributes transactionID status failureCode replay =
     [StringField ''jungle.transaction_id'' transactionID, StringField ''jungle.status'' status,
      BoolField ''jungle.idempotent_replay'' replay]
     @ (if failureCode \<noteq> [] then [StringField ''jungle.failure_code'' failureCode] else [])"

text \<open>The attributes of a transaction have different keys, so none overwrites another.\<close>

lemma attributes_distinct:
  "distinct (map field_key (OperationAttributes p x k @ WalletAttributes w q @ OutcomeAttributes t st c r))"
  by (simp add: WalletAttributes_def OperationAttributes_def OutcomeAttributes_def)

section \<open>Observed programs\<close>

text \<open>A program with the signals it emits, in order.\<close>

type_synonym 'a observed = "world \<Rightarrow> (goerr + 'a) \<times> signal list \<times> world"

definition erase :: "'a observed \<Rightarrow> 'a prog" where
  "erase f w = (case f w of (r, ss, w') \<Rightarrow> (r, w'))"

definition quiet :: "'a prog \<Rightarrow> 'a observed" where
  "quiet f w = (case f w of (r, w') \<Rightarrow> (r, [], w'))"

definition emit :: "signal list \<Rightarrow> unit observed" where
  "emit ss w = (Inr (), ss, w)"

definition bindO :: "'a observed \<Rightarrow> ('a \<Rightarrow> 'b observed) \<Rightarrow> 'b observed" where
  "bindO f g w = (case f w of
     (Inl e, ss, w') \<Rightarrow> (Inl e, ss, w')
   | (Inr x, ss, w') \<Rightarrow> (case g x w' of (r, ts, w'') \<Rightarrow> (r, ss @ ts, w'')))"

definition tryO :: "'a observed \<Rightarrow> (goerr + 'a) observed" where
  "tryO f w = (case f w of (r, ss, w') \<Rightarrow> (Inr r, ss, w'))"

text \<open>\<open>Tracer().Start\<close> with the deferred \<open>span.End\<close> around a body.\<close>

definition spanO :: "string \<Rightarrow> 'a observed \<Rightarrow> 'a observed" where
  "spanO name f w = (case f w of (r, ss, w') \<Rightarrow> (r, StartSpan name # ss @ [EndSpan], w'))"

named_theorems erase_simps \<open>what is left of an observed program without its signals\<close>

lemma erase_quiet [erase_simps]: "erase (quiet f) = f"
  by (rule ext) (simp add: erase_def quiet_def split: prod.split)

lemma erase_bindO [erase_simps]: "erase (bindO f g) = bindP (erase f) (\<lambda>x. erase (g x))"
  by (rule ext) (simp add: erase_def bindO_def bindP_def split: prod.split sum.split)

lemma erase_tryO [erase_simps]: "erase (tryO f) = tryP (erase f)"
  by (rule ext) (simp add: erase_def tryO_def tryP_def split: prod.split)

lemma erase_spanO [erase_simps]: "erase (spanO name f) = erase f"
  by (rule ext) (simp add: erase_def spanO_def split: prod.split)

lemma erase_emit_then [erase_simps]: "bindP (erase (emit ss)) g = g ()"
  by (rule ext) (simp add: erase_def emit_def bindP_def)

lemma erase_emit: "erase (emit ss) = retP ()"
  by (rule ext) (simp add: erase_def emit_def retP_def)

lemma bindP_retP_unit [erase_simps]: "bindP f (\<lambda>x. retP x) = f"
  by (rule ext) (simp add: bindP_def retP_def split: prod.split sum.split)

lemma erase_if [erase_simps]: "erase (if c then f else g) = (if c then erase f else erase g)"
  by simp

lemma erase_option [erase_simps]:
  "erase (case x of None \<Rightarrow> f | Some y \<Rightarrow> g y) = (case x of None \<Rightarrow> erase f | Some y \<Rightarrow> erase (g y))"
  by (simp split: option.split)

lemma erase_sum [erase_simps]:
  "erase (case x of Inl e \<Rightarrow> f e | Inr y \<Rightarrow> g y) = (case x of Inl e \<Rightarrow> erase (f e) | Inr y \<Rightarrow> erase (g y))"
  by (simp split: sum.split)

text \<open>An observed program of which the erased run is known.\<close>

lemma erase_run: "erase f w = (r, w') \<longleftrightarrow> (\<exists>ss. f w = (r, ss, w'))"
  by (auto simp: erase_def split: prod.splits)

text \<open>Counting in the signals.\<close>

fun counted :: "signal list \<Rightarrow> metric list" where
  "counted [] = []"
| "counted (Metric m # ss) = m # counted ss"
| "counted (s # ss) = counted ss"

lemma counted_append [simp]: "counted (ss @ ts) = counted ss @ counted ts"
  by (induction ss rule: counted.induct) simp_all

fun logged :: "signal list \<Rightarrow> (level \<times> string \<times> field list) list" where
  "logged [] = []"
| "logged (Log l s fs # ss) = (l, s, fs) # logged ss"
| "logged (s # ss) = logged ss"

lemma logged_append [simp]: "logged (ss @ ts) = logged ss @ logged ts"
  by (induction ss rule: logged.induct) simp_all

end
