(* ===== verification/Observability.thy ===== *)
theory Observability
  imports Signals Messages Requests
begin

text \<open>
  The operations that emit signals, with them: \<open>ProcessWager.Execute\<close>, the consumer, the publisher, the
  jobs, the authentication and the handlers that count. Each erases to the operation of its component; what
  is proved is that the counters are true: each message is counted once, and as what became of it.
\<close>

definition retO :: "'a \<Rightarrow> 'a observed" where
  "retO x = quiet (retP x)"

definition failO :: "goerr \<Rightarrow> 'a observed" where
  "failO e = quiet (failP e)"

lemma erase_retO [erase_simps]: "erase (retO x) = retP x" "erase (failO e) = failP e"
  by (simp_all add: retO_def failO_def erase_simps)

lemma bindO_simps [simp]:
  "bindO (retO x) g = g x"
  "bindO (failO e) h = failO e"
  "bindO (bindO f g1) g2 = bindO f (\<lambda>x. bindO (g1 x) g2)"
  by (rule ext, simp add: bindO_def retO_def failO_def quiet_def retP_def failP_def split: prod.split sum.split)+

section \<open>Execute\<close>

text \<open>An answer of \<open>fastReplay\<close>, or its failure, leaves by an early return: the span gets neither a status nor the outcome.\<close>

definition execute_attributes :: "env \<Rightarrow> process_command \<Rightarrow> signal list" where
  "execute_attributes E cmd =
     [SetAttributes (OperationAttributes (pc_ProviderID cmd) (pc_ExternalTransactionID cmd) (kind_string (pc_Kind cmd))),
      SetAttributes (WalletAttributes (uuid_String E (pc_WalletID cmd)) (uuid_String E (pc_PlayerID cmd)))]
     @ (if pc_MessageID cmd \<noteq> [] then [SetAttributes [StringField ''jungle.message_id'' (pc_MessageID cmd)]] else [])"

definition outcome_attributes :: "env \<Rightarrow> process_result \<Rightarrow> field list" where
  "outcome_attributes E result =
     (let tx = ps_Transaction result in
      OutcomeAttributes (uuid_String E (tx_id tx)) (status_string (tx_status tx))
        (failure_string (tx_failureCode tx)) (ps_IdempotentReplay result))"

definition observed_Execute :: "env \<Rightarrow> process_command \<Rightarrow> process_result observed" where
  "observed_Execute E cmd = spanO (''ProcessWager '' @ kind_string (pc_Kind cmd))
     (bindO (emit (execute_attributes E cmd)) (\<lambda>_.
      bindO (quiet (read_clock E)) (\<lambda>now.
      bindO (quiet (fastReplay E cmd)) (\<lambda>replay. case replay of
        Some r \<Rightarrow> retO r
      | None \<Rightarrow>
          bindO (tryO (quiet (within E (execute_body E cmd now)))) (\<lambda>r. case r of
            Inl err \<Rightarrow> bindO (emit [RecordError err, SetStatusError (ErrorText err)]) (\<lambda>_. failO err)
          | Inr result \<Rightarrow> bindO (emit [SetAttributes (outcome_attributes E result)]) (\<lambda>_. retO result))))))"

lemma bindP_tryP_again:
  "bindP (tryP f) (\<lambda>r. case r of Inl err \<Rightarrow> failP err | Inr x \<Rightarrow> retP x) = f"
  by (rule ext) (simp add: bindP_def tryP_def retP_def failP_def split: prod.split sum.split)

lemma erase_Execute [erase_simps]: "erase (observed_Execute E cmd) = ProcessWager_Execute E cmd"
  by (simp add: observed_Execute_def ProcessWager_Execute_def or_else_def erase_simps bindP_tryP_again cong: option.case_cong)

text \<open>Execute counts and logs nothing itself.\<close>

lemma observed_Execute_counts: "observed_Execute E cmd w = (r, ss, w') \<Longrightarrow> counted ss = [] \<and> logged ss = []"
  by (auto simp: observed_Execute_def execute_attributes_def spanO_def bindO_def tryO_def emit_def quiet_def retO_def failO_def
      split: prod.splits sum.splits option.splits if_splits)

section \<open>The consumer\<close>

text \<open>\<open>logOutcome\<close>.\<close>

definition consumer_fields :: "env \<Rightarrow> process_command \<Rightarrow> field list" where
  "consumer_fields E cmd =
     [StringField ''source'' ''sqs'', StringField ''messageId'' (pc_MessageID cmd),
      StringField ''consumer'' (pc_ConsumerName cmd),
      StringField ''correlationId'' (uuid_String E (pc_CorrelationID cmd)),
      StringField ''providerId'' (pc_ProviderID cmd),
      StringField ''externalTransactionId'' (pc_ExternalTransactionID cmd),
      StringField ''walletId'' (uuid_String E (pc_WalletID cmd)),
      StringField ''playerId'' (uuid_String E (pc_PlayerID cmd)), StringField ''kind'' (kind_string (pc_Kind cmd))]"

definition settled_fields :: "env \<Rightarrow> process_result \<Rightarrow> field list" where
  "settled_fields E result =
     (let tx = ps_Transaction result; code = failure_string (tx_failureCode tx) in
      [StringField ''transactionId'' (uuid_String E (tx_id tx)), StringField ''status'' (status_string (tx_status tx)),
       BoolField ''idempotentReplay'' (ps_IdempotentReplay result)]
      @ (if code \<noteq> [] then [StringField ''failureCode'' code] else []))"

definition logOutcome :: "env \<Rightarrow> field list \<Rightarrow> goerr + process_result \<Rightarrow> signal" where
  "logOutcome E fs r = (case r of
     Inl err \<Rightarrow> Log WarnLevel ''wager operation not applied'' (fs @ [ErrorField err])
   | Inr result \<Rightarrow> Log InfoLevel ''wager operation settled'' (fs @ settled_fields E result))"

definition result_metrics :: "string \<Rightarrow> string \<Rightarrow> process_result \<Rightarrow> signal list" where
  "result_metrics kind src result =
     Metric (TransactionResults kind (status_string (tx_status (ps_Transaction result))) src)
     # (if ps_IdempotentReplay result then [Metric (Duplicates ''idempotency-key'')] else [])"

text \<open>The cases of the switch that make an error permanent come before the one that counts a conflict.\<close>

definition process_metrics :: "process_command \<Rightarrow> goerr + process_result \<Rightarrow> signal list" where
  "process_metrics cmd r = (case r of
     Inr result \<Rightarrow> result_metrics (kind_string (pc_Kind cmd)) ''sqs'' result
   | Inl err \<Rightarrow>
       if errors_Is err (AppErr ErrIdempotencyConflict) \<or> errors_Is err (AppErr ErrOperationIdentityConflict)
          \<or> errors_Is err (AppErr ErrWalletMismatch) \<or> errors_Is err (AppErr ErrNotFound) then []
       else if errors_Is err (AppErr ErrConcurrencyConflict) then [Metric ConcurrencyConflicts] else [])"

definition observed_process :: "env \<Rightarrow> string \<Rightarrow> string \<Rightarrow> unit observed" where
  "observed_process E consumer body =
     (case decode_envelope body of None \<Rightarrow> failO (permanent ''malformed body'')
      | Some envelope \<Rightarrow>
        if mv_MessageID envelope = [] then failO (permanent ''missing messageId'')
        else bindO (quiet (buildCommand E consumer envelope)) (\<lambda>cmd.
          bindO (tryO (observed_Execute E cmd)) (\<lambda>r.
          bindO (emit (logOutcome E (consumer_fields E cmd) r # process_metrics cmd r)) (\<lambda>_. case r of
            Inr out \<Rightarrow> retO ()
          | Inl err \<Rightarrow> failO (process_error err)))))"

lemma erase_process [erase_simps]: "erase (observed_process E consumer body) = process E consumer body"
  by (simp add: observed_process_def process_def erase_simps split: option.split cong: sum.case_cong)

text \<open>\<open>handle\<close>: the span, what becomes of the message, and the time it took.\<close>

definition handle_attributes :: "string \<Rightarrow> string \<Rightarrow> signal" where
  "handle_attributes queueURL name =
     SetAttributes [StringField ''messaging.system'' ''aws_sqs'', StringField ''messaging.source.name'' queueURL,
       StringField ''messaging.consumer.group.name'' name]"

definition handle_signals :: "goerr + unit \<Rightarrow> signal list" where
  "handle_signals r = (case r of
     Inr _ \<Rightarrow> []
   | Inl err \<Rightarrow>
       if errors_Is err ErrPermanent
       then [RecordError err, SetStatusError (Described ''permanently unprocessable''), Metric MessagesDeadLettered,
             Log ErrorLevel ''permanently unprocessable message, leaving for DLQ'' [ErrorField err]]
       else [RecordError err, SetStatusError (Described ''transient failure''), Metric MessageRetries,
             Log WarnLevel ''transient failure handling message, will be redelivered'' [ErrorField err]])"

text \<open>A message whose deletion fails comes again; that is only logged. \<open>DeleteAnswer\<close> is what SQS answers.\<close>

definition consumer_delete :: "(string option \<Rightarrow> goerr option) \<Rightarrow> string option \<Rightarrow> signal list \<times> sqs_call list" where
  "consumer_delete DeleteAnswer receipt =
     (case DeleteAnswer receipt of
        Some err \<Rightarrow> [Log WarnLevel ''deleting handled message failed; it will be redelivered and deduplicated by the inbox''
          [ErrorField err]]
      | None \<Rightarrow> [], [DeleteMessage receipt])"

definition observed_handle ::
  "(string option \<Rightarrow> goerr option) \<Rightarrow> env \<Rightarrow> string \<Rightarrow> string \<Rightarrow> sqs_message \<Rightarrow> consumer \<Rightarrow> signal list \<times> consumer" where
  "observed_handle DeleteAnswer E queueURL name msg s =
     (case observed_process E name (case sm_Body msg of None \<Rightarrow> [] | Some b \<Rightarrow> b) (cs_world s) of (r, ss, w) \<Rightarrow>
        (case (case r of Inr _ \<Rightarrow> consumer_delete DeleteAnswer (sm_ReceiptHandle msg) | Inl e \<Rightarrow> ([], [])) of (ds, calls) \<Rightarrow>
        (StartSpan ''consume wager-transactions'' # handle_attributes queueURL name # ss @ ds @ handle_signals r
           @ [Metric (ProcessingLatency ''sqs''), EndSpan],
         s\<lparr>cs_world := w, cs_calls := cs_calls s @ calls\<rparr>)))"

text \<open>\<open>release\<close>: each message is handed back, a failure is only logged.\<close>

definition observed_release :: "(string option \<Rightarrow> goerr option) \<Rightarrow> sqs_message list \<Rightarrow> consumer \<Rightarrow> signal list \<times> consumer" where
  "observed_release ReleaseAnswer msgs s =
     (if msgs = [] then ([], s)
      else (concat (map (\<lambda>msg. case ReleaseAnswer (sm_ReceiptHandle msg) of
              Some err \<Rightarrow> [Log WarnLevel
                ''releasing an unprocessed message failed; it will be redelivered after its visibility timeout'' [ErrorField err]]
            | None \<Rightarrow> []) msgs)
          @ [Log InfoLevel ''released unprocessed messages for immediate redelivery''
               [IntField ''messages'' (int (length msgs))]],
        s\<lparr>cs_calls := cs_calls s @ map (\<lambda>msg. ChangeMessageVisibility (sm_ReceiptHandle msg) 0) msgs\<rparr>))"

lemma observed_release_erases: "snd (observed_release ReleaseAnswer msgs s) = release msgs s"
  by (simp add: observed_release_def release_def)

lemma observed_handle_erases: "snd (observed_handle DeleteAnswer E queueURL name msg s) = handle E name msg s"
proof -
  let ?body = "case sm_Body msg of None \<Rightarrow> [] | Some b \<Rightarrow> b"
  obtain r ss w where o: "observed_process E name ?body (cs_world s) = (r, ss, w)" by (metis prod.exhaust)
  then have "process E name ?body (cs_world s) = (r, w)" by (simp add: erase_run flip: erase_process)
  with o show ?thesis by (simp add: observed_handle_def handle_def consumer_delete_def split: sum.split)
qed

text \<open>The counters that say what became of a message.\<close>

fun tells_outcome :: "metric \<Rightarrow> bool" where
  "tells_outcome (TransactionResults k st src) \<longleftrightarrow> True"
| "tells_outcome MessageRetries \<longleftrightarrow> True"
| "tells_outcome MessagesDeadLettered \<longleftrightarrow> True"
| "tells_outcome _ \<longleftrightarrow> False"

lemma observed_process_counts:
  assumes "observed_process E c body w = (r, ss, w')"
  shows "(case r of
      Inr u \<Rightarrow> \<exists>cmd result w1. ProcessWager_Execute E cmd w1 = (Inr result, w')
        \<and> counted ss = counted (result_metrics (kind_string (pc_Kind cmd)) ''sqs'' result)
    | Inl err \<Rightarrow> counted ss = [] \<or> counted ss = [ConcurrencyConflicts])"
proof (cases "decode_envelope body")
  case None
  then show ?thesis using assms by (auto simp: observed_process_def failO_def quiet_def failP_def)
next
  case (Some e)
  obtain b w1 where b: "buildCommand E c e w = (b, w1)" by (metis prod.exhaust)
  show ?thesis
  proof (cases "mv_MessageID e = [] \<or> (\<exists>err. b = Inl err)")
    case True
    then have "\<exists>err. r = Inl err \<and> ss = []" using assms Some b
      by (cases "mv_MessageID e = []") (auto simp: observed_process_def failO_def quiet_def failP_def bindO_def)
    then show ?thesis by auto
  next
    case False
    then obtain cmd where cmd: "b = Inr cmd" by (cases b) auto
    obtain x ts w2 where x: "observed_Execute E cmd w1 = (x, ts, w2)" by (metis prod.exhaust)
    then have run: "ProcessWager_Execute E cmd w1 = (x, w2)" by (simp add: erase_run flip: erase_Execute)
    note parts = assms Some b cmd x False observed_Execute_counts [OF x]
    show ?thesis
    proof (cases x)
      case (Inl err)
      with parts show ?thesis
        by (auto simp: observed_process_def bindO_def tryO_def emit_def quiet_def failO_def failP_def logOutcome_def
            process_metrics_def)
    next
      case (Inr out)
      with parts run show ?thesis
        by (fastforce simp: observed_process_def bindO_def tryO_def emit_def quiet_def retO_def retP_def logOutcome_def
            process_metrics_def)
    qed
  qed
qed

lemma handle_signals_counts:
  "counted (handle_signals r) = (case r of
     Inr u \<Rightarrow> [] | Inl err \<Rightarrow> if errors_Is err ErrPermanent then [MessagesDeadLettered] else [MessageRetries])"
  by (simp add: handle_signals_def split: sum.split)

text \<open>A message that is not processed has changed nothing, unless a commit went unacknowledged; one
  that is permanently unprocessable has changed nothing at all.\<close>

lemma process_atomic:
  assumes "process E c body w = (Inl err, w')"
  shows "wd_db w' = wd_db w \<or> unacknowledged E err"
proof -
  have "wd_db w2 = wd_db w1 \<or> unacknowledged E (process_error e)"
    if "ProcessWager_Execute E cmd w1 = (Inl e, w2)" for cmd e w1 w2
    using Execute_atomic [OF that] by (auto simp: process_error_def unacknowledged_def)
  moreover have "wd_db w1 = wd_db w" if "buildCommand E c e w = (b, w1)" for e b w1
    using buildCommand_db [of E c e w] that by simp
  ultimately show ?thesis using assms
    by (fastforce simp: process_def bindP_def tryP_def retP_def failP_def split: option.splits if_splits prod.splits sum.splits)
qed

lemma unacknowledged_transient: "unacknowledged E err \<Longrightarrow> \<not> errors_Is err ErrPermanent"
  by (auto simp: unacknowledged_def)

text \<open>The trace context that came with the message; the propagator reads it from the carrier.\<close>

definition contextFromMessageAttributes ::
  "('c \<Rightarrow> (string \<times> string) list \<Rightarrow> 'c) \<Rightarrow> 'c \<Rightarrow> (string \<times> string option) list \<Rightarrow> 'c" where
  "contextFromMessageAttributes extract ctx attrs =
     (if attrs = [] then ctx else extract ctx [(key, v). (key, Some v) \<leftarrow> attrs])"

section \<open>The publisher\<close>

definition contextFromTraceParent :: "('c \<Rightarrow> (string \<times> string) list \<Rightarrow> 'c) \<Rightarrow> 'c \<Rightarrow> string \<Rightarrow> 'c" where
  "contextFromTraceParent extract ctx traceParent =
     (if traceParent = [] then ctx else extract ctx [(''traceparent'', traceParent)])"

definition observed_Publish ::
  "(send_input \<Rightarrow> nat \<Rightarrow> string option) \<Rightarrow> env \<Rightarrow> (string \<Rightarrow> (string \<times> string) list) \<Rightarrow> string
     \<Rightarrow> outbox_record \<Rightarrow> nat \<Rightarrow> signal list \<times> goerr option" where
  "observed_Publish send E inject queueURL rec n =
     (let err = send (event_message E inject queueURL rec) n in
      ([StartSpan (''publish '' @ ob_Type rec),
        SetAttributes [StringField ''messaging.system'' ''aws_sqs'', StringField ''messaging.destination.name'' queueURL,
          StringField ''jungle.event_id'' (uuid_String E (ob_EventID rec)), StringField ''jungle.event_type'' (ob_Type rec)]]
       @ (case err of
            Some e \<Rightarrow> [RecordError (DriverErr e), SetStatusError (ErrorText (DriverErr e)), Metric OutboxRetries]
          | None \<Rightarrow> [Metric OutboxPublished])
       @ [EndSpan],
       map_option (\<lambda>e. WrapErr ''publishing event'' (DriverErr e)) err))"

text \<open>An attempt to publish is counted once, as what it was.\<close>

lemma observed_Publish_erases: "snd (observed_Publish send E inject queueURL rec n) = Publisher_Publish send E inject queueURL rec n"
  by (simp add: observed_Publish_def Publisher_Publish_def Let_def)

lemma observed_Publish_counts:
  "counted (fst (observed_Publish send E inject queueURL rec n)) =
     [if Publisher_Publish send E inject queueURL rec n = None then OutboxPublished else OutboxRetries]"
  by (simp add: observed_Publish_def Publisher_Publish_def Let_def split: option.split)

section \<open>The jobs\<close>

text \<open>A unit of work whose closure emits signals; they stand even when it is rolled back.\<close>

definition run_txO :: "env \<Rightarrow> 'a observed \<Rightarrow> 'a observed" where
  "run_txO E body w =
     (case body w of
        (Inl e, ss, w') \<Rightarrow> (Inl e, ss, w'\<lparr>wd_db := wd_db w\<rparr>)
      | (Inr x, ss, w') \<Rightarrow>
          (case wrapP ''committing transaction'' (commit E (wd_db w)) w' of
             (Inl e, w'') \<Rightarrow> (Inl e, ss, w'')
           | (Inr _, w'') \<Rightarrow> (Inr x, ss, w'')))"

definition withinO :: "env \<Rightarrow> 'a observed \<Rightarrow> 'a observed" where
  "withinO E body = bindO (quiet (wrapP ''beginning transaction'' (begin_tx E))) (\<lambda>_. run_txO E body)"

lemma erase_withinO [erase_simps]: "erase (withinO E body) = within E (erase body)"
proof -
  have "erase (run_txO E body) = run_tx E (erase body)"
    by (rule ext) (simp add: erase_def run_txO_def run_tx_def split: prod.split sum.split)
  then show ?thesis by (simp add: withinO_def within_def erase_simps)
qed

definition observed_claim_batch :: "env \<Rightarrow> publish_policy \<Rightarrow> string \<Rightarrow> time \<Rightarrow> outbox_record list observed" where
  "observed_claim_batch E p owner now =
     withinO E (bindO (quiet (outboxRepo_OldestPending E Tx now)) (\<lambda>(lag, pending).
       bindO (emit [Metric (OutboxLagSeconds (if pending then lag else 0))]) (\<lambda>_.
       quiet (outboxRepo_Claim E Tx owner (pp_BatchSize p) (pp_LockFor p) now))))"

definition observed_claim_references :: "env \<Rightarrow> time \<Rightarrow> pending_record list observed" where
  "observed_claim_references E now =
     withinO E (bindO (quiet (transactionRepo_CountPendingReference E Tx)) (\<lambda>backlog.
       bindO (emit [Metric (PendingReferences backlog)]) (\<lambda>_.
       quiet (transactionRepo_ClaimPendingReference E Tx batchSize now))))"

definition observed_permanent_failure :: "env \<Rightarrow> reference_policy \<Rightarrow> pending_record \<Rightarrow> goerr \<Rightarrow> bool observed" where
  "observed_permanent_failure E p rec cause =
     (let i = StringField ''transactionId'' (uuid_String E (tx_id (pr_Transaction rec))) in
     bindO (quiet (ctx_err E)) (\<lambda>cancelled.
     if cancelled \<noteq> None then retO False
     else if pr_Attempts rec + 1 < rp_MaxAttempts p then retO False
     else
       bindO (quiet (read_clock E)) (\<lambda>now.
       bindO (tryO (quiet (within E (permanent_failure_body E rec now)))) (\<lambda>r. case r of
         Inl err \<Rightarrow>
           bindO (emit [Log ErrorLevel ''could not record a permanent failure for audit''
             [i, NamedError ''cause'' cause, ErrorField err]]) (\<lambda>_. retO False)
       | Inr recorded \<Rightarrow>
           bindO (emit (if recorded then
             [Log ErrorLevel ''pending reference abandoned after a permanent infrastructure failure''
                [i, IntField ''attempts'' (pr_Attempts rec + 1), NamedError ''cause'' cause], Metric PermanentFailures]
             else [])) (\<lambda>_. retO recorded)))))"

lemma erase_jobs [erase_simps]:
  "erase (observed_claim_batch E p owner now) = claim_batch E p owner now"
  "erase (observed_claim_references E now) = claim_references E now"
  "erase (observed_permanent_failure E rp rec cause) = recordPermanentFailure E rp rec"
  by (simp_all add: observed_claim_batch_def claim_batch_def observed_claim_references_def claim_references_def
      observed_permanent_failure_def recordPermanentFailure_def Let_def erase_simps split_def cong: sum.case_cong if_cong)

text \<open>A permanent failure is counted exactly when it was recorded.\<close>

lemma permanent_failure_counts:
  "observed_permanent_failure E p rec cause w = (r, ss, w') \<Longrightarrow>
     counted ss = (if r = Inr True then [PermanentFailures] else [])"
  by (auto simp: observed_permanent_failure_def Let_def bindO_def tryO_def emit_def quiet_def retO_def retP_def
      split: prod.splits sum.splits if_splits)

end
