(* ===== verification/Telemetry.thy ===== *)
theory Telemetry
  imports Observability Reads
begin

text \<open>
  The signals of the HTTP interface (\<open>internal/httpapi/metrics.go\<close>, \<open>Authenticate\<close>, \<open>SubmitTransaction\<close>,
  \<open>Reconcile\<close> and \<open>logOutcome\<close> of \<open>handlers.go\<close>), and what the counters say: of the messages of the
  queue, of submissions, of rejected tokens and of reconciliations.
\<close>

section \<open>Authentication\<close>

definition observeAuthFailure :: "string \<Rightarrow> signal" where
  "observeAuthFailure reason = Metric (AuthFailures reason)"

definition observed_Authenticate :: "http_env option \<Rightarrow> request \<Rightarrow> signal list \<times> (response + identity)" where
  "observed_Authenticate verifier rq =
     (case bearerToken (rq_Header rq ''Authorization'') of
        None \<Rightarrow> ([observeAuthFailure ''missing''], Inl (abortWith 401 CodeUnauthenticated))
      | Some raw \<Rightarrow>
          (case lazyVerifier_Verify verifier raw of
             Inl err \<Rightarrow> ([Log WarnLevel ''rejected token'' [ErrorField err], observeAuthFailure ''invalid''],
               Inl (abortWith 401 CodeUnauthenticated))
           | Inr who \<Rightarrow> ([], Inr who)))"

lemma observed_Authenticate_erases: "snd (observed_Authenticate v rq) = Authenticate v rq"
  by (simp add: observed_Authenticate_def Authenticate_def split: option.split sum.split)

lemma observed_Authenticate_counts:
  "(case Authenticate v rq of
      Inl rs \<Rightarrow> \<exists>reason \<in> {''missing'', ''invalid''}. counted (fst (observed_Authenticate v rq)) = [AuthFailures reason]
    | Inr who \<Rightarrow> fst (observed_Authenticate v rq) = [])"
  by (simp add: observed_Authenticate_def observeAuthFailure_def Authenticate_def split: option.split sum.split)

section \<open>Submissions\<close>

definition observeSubmission :: "goerr + process_result \<Rightarrow> signal list" where
  "observeSubmission r = Metric (ProcessingLatency ''http'') # (case r of
     Inl err \<Rightarrow>
       if errors_Is err (AppErr ErrConcurrencyConflict) then [Metric ConcurrencyConflicts]
       else if errors_Is err (AppErr ErrIdempotencyConflict) then [Metric (Duplicates ''payload-conflict'')]
       else if errors_Is err (AppErr ErrOperationIdentityConflict) then [Metric (Duplicates ''operation-identity'')]
       else []
   | Inr result \<Rightarrow> result_metrics (kind_string (tx_kind (ps_Transaction result))) ''http'' result)"

definition http_fields :: "env \<Rightarrow> process_command \<Rightarrow> string \<Rightarrow> field list" where
  "http_fields E cmd src =
     [StringField ''source'' src, StringField ''correlationId'' (uuid_String E (pc_CorrelationID cmd)),
      StringField ''providerId'' (pc_ProviderID cmd),
      StringField ''externalTransactionId'' (pc_ExternalTransactionID cmd),
      StringField ''walletId'' (uuid_String E (pc_WalletID cmd)),
      StringField ''playerId'' (uuid_String E (pc_PlayerID cmd)), StringField ''kind'' (kind_string (pc_Kind cmd))]
     @ (if pc_MessageID cmd \<noteq> [] then [StringField ''messageId'' (pc_MessageID cmd)] else [])"

definition H_logOutcome :: "env \<Rightarrow> process_command \<Rightarrow> string \<Rightarrow> goerr + process_result \<Rightarrow> signal" where
  "H_logOutcome E cmd src r = logOutcome E (http_fields E cmd src) r"

definition answerO :: "'a observed \<Rightarrow> (goerr + 'a \<Rightarrow> signal list) \<Rightarrow> ('a \<Rightarrow> response) \<Rightarrow> response observed" where
  "answerO f tell ok = bindO (tryO f) (\<lambda>r. bindO (emit (tell r)) (\<lambda>_.
     retO (case r of Inl err \<Rightarrow> respondError err | Inr x \<Rightarrow> ok x)))"

lemma erase_answerO [erase_simps]: "erase (answerO f tell ok) = answerP (erase f) ok"
  by (simp add: answerO_def answerP_def erase_simps)

definition observed_SubmitTransaction :: "http_env \<Rightarrow> env \<Rightarrow> identity option \<Rightarrow> request \<Rightarrow> response observed" where
  "observed_SubmitTransaction H E who rq =
     (case who of None \<Rightarrow> retO (abortWith 401 CodeUnauthenticated)
      | Some i \<Rightarrow>
        if rq_Header rq ''Idempotency-Key'' = [] then retO (abortWith 400 CodeInvalidRequest)
        else case bind_submit H (rq_Body rq) of None \<Rightarrow> retO (abortWith 400 CodeInvalidRequest)
        | Some req \<Rightarrow>
          if \<not> MayActAsProvider i (sq_ProviderID req) then retO (abortWith 403 CodeForbidden)
          else
            bindO (quiet (correlationID E rq)) (\<lambda>cid.
            bindO (case buildProcessCommand E req (rq_Header rq ''Idempotency-Key'') cid of
                Inl err \<Rightarrow> retO (respondError err)
              | Inr cmd \<Rightarrow> answerO (observed_Execute E cmd)
                  (\<lambda>r. observeSubmission r @ [H_logOutcome E cmd ''http'' r]) (respondSubmitResult E)) (\<lambda>rs.
            retO (correlated E cid rs))))"

lemma erase_Submit [erase_simps]: "erase (observed_SubmitTransaction H E who rq) = H_SubmitTransaction H E who rq"
  by (simp add: observed_SubmitTransaction_def H_SubmitTransaction_def erase_simps split: option.split cong: sum.case_cong)

section \<open>Reconciliations\<close>

definition observeReconciliationDivergence :: signal where
  "observeReconciliationDivergence = Metric ReconciliationDivergences"

definition reconcile_signals :: "env \<Rightarrow> reconcile_result \<Rightarrow> signal list" where
  "reconcile_signals E r =
     (if \<not> rr_Consistent r then
        [Log ErrorLevel ''wallet reconciliation divergence''
           [StringField ''walletId'' (uuid_String E (rr_WalletID r)),
            StringField ''storedBalance'' (DecimalString (rr_StoredBalance r)),
            StringField ''calculatedBalance'' (DecimalString (rr_CalculatedBalance r)),
            StringField ''difference'' (DecimalString (rr_Difference r)),
            IntField ''checkedEntries'' (rr_CheckedEntries r)],
         observeReconciliationDivergence]
      else [])"

definition observed_Reconcile :: "http_env \<Rightarrow> env \<Rightarrow> identity option \<Rightarrow> request \<Rightarrow> response observed" where
  "observed_Reconcile H E who rq =
     (case who of None \<Rightarrow> retO (abortWith 401 CodeUnauthenticated)
      | Some i \<Rightarrow> (case uuid_Parse E (rq_Param rq ''walletId'') of None \<Rightarrow> retO (abortWith 400 CodeInvalidRequest)
      | Some walletID \<Rightarrow>
          answerO (quiet (Queries_Reconcile E (between_reads H) i walletID))
            (\<lambda>r. case r of Inl err \<Rightarrow> [] | Inr x \<Rightarrow> reconcile_signals E x)
            (\<lambda>r. json_response 200 (ReconciliationBody
            \<lparr>cp_WalletID = uuid_String E (rr_WalletID r), cp_StoredBalance = moneyOut (rr_StoredBalance r),
             cp_CalculatedBalance = moneyOut (rr_CalculatedBalance r), cp_Difference = moneyOut (rr_Difference r),
             cp_Consistent = rr_Consistent r, cp_CheckedEntries = rr_CheckedEntries r\<rparr>))))"

lemma erase_Reconcile [erase_simps]: "erase (observed_Reconcile H E who rq) = H_Reconcile H E who rq"
  by (simp add: observed_Reconcile_def H_Reconcile_def erase_simps split: option.split)

text \<open>The alarm rings for a wallet that was moved between the two reads, and for no other: without
  interference it is silent.\<close>

lemma no_divergence_is_counted:
  assumes "reaches E' empty_db (wd_db w)" and quiet: "between_reads H (wd_db w) = wd_db w"
    and run: "observed_Reconcile H E who rq w = (r, ss, w')"
  shows "counted ss = []"
proof -
  have "reconcile_signals E rr = []" if "Queries_Reconcile E (between_reads H) i j w = (Inr rr, w1)" for i j rr w1
    using Reconcile_run [OF that reachable_books [OF assms(1)]] reachable_books [OF assms(1)] quiet
    by (simp add: reconcile_signals_def compares_def)
  then show ?thesis using run
    by (auto simp: observed_Reconcile_def answerO_def bindO_def tryO_def emit_def quiet_def retO_def retP_def
        split: option.splits prod.splits sum.splits)
qed

section \<open>Requests\<close>

definition observed_handler :: "http_env \<Rightarrow> env \<Rightarrow> route \<Rightarrow> identity option \<Rightarrow> request \<Rightarrow> response observed" where
  "observed_handler H E r who rq =
     (if r = PostTransactions then observed_SubmitTransaction H E who rq
      else if r = PostReconciliation then observed_Reconcile H E who rq
      else quiet (handler H E r who rq))"

definition observed_serve :: "http_env \<Rightarrow> env \<Rightarrow> bool \<Rightarrow> route \<Rightarrow> request \<Rightarrow> response observed" where
  "observed_serve H E ready r rq =
     (case observed_Authenticate (if ready then Some H else None) rq of
        (ss, Inl rs) \<Rightarrow> bindO (emit ss) (\<lambda>_. retO rs)
      | (ss, Inr who) \<Rightarrow> bindO (emit ss) (\<lambda>_. observed_handler H E r (Some who) rq))"

lemma erase_serve: "erase (observed_serve H E ready r rq) = serve H E ready r rq"
proof -
  have "erase (observed_handler H E r who rq) = handler H E r who rq" for who
    by (cases r) (simp_all add: observed_handler_def erase_simps)
  then show ?thesis
    using observed_Authenticate_erases [of "if ready then Some H else None" rq]
    by (auto simp: observed_serve_def serve_def erase_simps split: prod.split sum.split)
qed

text \<open>The outcome of a submission that was executed is counted once, under the status that the answer
  shows; a refused duplicate is counted under the mechanism that its code names.\<close>

lemma result_metrics_counts:
  "counted (result_metrics k src out) =
     TransactionResults k (status_string (tx_status (ps_Transaction out))) src
       # (if ps_IdempotentReplay out then [Duplicates ''idempotency-key''] else [])"
  by (simp add: result_metrics_def)

definition submission_counts :: "response \<Rightarrow> metric list \<Rightarrow> bool" where
  "submission_counts rs ms \<longleftrightarrow>
     (case rs_Body rs of
        SubmitBody b \<Rightarrow> \<exists>k. ms = ProcessingLatency ''http'' # TransactionResults k (sp_Status b) ''http''
            # (if sp_IdempotentReplay b then [Duplicates ''idempotency-key''] else [])
      | ErrorBody CodeIdempotencyConflict \<Rightarrow> ms = [ProcessingLatency ''http'', Duplicates ''payload-conflict'']
      | ErrorBody CodeOperationConflict \<Rightarrow> ms = [ProcessingLatency ''http'', Duplicates ''operation-identity'']
      | ErrorBody c \<Rightarrow> ms = [ProcessingLatency ''http''] \<or> ms = [ProcessingLatency ''http'', ConcurrencyConflicts]
      | _ \<Rightarrow> False)"

lemma observeSubmission_counts:
  "submission_counts (case r of Inl err \<Rightarrow> respondError err | Inr x \<Rightarrow> respondSubmitResult E x) (counted (observeSubmission r))"
proof (cases r)
  case (Inl err)
  then show ?thesis by (simp add: submission_counts_def observeSubmission_def respondError_def)
next
  case (Inr x)
  then show ?thesis
    by (simp add: submission_counts_def observeSubmission_def result_metrics_counts submit_body submitOut_def)
qed

section \<open>Messages\<close>

lemma tells_outcome_result: "filter tells_outcome (counted (result_metrics k src out)) =
    [TransactionResults k (status_string (tx_status (ps_Transaction out))) src]"
  by (simp add: result_metrics_counts)

lemma observed_handle_run:
  assumes "observed_process E c (case sm_Body m of None \<Rightarrow> [] | Some b \<Rightarrow> b) (cs_world s) = (r, ss, w)"
  shows "counted (fst (observed_handle D E q c m s)) = counted ss @ counted (handle_signals r) @ [ProcessingLatency ''sqs'']"
    and "process E c (case sm_Body m of None \<Rightarrow> [] | Some b \<Rightarrow> b) (cs_world s) = (r, w)"
    and "cs_world (handle E c m s) = w"
    and "cs_calls (handle E c m s) = cs_calls s @ (case r of Inl e \<Rightarrow> [] | Inr u \<Rightarrow> [DeleteMessage (sm_ReceiptHandle m)])"
proof -
  show p: "process E c (case sm_Body m of None \<Rightarrow> [] | Some b \<Rightarrow> b) (cs_world s) = (r, w)"
    using assms by (auto simp: erase_run simp flip: erase_process)
  show "counted (fst (observed_handle D E q c m s)) = counted ss @ counted (handle_signals r) @ [ProcessingLatency ''sqs'']"
    using assms by (simp add: observed_handle_def handle_attributes_def consumer_delete_def split: sum.split option.split)
  show "cs_world (handle E c m s) = w"
    and "cs_calls (handle E c m s) = cs_calls s @ (case r of Inl e \<Rightarrow> [] | Inr u \<Rightarrow> [DeleteMessage (sm_ReceiptHandle m)])"
    using p by (simp_all add: handle_def split: sum.split)
qed

text \<open>C22: the counters of the consumer are true: handling a message with its signals does what handling
  it without them does; it counts the message exactly once, as processed, as dead-lettered or as
  retried, and one duration. A message is deleted exactly when it is counted as processed; one that
  is counted as dead-lettered has changed no table, and one that is counted as retried has changed
  none either when commits are acknowledged.\<close>

theorem messages_are_counted_truly:
  "snd (observed_handle D E q c m s) = handle E c m s
    \<and> (\<exists>x. filter tells_outcome (counted (fst (observed_handle D E q c m s))) = [x]
        \<and> (cs_calls (handle E c m s) = cs_calls s @ [DeleteMessage (sm_ReceiptHandle m)]
             \<longleftrightarrow> (\<exists>k st. x = TransactionResults k st ''sqs''))
        \<and> (x = MessagesDeadLettered \<longrightarrow> wd_db (cs_world (handle E c m s)) = wd_db (cs_world s))
        \<and> (x = MessageRetries \<longrightarrow> acknowledges E \<longrightarrow> wd_db (cs_world (handle E c m s)) = wd_db (cs_world s)))
    \<and> count_list (counted (fst (observed_handle D E q c m s))) (ProcessingLatency ''sqs'') = 1"
proof -
  let ?body = "case sm_Body m of None \<Rightarrow> [] | Some b \<Rightarrow> b"
  obtain r ss w where o: "observed_process E c ?body (cs_world s) = (r, ss, w)" by (metis prod.exhaust)
  note h = observed_handle_run [OF o] and cs = observed_process_counts [OF o]
  show ?thesis
  proof (cases r)
    case (Inl err)
    then have "counted ss = [] \<or> counted ss = [ConcurrencyConflicts]" using cs by simp
    moreover have "wd_db w = wd_db (cs_world s) \<or> unacknowledged E err" using process_atomic h(2) Inl by blast
    ultimately show ?thesis
      using Inl h(3,4) observed_handle_erases [of D E q c m s] unacknowledged_transient [of E err]
      by (auto simp: h(1) handle_signals_counts acknowledges_def unacknowledged_def)
  next
    case (Inr u)
    then obtain k out where "counted ss = counted (result_metrics k ''sqs'' out)" using cs by auto
    then show ?thesis
      using Inr h(3,4) observed_handle_erases [of D E q c m s] tells_outcome_result [of k "''sqs''" out]
      by (simp add: h(1) handle_signals_counts result_metrics_counts)
  qed
qed

theorem messages_are_counted_truly_witness:
  "filter tells_outcome (counted (fst (observed_handle (\<lambda>_. None) calm_env ''q'' ''c'' \<lparr>sm_Body = Some demo_body, sm_ReceiptHandle = Some ''h''\<rparr>
       \<lparr>cs_world = demo_world demo_db1 100, cs_calls = [], cs_fetch = 0, cs_work = 0, cs_receives = 0\<rparr>)))
     \<in> {[TransactionResults k st ''sqs''] | k st. True}"
proof -
  let ?m = "\<lparr>sm_Body = Some demo_body, sm_ReceiptHandle = Some ''h''\<rparr>"
    and ?s = "\<lparr>cs_world = demo_world demo_db1 100, cs_calls = [], cs_fetch = 0, cs_work = 0, cs_receives = 0\<rparr>"
  obtain w1 where "process calm_env ''c'' demo_body (demo_world demo_db1 100) = (Inr (), w1)"
    by (rule demo_redelivered)
  then have "cs_calls (handle calm_env ''c'' ?m ?s) = cs_calls ?s @ [DeleteMessage (sm_ReceiptHandle ?m)]"
    by (simp add: handle_def)
  with messages_are_counted_truly [of "\<lambda>_. None" calm_env "''q''" "''c''" ?m ?s] show ?thesis by auto
qed

end
