(* ===== verification/Server.thy ===== *)
theory Server
  imports Signals
begin

text \<open>
  The HTTP server of \<open>internal/server/server.go\<close>: the middleware around every handler and the hooks that
  open and close the listener; and the choice of a tracer provider in \<open>internal/observability/tracing.go\<close>. What gin
  does with a request is a function on its context; a handler returns or panics. What a
  library call answers (\<open>net.Listen\<close>, \<open>resource.Merge\<close>, the exporter, \<open>Shutdown\<close>) is a parameter.
\<close>

section \<open>The context of a request\<close>

text \<open>The part of \<open>gin.Context\<close> that the middleware looks at. A status that was written stays.\<close>

record gin_context =
  gc_Method :: string
  gc_Path :: string
  gc_ClientIP :: string
  gc_RequestHeader :: "string \<Rightarrow> string"
  gc_Errors :: "string list"
  gc_Status :: nat
  gc_Written :: bool
  gc_Header :: "string \<Rightarrow> string"

datatype ending = Returned | Panicked string

type_synonym gin_handler = "gin_context \<Rightarrow> signal list \<times> ending \<times> gin_context"

definition AbortWithStatus :: "nat \<Rightarrow> gin_context \<Rightarrow> gin_context" where
  "AbortWithStatus status c = (if gc_Written c then c else c\<lparr>gc_Status := status, gc_Written := True\<rparr>)"

section \<open>Middleware\<close>

text \<open>The filter of the tracing middleware.\<close>

definition traced :: "string \<Rightarrow> bool" where
  "traced path \<longleftrightarrow> path \<notin> {''/health/live'', ''/health/ready'', ''/metrics''}"

text \<open>The middleware of OpenTelemetry runs the rest of the chain, in a span when the filter accepts the path.\<close>

definition otel_middleware :: "(gin_context \<Rightarrow> string) \<Rightarrow> gin_handler \<Rightarrow> gin_handler" where
  "otel_middleware span_name rest c =
     (if traced (gc_Path c) then
        (case rest c of (ss, e, c') \<Rightarrow> (StartSpan (span_name c) # ss @ [EndSpan], e, c'))
      else rest c)"

text \<open>A panic passes through it unlogged. \<open>errors_text\<close> is the text that gin makes of the errors.\<close>

definition correlation_fields :: "gin_context \<Rightarrow> field list" where
  "correlation_fields c =
     (if gc_Header c ''X-Correlation-Id'' \<noteq> [] then [StringField ''correlationId'' (gc_Header c ''X-Correlation-Id'')]
      else if gc_RequestHeader c ''X-Correlation-Id'' \<noteq> []
        then [StringField ''correlationId'' (gc_RequestHeader c ''X-Correlation-Id'')]
      else [])"

definition loggingMiddleware :: "(string list \<Rightarrow> string) \<Rightarrow> gin_handler \<Rightarrow> gin_handler" where
  "loggingMiddleware errors_text rest c =
     (let path = gc_Path c in
      case rest c of
        (ss, Panicked p, c') \<Rightarrow> (ss, Panicked p, c')
      | (ss, Returned, c') \<Rightarrow>
          (let fs = [StringField ''method'' (gc_Method c'), StringField ''path'' path,
                 IntField ''status'' (int (gc_Status c')), StringField ''client_ip'' (gc_ClientIP c')]
               @ correlation_fields c' in
           (ss @ [if gc_Errors c' \<noteq> []
                  then Log ErrorLevel ''http request failed'' (fs @ [StringField ''error'' (errors_text (gc_Errors c'))])
                  else Log InfoLevel ''http request'' fs], Returned, c')))"

definition recoveryMiddleware :: "gin_handler \<Rightarrow> gin_handler" where
  "recoveryMiddleware rest c =
     (case rest c of
        (ss, Returned, c') \<Rightarrow> (ss, Returned, c')
      | (ss, Panicked p, c') \<Rightarrow>
          (ss @ [Log ErrorLevel ''panic recovered''
             [StringField ''error'' p, StringField ''method'' (gc_Method c'), StringField ''path'' (gc_Path c')]],
           Returned, AbortWithStatus 500 c'))"

text \<open>\<open>NewEngine\<close>: the order of \<open>Use\<close>, around what the route runs.\<close>

definition NewEngine ::
  "(gin_context \<Rightarrow> string) \<Rightarrow> (string list \<Rightarrow> string) \<Rightarrow> gin_handler \<Rightarrow> gin_handler" where
  "NewEngine span_name errors_text h =
     otel_middleware span_name (recoveryMiddleware (loggingMiddleware errors_text h))"

text \<open>Whatever a handler does, the engine returns: it logs exactly one entry of its own after those of
  the handler, as an error exactly when the handler panicked or left errors; and a handler that panics
  before anything was written is answered 500, while the context of one that returns is left alone.\<close>

lemma engine_logs_every_request:
  assumes "h c = (ss, e, c')"
  shows "\<exists>ts entry c''. NewEngine span_name errors_text h c = (ts, Returned, c'')
    \<and> logged ts = logged ss @ [entry] \<and> counted ts = counted ss
    \<and> (fst entry = ErrorLevel \<longleftrightarrow> e \<noteq> Returned \<or> gc_Errors c' \<noteq> [])
    \<and> (e = Returned \<longrightarrow> c'' = c')
    \<and> (e \<noteq> Returned \<longrightarrow> \<not> gc_Written c' \<longrightarrow> gc_Status c'' = 500)"
proof (cases e)
  case Returned
  then show ?thesis using assms
    by (auto simp: NewEngine_def otel_middleware_def recoveryMiddleware_def loggingMiddleware_def Let_def)
next
  case (Panicked p)
  then show ?thesis using assms
    by (auto simp: NewEngine_def otel_middleware_def recoveryMiddleware_def loggingMiddleware_def AbortWithStatus_def)
qed

lemma engine_logs_every_request_example:
  "\<exists>ts c''. NewEngine (\<lambda>_. []) concat (\<lambda>c. ([], Panicked ''nil map'', c))
       \<lparr>gc_Method = ''GET'', gc_Path = ''/wallets'', gc_ClientIP = ''10.0.0.1'', gc_RequestHeader = (\<lambda>_. []),
        gc_Errors = [], gc_Status = 200, gc_Written = False, gc_Header = (\<lambda>_. [])\<rparr> = (ts, Returned, c'')
     \<and> gc_Status c'' = 500 \<and> length (logged ts) = 1"
  by (simp add: NewEngine_def otel_middleware_def traced_def recoveryMiddleware_def loggingMiddleware_def
      AbortWithStatus_def)

text \<open>Health checks and scrapes of the metrics make no spans.\<close>

lemma untraced_paths:
  "\<not> traced (gc_Path c) \<Longrightarrow> NewEngine span_name errors_text h c = recoveryMiddleware (loggingMiddleware errors_text h) c"
  by (simp add: NewEngine_def otel_middleware_def)

section \<open>The server\<close>

datatype server_call = Listen string string | Serve string | Shutdown

definition server_Addr :: "'f config \<Rightarrow> string" where
  "server_Addr cfg = '':'' @ show_int (cfg_Port cfg)"

text \<open>The start hook fails when the port cannot be opened, and otherwise serves in the background.\<close>

definition server_OnStart :: "(string \<Rightarrow> goerr option) \<Rightarrow> 'f config \<Rightarrow> goerr option \<times> server_call list" where
  "server_OnStart listen cfg =
     (case listen (server_Addr cfg) of
        Some err \<Rightarrow> (Some err, [Listen ''tcp'' (server_Addr cfg)])
      | None \<Rightarrow> (None, [Listen ''tcp'' (server_Addr cfg), Serve (server_Addr cfg)]))"

definition server_OnStop :: "goerr option \<Rightarrow> goerr option \<times> server_call list" where
  "server_OnStop shutdown = (shutdown, [Shutdown])"

lemma server_OnStart_serves:
  "Serve a \<in> set (snd (server_OnStart listen cfg)) \<longleftrightarrow> fst (server_OnStart listen cfg) = None \<and> a = server_Addr cfg"
  by (auto simp: server_OnStart_def split: option.splits)

section \<open>Tracing\<close>

datatype propagator = TraceContext | Baggage

definition propagator :: "propagator list" where
  "propagator = [TraceContext, Baggage]"

text \<open>The provider, which is also made the global one, and whether hooks were appended.\<close>

datatype 'f provider =
    NoopProvider
  | SdkProvider string string string 'f \<comment> \<open>service, instance, endpoint, ratio of the root spans that are sampled\<close>

record 'f tracing =
  tg_Provider :: "'f provider"
  tg_Propagator :: "propagator list"
  tg_Hooks :: bool

text \<open>\<open>resource_Merge\<close> and \<open>exporter_New\<close> tell how these calls fail, if they do.\<close>

definition NewTracerProvider ::
  "(string \<Rightarrow> string \<Rightarrow> goerr option) \<Rightarrow> (string \<Rightarrow> goerr option) \<Rightarrow> 'f config \<Rightarrow> goerr + 'f tracing" where
  "NewTracerProvider resource_Merge exporter_New cfg =
     (let t = cfg_Tracing cfg in
      if \<not> ct_Enabled t then Inr \<lparr>tg_Provider = NoopProvider, tg_Propagator = propagator, tg_Hooks = False\<rparr>
      else case resource_Merge (ct_ServiceName t) (cfg_InstanceID cfg) of
        Some err \<Rightarrow> Inl (WrapErr ''building tracing resource'' err)
      | None \<Rightarrow> (case exporter_New (ct_Endpoint t) of
          Some err \<Rightarrow> Inl (WrapErr ''creating otlp exporter'' err)
        | None \<Rightarrow> Inr \<lparr>tg_Provider = SdkProvider (ct_ServiceName t) (cfg_InstanceID cfg) (ct_Endpoint t) (ct_SampleRatio t),
            tg_Propagator = propagator, tg_Hooks = True\<rparr>))"

text \<open>The stop hook flushes and never fails.\<close>

definition tracing_OnStop :: "goerr option \<Rightarrow> goerr option \<times> signal list" where
  "tracing_OnStop shutdown =
     (None, case shutdown of Some err \<Rightarrow> [Log WarnLevel ''flushing pending spans failed'' [ErrorField err]] | None \<Rightarrow> [])"

text \<open>With tracing disabled nothing can fail; and trace contexts are propagated whether or not spans are recorded.\<close>

lemma tracing_disabled: "\<not> ct_Enabled (cfg_Tracing cfg) \<Longrightarrow> \<exists>t. NewTracerProvider m x cfg = Inr t \<and> tg_Provider t = NoopProvider"
  by (simp add: NewTracerProvider_def)

lemma tracing_propagates: "NewTracerProvider m x cfg = Inr t \<Longrightarrow> tg_Propagator t = [TraceContext, Baggage]"
  by (auto simp: NewTracerProvider_def propagator_def Let_def split: if_splits option.splits)

end
