(* ===== verification/Process.thy ===== *)
theory Process
  imports Workers
begin

text \<open>
  The composition of the process: the modules of \<open>cmd/jungle/main.go\<close> with the constructors they provide, the
  functions they invoke and the hooks these append to the life cycle. Fx builds and runs it; what the
  program relies on is stated of the order in which Fx calls the constructors (\<open>fx_order\<close>) and of
  the hooks that it starts and stops (\<open>fx_life\<close>), as its documentation has it. What the hooks of a worker do
  is in \<open>Workers\<close>; \<open>worker_moment\<close> says where each worker may be while Fx is at some place of the stop.
\<close>

section \<open>Modules\<close>

text \<open>The constructors and the invoked functions. The functions that only take a value, so that it is constructed, are
  named after it.\<close>

datatype part =
    P_zap | P_Config | P_NewPool | P_NewUnitOfWork | P_NewPoolRepos | P_Pool
  | P_NewClient | P_NewConsumer | P_NewPublisher | P_Client
  | P_NewEngine | P_NewHTTPServer | P_Server
  | P_SystemClock | P_ReferencePolicy | P_PublishPolicy | P_NewOpenWallet | P_NewProcessWager | P_NewQueries
  | P_NewResolveReferences | P_NewPublishOutbox | P_InstanceID
  | P_NewHandlers | P_newVerifier | P_httpapi_RouteSet | P_health_NewHandler | P_health_RouteSet
  | P_NewTracerProvider | P_TracerProvider | P_metrics_RouteSet
  | P_RegisterConsumer | P_RegisterOutboxPublisher | P_RegisterReferenceResolver | P_Register

text \<open>A module: what it provides and what it invokes, each with the constructors of its parameters.\<close>

record fx_module =
  Provide :: "(part \<times> part list) list"
  Invoke :: "(part \<times> part list) list"

definition config_Module :: fx_module where
  "config_Module = \<lparr>Provide = [(P_Config, [])], Invoke = []\<rparr>"

definition postgres_Module :: fx_module where
  "postgres_Module =
     \<lparr>Provide = [(P_NewPool, [P_Config, P_zap, P_NewTracerProvider]), (P_NewUnitOfWork, [P_NewPool]),
        (P_NewPoolRepos, [P_NewPool])],
      Invoke = [(P_Pool, [P_NewPool])]\<rparr>"

definition queue_Module :: fx_module where
  "queue_Module =
     \<lparr>Provide = [(P_NewClient, [P_Config, P_zap]), (P_NewConsumer, [P_NewClient, P_NewProcessWager, P_Config, P_zap]),
        (P_NewPublisher, [P_NewClient, P_Config])],
      Invoke = [(P_Client, [P_NewClient])]\<rparr>"

definition server_Module :: fx_module where
  "server_Module =
     \<lparr>Provide = [(P_NewEngine, [P_zap, P_Config, P_NewTracerProvider]), (P_NewHTTPServer, [P_NewEngine, P_Config, P_zap])],
      Invoke = [(P_Server, [P_NewHTTPServer])]\<rparr>"

definition app_Module :: fx_module where
  "app_Module =
     \<lparr>Provide = [(P_SystemClock, []), (P_ReferencePolicy, []), (P_PublishPolicy, []),
        (P_NewOpenWallet, [P_NewUnitOfWork, P_SystemClock]),
        (P_NewProcessWager, [P_NewUnitOfWork, P_NewPoolRepos, P_SystemClock]),
        (P_NewQueries, [P_NewPoolRepos, P_NewUnitOfWork]),
        (P_NewResolveReferences, [P_NewUnitOfWork, P_NewProcessWager, P_SystemClock, P_ReferencePolicy, P_zap]),
        (P_NewPublishOutbox, [P_NewUnitOfWork, P_NewPublisher, P_SystemClock, P_InstanceID, P_PublishPolicy])],
      Invoke = []\<rparr>"

definition httpapi_Module :: fx_module where
  "httpapi_Module =
     \<lparr>Provide = [(P_NewHandlers, [P_NewOpenWallet, P_NewProcessWager, P_NewQueries, P_zap]),
        (P_newVerifier, [P_Config, P_zap]), (P_httpapi_RouteSet, [P_NewHandlers, P_newVerifier, P_zap])],
      Invoke = []\<rparr>"

definition health_Module :: fx_module where
  "health_Module =
     \<lparr>Provide = [(P_health_NewHandler, [P_NewPool, P_NewClient, P_Config]), (P_health_RouteSet, [P_health_NewHandler])],
      Invoke = []\<rparr>"

definition TracingModule :: fx_module where
  "TracingModule =
     \<lparr>Provide = [(P_NewTracerProvider, [P_Config, P_zap])], Invoke = [(P_TracerProvider, [P_NewTracerProvider])]\<rparr>"

definition observability_Module :: fx_module where
  "observability_Module = \<lparr>Provide = [(P_metrics_RouteSet, [])], Invoke = []\<rparr>"

definition worker_Module :: fx_module where
  "worker_Module =
     \<lparr>Provide = [],
      Invoke = [(P_RegisterConsumer, [P_NewConsumer, P_Config, P_zap]),
        (P_RegisterOutboxPublisher, [P_NewPublishOutbox, P_Config, P_zap]),
        (P_RegisterReferenceResolver, [P_NewResolveReferences, P_Config, P_zap])]\<rparr>"

text \<open>\<open>Register\<close> takes the whole group of route sets; the group of single routes is empty.\<close>

definition router_Module :: fx_module where
  "router_Module =
     \<lparr>Provide = [], Invoke = [(P_Register, [P_NewEngine, P_httpapi_RouteSet, P_health_RouteSet, P_metrics_RouteSet])]\<rparr>"

definition fx_main :: "fx_module list" where
  "fx_main =
     [\<lparr>Provide = [(P_zap, [])], Invoke = []\<rparr>, config_Module, postgres_Module, queue_Module, server_Module, app_Module,
      \<lparr>Provide = [(P_InstanceID, [P_Config])], Invoke = []\<rparr>, httpapi_Module, health_Module, TracingModule,
      observability_Module, worker_Module, router_Module]"

lemmas module_defs = config_Module_def postgres_Module_def queue_Module_def server_Module_def app_Module_def
  httpapi_Module_def health_Module_def TracingModule_def observability_Module_def worker_Module_def router_Module_def

definition provided :: "(part \<times> part list) list" where
  "provided = concat (map Provide fx_main)"

definition invoked :: "(part \<times> part list) list" where
  "invoked = concat (map Invoke fx_main)"

definition needs :: "part \<Rightarrow> part list" where
  "needs p = (case map_of (provided @ invoked) p of Some ps \<Rightarrow> ps | None \<Rightarrow> [])"

lemma fx_main_tables [simp]:
  "provided = [(P_zap, [])] @ Provide config_Module @ Provide postgres_Module @ Provide queue_Module @ Provide server_Module
     @ Provide app_Module @ [(P_InstanceID, [P_Config])] @ Provide httpapi_Module @ Provide health_Module
     @ Provide TracingModule @ Provide observability_Module"
  "map fst invoked = [P_Pool, P_Client, P_Server, P_TracerProvider, P_RegisterConsumer, P_RegisterOutboxPublisher,
     P_RegisterReferenceResolver, P_Register]"
  by (simp_all add: provided_def invoked_def fx_main_def worker_Module_def router_Module_def module_defs)

text \<open>What \<open>fx.ValidateApp\<close> checks: everything that is needed is provided, and by one constructor.\<close>

lemma graph_resolves:
  "distinct (map fst provided)"
  "set (concat (map snd (provided @ invoked))) \<subseteq> set (map fst provided)"
  by (simp_all add: invoked_def fx_main_def module_defs)

section \<open>Construction and life cycle\<close>

text \<open>The constructors and invoked functions that append a hook; the stop hook of a client of AWS is absent and
  that of the tracer only there when tracing is enabled.\<close>

definition appends_hook :: "bool \<Rightarrow> part \<Rightarrow> bool" where
  "appends_hook tracing p \<longleftrightarrow>
     p \<in> {P_NewPool, P_NewClient, P_NewHTTPServer, P_newVerifier, P_RegisterConsumer, P_RegisterOutboxPublisher,
       P_RegisterReferenceResolver} \<or> tracing \<and> p = P_NewTracerProvider"

text \<open>The constructors that a function needs, directly or through others. The longest chain has seven
  calls, so the fuel is enough, as \<open>needed_closed\<close> shows.\<close>

fun needed :: "nat \<Rightarrow> part \<Rightarrow> part list" where
  "needed 0 p = []"
| "needed (Suc n) p = remdups (needs p @ concat (map (needed n) (needs p)))"

text \<open>Of the calls that Fx makes while it builds the process the program relies on this. The invoked
  functions are called in the order in which they are listed, and before each of them (\<open>built\<close>) only
  constructors are called that it needs; each function is called once, after the constructors of its
  parameters.\<close>

definition fx_calls :: "part list list \<Rightarrow> part list" where
  "fx_calls built = concat (map2 (\<lambda>cs i. cs @ [i]) built (map fst invoked))"

definition earlier :: "'a list \<Rightarrow> 'a \<Rightarrow> 'a \<Rightarrow> bool" where
  "earlier xs a b \<longleftrightarrow> a \<in> set (takeWhile (\<lambda>x. x \<noteq> b) xs)"

definition fx_order :: "part list list \<Rightarrow> bool" where
  "fx_order built \<longleftrightarrow> list_all2 (\<lambda>cs i. set cs \<subseteq> set (needed 8 i)) built (map fst invoked)
     \<and> distinct (fx_calls built)
     \<and> list_all (\<lambda>p. list_all (\<lambda>q. earlier (fx_calls built) q p) (needs p)) (fx_calls built)"

text \<open>The start hooks run in the order in which they were appended, up to one that fails; the stop hooks of
  what was started run in the opposite order, as far as the time for the stop reaches.\<close>

definition fx_life :: "part list \<Rightarrow> part list \<Rightarrow> part list \<Rightarrow> bool" where
  "fx_life hooks started stopped \<longleftrightarrow>
     started = take (length started) hooks \<and> stopped = take (length stopped) (rev started)"

text \<open>Fx calls a stop hook when the one before it has returned. So in a stop that has come to calling the last hook of
  \<open>stopped\<close>, a worker has any state that its steps reach (\<open>runner_step\<close>), has been started exactly if its start
  hook was among those called, its stop hook has not begun unless it was called, and has returned if another
  was called after it.\<close>

definition worker_parts :: "part list" where
  "worker_parts = [P_RegisterConsumer, P_RegisterOutboxPublisher, P_RegisterReferenceResolver]"

definition hook_returned :: "runner \<Rightarrow> bool" where
  "hook_returned r \<longleftrightarrow> OnStop r \<noteq> NotStopping \<and> OnStop r \<noteq> Draining"

definition worker_moment :: "part list \<Rightarrow> part list \<Rightarrow> part \<Rightarrow> runner \<Rightarrow> bool" where
  "worker_moment started stopped p r \<longleftrightarrow> runner_step\<^sup>*\<^sup>* new_runner r
     \<and> (stopFetch_set r \<longleftrightarrow> p \<in> set started)
     \<and> (OnStop r \<noteq> NotStopping \<longrightarrow> p \<in> set stopped)
     \<and> (p \<in> set (butlast stopped) \<longrightarrow> hook_returned r)"

text \<open>A worker whose stop hook has returned fetches nothing more and the context of its work has ended; its loop has
  returned, or else the hook gave up waiting for it.\<close>

definition laid_down :: "runner \<Rightarrow> bool" where
  "laid_down r \<longleftrightarrow> Fetch_Done r \<and> Work_Done r \<and> (done_closed r \<or> OnStop r = BudgetExceeded \<or> OnStop r = ShutdownCancelled)"

lemma moment_laid_down:
  assumes "worker_moment started stopped p r" "p \<in> set started" "p \<in> set (butlast stopped)"
  shows "laid_down r"
proof -
  have "runner_wf r" "stopFetch_set r" "hook_returned r"
    using assms runner_wf_reachable by (auto simp: worker_moment_def)
  moreover have "OnStop r \<noteq> NeverStarted"
    using never_started_unstarted assms(1) \<open>stopFetch_set r\<close> by (auto simp: worker_moment_def)
  ultimately show ?thesis by (cases "OnStop r") (auto simp: runner_wf_def hook_returned_def laid_down_def)
qed

text \<open>A hook that was called before another is not the last.\<close>

lemma before_butlast:
  assumes "x \<in> set (takeWhile (\<lambda>y. y \<noteq> a) xs)" "a \<in> set xs"
  shows "x \<in> set (butlast xs)"
proof -
  obtain ys zs where xs: "xs = ys @ a # zs" "a \<notin> set ys" using assms(2) by (metis split_list_first)
  then have "takeWhile (\<lambda>y. y \<noteq> a) xs = ys" by (simp, subst takeWhile_append2) auto
  then show ?thesis using assms(1) by (simp add: xs(1) butlast_append)
qed

section \<open>The hooks\<close>

lemma needs_simps [simp]:
  "needs P_zap = []" "needs P_Config = []" "needs P_NewPool = [P_Config, P_zap, P_NewTracerProvider]"
  "needs P_NewUnitOfWork = [P_NewPool]" "needs P_NewPoolRepos = [P_NewPool]" "needs P_Pool = [P_NewPool]"
  "needs P_NewClient = [P_Config, P_zap]" "needs P_NewConsumer = [P_NewClient, P_NewProcessWager, P_Config, P_zap]"
  "needs P_NewPublisher = [P_NewClient, P_Config]" "needs P_Client = [P_NewClient]"
  "needs P_NewEngine = [P_zap, P_Config, P_NewTracerProvider]" "needs P_NewHTTPServer = [P_NewEngine, P_Config, P_zap]"
  "needs P_Server = [P_NewHTTPServer]" "needs P_SystemClock = []" "needs P_ReferencePolicy = []" "needs P_PublishPolicy = []"
  "needs P_NewOpenWallet = [P_NewUnitOfWork, P_SystemClock]"
  "needs P_NewProcessWager = [P_NewUnitOfWork, P_NewPoolRepos, P_SystemClock]"
  "needs P_NewQueries = [P_NewPoolRepos, P_NewUnitOfWork]"
  "needs P_NewResolveReferences = [P_NewUnitOfWork, P_NewProcessWager, P_SystemClock, P_ReferencePolicy, P_zap]"
  "needs P_NewPublishOutbox = [P_NewUnitOfWork, P_NewPublisher, P_SystemClock, P_InstanceID, P_PublishPolicy]"
  "needs P_InstanceID = [P_Config]" "needs P_NewHandlers = [P_NewOpenWallet, P_NewProcessWager, P_NewQueries, P_zap]"
  "needs P_newVerifier = [P_Config, P_zap]" "needs P_httpapi_RouteSet = [P_NewHandlers, P_newVerifier, P_zap]"
  "needs P_health_NewHandler = [P_NewPool, P_NewClient, P_Config]" "needs P_health_RouteSet = [P_health_NewHandler]"
  "needs P_NewTracerProvider = [P_Config, P_zap]" "needs P_TracerProvider = [P_NewTracerProvider]"
  "needs P_metrics_RouteSet = []" "needs P_RegisterConsumer = [P_NewConsumer, P_Config, P_zap]"
  "needs P_RegisterOutboxPublisher = [P_NewPublishOutbox, P_Config, P_zap]"
  "needs P_RegisterReferenceResolver = [P_NewResolveReferences, P_Config, P_zap]"
  "needs P_Register = [P_NewEngine, P_httpapi_RouteSet, P_health_RouteSet, P_metrics_RouteSet]"
  by (simp_all add: needs_def invoked_def fx_main_def module_defs)

lemma needed_numeral: "needed (numeral k) p = remdups (needs p @ concat (map (needed (pred_numeral k)) (needs p)))"
  by (simp add: numeral_eq_Suc)

lemma needed_invoked [simp]:
  "needed 8 P_Pool = [P_NewPool, P_NewTracerProvider, P_Config, P_zap]"
  "needed 8 P_Client = [P_NewClient, P_Config, P_zap]"
  "needed 8 P_Server = [P_NewHTTPServer, P_NewEngine, P_NewTracerProvider, P_Config, P_zap]"
  "needed 8 P_TracerProvider = [P_NewTracerProvider, P_Config, P_zap]"
  "needed 8 P_RegisterConsumer = [P_NewConsumer, P_NewClient, P_NewProcessWager, P_NewUnitOfWork, P_NewPoolRepos,
     P_SystemClock, P_NewPool, P_NewTracerProvider, P_Config, P_zap]"
  "needed 8 P_RegisterOutboxPublisher = [P_NewPublishOutbox, P_NewUnitOfWork, P_NewPublisher, P_SystemClock,
     P_InstanceID, P_PublishPolicy, P_NewPool, P_NewTracerProvider, P_NewClient, P_zap, P_Config]"
  "needed 8 P_RegisterReferenceResolver = [P_NewResolveReferences, P_NewProcessWager, P_ReferencePolicy,
     P_NewUnitOfWork, P_NewPoolRepos, P_SystemClock, P_NewPool, P_NewTracerProvider, P_Config, P_zap]"
  "needed 8 P_Register = [P_NewEngine, P_httpapi_RouteSet, P_health_RouteSet, P_metrics_RouteSet, P_NewHandlers,
     P_newVerifier, P_NewOpenWallet, P_NewProcessWager, P_NewQueries, P_SystemClock, P_NewPoolRepos, P_NewUnitOfWork,
     P_health_NewHandler, P_NewPool, P_NewClient, P_NewTracerProvider, P_Config, P_zap]"
  by (simp_all add: needed_numeral)

lemma needed_closed:
  "i \<in> set (map fst invoked) \<Longrightarrow> q \<in> set (needed 8 i) \<Longrightarrow> set (needs q) \<subseteq> set (needed 8 i)"
  by (auto simp del: list.map)

lemma filter_single: "distinct xs \<Longrightarrow> set (filter P xs) \<subseteq> {a} \<Longrightarrow> a \<in> set xs \<Longrightarrow> P a \<Longrightarrow> filter P xs = [a]"
  by (induction xs) (auto simp: filter_empty_conv split: if_splits)

lemma filter_none: "set (filter P xs) \<subseteq> set ys \<Longrightarrow> set xs \<inter> set ys = {} \<Longrightarrow> filter P xs = []"
  by (auto simp: filter_empty_conv)

lemma earlier_first:
  assumes "b \<notin> set xs"
  shows "earlier (xs @ b # ys) a b \<longleftrightarrow> a \<in> set xs"
proof -
  have "takeWhile (\<lambda>x. x \<noteq> b) (xs @ b # ys) = xs" using assms by (subst takeWhile_append2) auto
  then show ?thesis by (simp add: earlier_def)
qed

text \<open>The hooks are appended in one order only: the pool's, the client's of SQS, the server's, the workers'
  and the verifier's, after the one of the tracer.\<close>

lemma hooks_in_order:
  assumes "fx_order built"
  shows "filter (appends_hook t) (fx_calls built) =
    (if t then [P_NewTracerProvider] else []) @ [P_NewPool, P_NewClient, P_NewHTTPServer, P_RegisterConsumer,
      P_RegisterOutboxPublisher, P_RegisterReferenceResolver, P_newVerifier]"
proof -
  obtain c0 c1 c2 c3 c4 c5 c6 c7 where b: "built = [c0, c1, c2, c3, c4, c5, c6, c7]"
    and sub: "set c0 \<subseteq> set (needed 8 P_Pool)" "set c1 \<subseteq> set (needed 8 P_Client)" "set c2 \<subseteq> set (needed 8 P_Server)"
      "set c3 \<subseteq> set (needed 8 P_TracerProvider)" "set c4 \<subseteq> set (needed 8 P_RegisterConsumer)"
      "set c5 \<subseteq> set (needed 8 P_RegisterOutboxPublisher)" "set c6 \<subseteq> set (needed 8 P_RegisterReferenceResolver)"
      "set c7 \<subseteq> set (needed 8 P_Register)"
    using assms by (auto simp: fx_order_def list_all2_Cons2 simp del: needed_invoked)
  have calls: "fx_calls built = c0 @ P_Pool # c1 @ P_Client # c2 @ P_Server # c3 @ P_TracerProvider
      # c4 @ P_RegisterConsumer # c5 @ P_RegisterOutboxPublisher # c6 @ P_RegisterReferenceResolver # c7 @ [P_Register]"
    by (simp add: fx_calls_def b)
  have dist: "distinct (fx_calls built)" using assms by (simp add: fx_order_def)
  have dep: "earlier (fx_calls built) q p" if "p \<in> set (fx_calls built)" "q \<in> set (needs p)" for p q
    using assms that by (auto simp: fx_order_def list_all_iff)
  have before: "q \<in> set xs" if "fx_calls built = xs @ p # ys" "q \<in> set (needs p)" for xs p ys q
  proof -
    have "p \<notin> set xs" using dist that(1) by simp
    then show ?thesis using dep [of p q] that by (simp add: earlier_first)
  qed
  have pool: "P_NewPool \<in> set c0" using before [OF calls] by simp
  then obtain us vs where c0: "c0 = us @ P_NewPool # vs" by (auto simp: in_set_conv_decomp)
  have tracer: "P_NewTracerProvider \<in> set us" by (rule before [of us P_NewPool]) (simp_all add: calls c0)
  have client: "P_NewClient \<in> set (c0 @ P_Pool # c1)" by (rule before [of _ P_Client]) (simp_all add: calls)
  have srv: "P_NewHTTPServer \<in> set (c0 @ P_Pool # c1 @ P_Client # c2)" by (rule before [of _ P_Server]) (simp_all add: calls)
  have ver: "P_newVerifier \<in> set c7"
  proof -
    have "P_httpapi_RouteSet \<in> set (c0 @ P_Pool # c1 @ P_Client # c2 @ P_Server # c3 @ P_TracerProvider
      # c4 @ P_RegisterConsumer # c5 @ P_RegisterOutboxPublisher # c6 @ P_RegisterReferenceResolver # c7)"
      by (rule before [of _ P_Register]) (simp_all add: calls)
    then have "P_httpapi_RouteSet \<in> set c7" using sub by auto
    then obtain ys zs where c7: "c7 = ys @ P_httpapi_RouteSet # zs" by (auto simp: in_set_conv_decomp)
    have "P_newVerifier \<in> set (c0 @ P_Pool # c1 @ P_Client # c2 @ P_Server # c3 @ P_TracerProvider
      # c4 @ P_RegisterConsumer # c5 @ P_RegisterOutboxPublisher # c6 @ P_RegisterReferenceResolver # ys)"
      by (rule before [of _ P_httpapi_RouteSet]) (simp_all add: calls c7)
    then show ?thesis using sub c7 by auto
  qed
  note d = dist [unfolded calls c0, simplified]
  have "filter (appends_hook t) us = (if t then [P_NewTracerProvider] else [])"
  proof (cases t)
    case True
    then have "filter (appends_hook t) us = [P_NewTracerProvider]"
      using d sub(1) by (intro filter_single) (auto simp: appends_hook_def c0 tracer)
    then show ?thesis using True by simp
  next
    case False
    have "filter (appends_hook t) us = []"
      using d sub(1) False by (intro filter_none [of _ _ "[P_NewPool]"]) (auto simp: appends_hook_def c0)
    then show ?thesis using False by simp
  qed
  moreover have "filter (appends_hook t) vs = []"
    using d sub(1) tracer by (intro filter_none [of _ _ "[P_NewPool, P_NewTracerProvider]"]) (auto simp: appends_hook_def c0)
  moreover have "filter (appends_hook t) c1 = [P_NewClient]"
    using d sub(1,2) client by (intro filter_single) (auto simp: appends_hook_def c0)
  moreover have "filter (appends_hook t) c2 = [P_NewHTTPServer]"
    using d sub(1,2,3) srv tracer by (intro filter_single) (auto simp: appends_hook_def c0)
  moreover have "filter (appends_hook t) c7 = [P_newVerifier]"
    using d sub(1,2,8) client ver tracer by (intro filter_single) (auto simp: appends_hook_def c0)
  moreover have "filter (appends_hook t) cs = []"
    if "cs \<in> {c3, c4, c5, c6}" for cs
    using that d sub(1,2,4,5,6,7) client tracer
    by (intro filter_none [of _ _ "[P_NewPool, P_NewTracerProvider, P_NewClient]"]) (auto simp: appends_hook_def c0)
  ultimately show ?thesis
    by (simp add: calls c0) (simp add: appends_hook_def)
qed

text \<open>What was appended before a hook that was started was started, and what was appended after a hook that
  was stopped, if it was started, was stopped before.\<close>

lemma take_reaches: "b \<in> set (take k (xs @ b # ys)) \<Longrightarrow> b \<notin> set xs \<Longrightarrow> length xs < k"
  by (rule ccontr) (auto simp: not_less dest: in_set_takeD)

lemma started_before:
  assumes "started = take k (xs @ b # ys)" "b \<in> set started" "b \<notin> set xs"
  shows "set xs \<subseteq> set started"
proof -
  have "length xs < k" using assms take_reaches by metis
  then show ?thesis using assms(1) by simp
qed

lemma stopped_after:
  assumes st: "started = take k (xs @ a # ys)" "stopped = take m (rev started)" and a: "a \<in> set stopped"
    and d: "distinct (xs @ a # ys)"
  shows "set started \<inter> set ys \<subseteq> set (takeWhile (\<lambda>x. x \<noteq> a) stopped)"
proof -
  have "a \<in> set started" using a st(2) by (auto dest: in_set_takeD)
  then have "length xs < k" using d st(1) take_reaches [of a k xs ys] by simp
  then obtain j where "k = length xs + Suc j" using less_imp_Suc_add by (metis add_Suc_right)
  then have start: "started = xs @ a # take j ys" using st(1) by simp
  have an: "a \<notin> set (rev (take j ys))" using d by (auto dest: in_set_takeD)
  have stop: "stopped = take m (rev (take j ys) @ a # rev xs)" using st(2) start by simp
  have "length (rev (take j ys)) < m"
    using a an stop take_reaches by metis
  then obtain i where "m = length (rev (take j ys)) + Suc i" using less_imp_Suc_add by (metis add_Suc_right)
  then have "stopped = rev (take j ys) @ a # take i (rev xs)" using stop by simp
  then have "takeWhile (\<lambda>x. x \<noteq> a) stopped = rev (take j ys)" using an by (simp, subst takeWhile_append2) auto
  then show ?thesis using d start by (auto dest: in_set_takeD)
qed

text \<open>The order in which the hooks are called.\<close>

lemma hooks_called_in_order:
  assumes "fx_order built" and "fx_life (filter (appends_hook t) (fx_calls built)) started stopped"
  shows "set started \<inter> set (P_NewHTTPServer # worker_parts) \<noteq> {} \<Longrightarrow> {P_NewPool, P_NewClient} \<subseteq> set started"
    and "P_NewPool \<in> set stopped \<Longrightarrow>
         set started - {P_NewTracerProvider, P_NewPool} \<subseteq> set (takeWhile (\<lambda>p. p \<noteq> P_NewPool) stopped)"
    and "P_NewHTTPServer \<in> set stopped \<Longrightarrow>
         set started \<inter> set worker_parts \<subseteq> set (takeWhile (\<lambda>p. p \<noteq> P_NewHTTPServer) stopped)"
    and "P_RegisterConsumer \<in> set stopped \<Longrightarrow>
         set started \<inter> {P_RegisterOutboxPublisher, P_RegisterReferenceResolver}
           \<subseteq> set (takeWhile (\<lambda>p. p \<noteq> P_RegisterConsumer) stopped)"
proof -
  let ?T = "if t then [P_NewTracerProvider] else []"
  let ?W = "[P_RegisterConsumer, P_RegisterOutboxPublisher, P_RegisterReferenceResolver, P_newVerifier]"
  have H: "filter (appends_hook t) (fx_calls built) = (?T @ []) @ P_NewPool # (P_NewClient # P_NewHTTPServer # ?W)"
    "filter (appends_hook t) (fx_calls built) = (?T @ [P_NewPool, P_NewClient]) @ P_NewHTTPServer # ?W"
    "filter (appends_hook t) (fx_calls built) = (?T @ [P_NewPool, P_NewClient, P_NewHTTPServer]) @ P_RegisterConsumer # tl ?W"
    "filter (appends_hook t) (fx_calls built) =
       (?T @ [P_NewPool, P_NewClient, P_NewHTTPServer, P_RegisterConsumer]) @ P_RegisterOutboxPublisher # tl (tl ?W)"
    "filter (appends_hook t) (fx_calls built) =
       (?T @ [P_NewPool, P_NewClient, P_NewHTTPServer, P_RegisterConsumer, P_RegisterOutboxPublisher])
         @ P_RegisterReferenceResolver # tl (tl (tl ?W))"
    by (simp_all add: hooks_in_order [OF assms(1)])
  note life = assms(2) [unfolded fx_life_def]
  note st = life [THEN conjunct1] and sp = life [THEN conjunct2]
  have started: "set xs \<subseteq> set started"
    if "filter (appends_hook t) (fx_calls built) = xs @ b # ys" "b \<in> set started" "b \<notin> set xs" for xs b ys
    using started_before [OF st [unfolded that(1)] that(2,3)] .
  have dist: "distinct (filter (appends_hook t) (fx_calls built))" by (simp add: hooks_in_order [OF assms(1)])
  have stopped: "set started \<inter> set ys \<subseteq> set (takeWhile (\<lambda>x. x \<noteq> a) stopped)"
    if "filter (appends_hook t) (fx_calls built) = xs @ a # ys" "a \<in> set stopped" for xs a ys
    using stopped_after [OF st [unfolded that(1)] sp that(2) dist [unfolded that(1)]] .
  have "set started \<subseteq> set (filter (appends_hook t) (fx_calls built))"
    using st by (metis set_take_subset)
  then have sub: "set started \<subseteq> {P_NewTracerProvider, P_NewPool} \<union> set (P_NewClient # P_NewHTTPServer # ?W)"
    by (auto simp: hooks_in_order [OF assms(1)] split: if_splits)
  have parts: "set worker_parts = {P_RegisterConsumer, P_RegisterOutboxPublisher, P_RegisterReferenceResolver}"
    by (simp add: worker_parts_def)
  show "P_NewPool \<in> set stopped \<Longrightarrow>
      set started - {P_NewTracerProvider, P_NewPool} \<subseteq> set (takeWhile (\<lambda>p. p \<noteq> P_NewPool) stopped)"
    using stopped [OF H(1)] sub by auto
  show "P_NewHTTPServer \<in> set stopped \<Longrightarrow>
      set started \<inter> set worker_parts \<subseteq> set (takeWhile (\<lambda>p. p \<noteq> P_NewHTTPServer) stopped)"
    using stopped [OF H(2)] by (auto simp: parts)
  show "P_RegisterConsumer \<in> set stopped \<Longrightarrow> set started \<inter> {P_RegisterOutboxPublisher, P_RegisterReferenceResolver}
      \<subseteq> set (takeWhile (\<lambda>p. p \<noteq> P_RegisterConsumer) stopped)"
    using stopped [OF H(3)] by auto
  show "set started \<inter> set (P_NewHTTPServer # worker_parts) \<noteq> {} \<Longrightarrow> {P_NewPool, P_NewClient} \<subseteq> set started"
    using started [OF H(2)] started [OF H(3)] started [OF H(4)] started [OF H(5)] by (auto simp: parts)
qed

text \<open>C35: the life of the process follows from this order, whatever start fails and however early the stop runs out of
  time. The hooks that were started are a prefix of it, so nothing is served or consumed before the database and the
  queue answered. The stop goes backwards: the hook that closes the pool is called only when the stop hooks of all that was
  started have been called before it, the one of the server only when those of the workers have, and that of the consumer,
  which therefore goes on fetching, after those of the two other workers. A worker whose stop hook has
  returned need not have stopped: its hook waits for the loop only within its budget and the time for the stop.
  But when the hook of the pool or of the server is called, every worker that was started fetches no more, the context
  of its work has ended, and its loop has returned unless its hook gave up for lack of time.\<close>

theorem life_in_order:
  assumes "fx_order built" and "fx_life (filter (appends_hook t) (fx_calls built)) started stopped"
    and "\<And>p. p \<in> set worker_parts \<Longrightarrow> worker_moment started stopped p (rs p)"
  shows "(set started \<inter> set (P_NewHTTPServer # worker_parts) \<noteq> {} \<longrightarrow> {P_NewPool, P_NewClient} \<subseteq> set started)
    \<and> (P_NewPool \<in> set stopped \<longrightarrow>
         set started - {P_NewTracerProvider, P_NewPool} \<subseteq> set (takeWhile (\<lambda>p. p \<noteq> P_NewPool) stopped))
    \<and> (P_NewHTTPServer \<in> set stopped \<longrightarrow>
         set started \<inter> set worker_parts \<subseteq> set (takeWhile (\<lambda>p. p \<noteq> P_NewHTTPServer) stopped))
    \<and> (P_RegisterConsumer \<in> set stopped \<longrightarrow>
         set started \<inter> {P_RegisterOutboxPublisher, P_RegisterReferenceResolver}
           \<subseteq> set (takeWhile (\<lambda>p. p \<noteq> P_RegisterConsumer) stopped))
    \<and> (P_NewPool \<in> set stopped \<or> P_NewHTTPServer \<in> set stopped \<longrightarrow>
         (\<forall>p \<in> set started \<inter> set worker_parts. Fetch_Done (rs p) \<and> Work_Done (rs p)
           \<and> (done_closed (rs p) \<or> OnStop (rs p) = BudgetExceeded \<or> OnStop (rs p) = ShutdownCancelled)))
    \<and> (P_RegisterConsumer \<in> set stopped \<longrightarrow>
         (\<forall>p \<in> set started \<inter> {P_RegisterOutboxPublisher, P_RegisterReferenceResolver}. Fetch_Done (rs p) \<and> Work_Done (rs p)
           \<and> (done_closed (rs p) \<or> OnStop (rs p) = BudgetExceeded \<or> OnStop (rs p) = ShutdownCancelled)))"
proof -
  note early = hooks_called_in_order(1) [OF assms(1,2)] and pool = hooks_called_in_order(2) [OF assms(1,2)]
    and server = hooks_called_in_order(3) [OF assms(1,2)] and consumer = hooks_called_in_order(4) [OF assms(1,2)]
  have parts: "set worker_parts = {P_RegisterConsumer, P_RegisterOutboxPublisher, P_RegisterReferenceResolver}"
    by (simp add: worker_parts_def)
  have down: "laid_down (rs p)"
    if "p \<in> set started \<inter> set worker_parts" "p \<in> set (takeWhile (\<lambda>x. x \<noteq> a) stopped)" "a \<in> set stopped" for p a
    using moment_laid_down [OF assms(3)] before_butlast [OF that(2,3)] that(1) by blast
  have fin: "laid_down (rs p)"
    if "P_NewPool \<in> set stopped \<or> P_NewHTTPServer \<in> set stopped" "p \<in> set started \<inter> set worker_parts" for p
    using that(1)
  proof
    assume P: "P_NewPool \<in> set stopped"
    have "p \<in> set (takeWhile (\<lambda>x. x \<noteq> P_NewPool) stopped)" using pool [OF P] that(2) by (auto simp: parts)
    then show ?thesis by (rule down [OF that(2) _ P])
  next
    assume S: "P_NewHTTPServer \<in> set stopped"
    then show ?thesis using down [OF that(2) _ S] server [OF S] that(2) by blast
  qed
  have two: "laid_down (rs p)"
    if "P_RegisterConsumer \<in> set stopped" "p \<in> set started \<inter> {P_RegisterOutboxPublisher, P_RegisterReferenceResolver}" for p
    using down [OF _ _ that(1)] consumer [OF that(1)] that(2) by (auto simp: parts)
  show ?thesis
    using early pool server consumer fin two unfolding laid_down_def by blast
qed

text \<open>An order in which Fx may build the process.\<close>

definition demo_built :: "part list list" where
  "demo_built =
     [[P_zap, P_Config, P_NewTracerProvider, P_NewPool], [P_NewClient], [P_NewEngine, P_NewHTTPServer], [],
      [P_NewUnitOfWork, P_NewPoolRepos, P_SystemClock, P_NewProcessWager, P_NewConsumer],
      [P_NewPublisher, P_InstanceID, P_PublishPolicy, P_NewPublishOutbox], [P_ReferencePolicy, P_NewResolveReferences],
      [P_NewOpenWallet, P_NewQueries, P_NewHandlers, P_newVerifier, P_httpapi_RouteSet, P_health_NewHandler,
       P_health_RouteSet, P_metrics_RouteSet]]"

lemma demo_order: "fx_order demo_built"
  by (simp add: fx_order_def fx_calls_def earlier_def demo_built_def)

text \<open>A stop in which the reference resolver does not drain in time: its hook gives up, and the pool is closed while
  its loop still runs.\<close>

definition demo_runner :: "part \<Rightarrow> runner" where
  "demo_runner p = new_runner\<lparr>stopFetch_set := True, Fetch_Done := True, Work_Done := True,
     done_closed := p \<noteq> P_RegisterReferenceResolver,
     OnStop := if p = P_RegisterReferenceResolver then BudgetExceeded else Drained\<rparr>"

lemma demo_runner_reached: "runner_step\<^sup>*\<^sup>* new_runner (demo_runner p)"
proof -
  let ?r1 = "new_runner\<lparr>stopFetch_set := True\<rparr>"
  let ?r2 = "?r1\<lparr>Fetch_Done := True, OnStop := Draining\<rparr>"
  have 1: "runner_step new_runner ?r1" using OnStart [of new_runner] by (simp add: new_runner_def)
  have 2: "runner_step ?r1 ?r2" using OnStop_begins [of ?r1] by (simp add: new_runner_def)
  have "runner_step\<^sup>*\<^sup>* ?r2 (demo_runner p)"
  proof (cases "p = P_RegisterReferenceResolver")
    case True
    then have "runner_step ?r2 (demo_runner p)" using budget [of ?r2] by (simp add: demo_runner_def new_runner_def)
    then show ?thesis by simp
  next
    case False
    have "runner_step ?r2 (?r2\<lparr>done_closed := True\<rparr>)" using loop_returns [of ?r2] by (simp add: new_runner_def)
    moreover have "runner_step (?r2\<lparr>done_closed := True\<rparr>) (demo_runner p)"
      using drained [of "?r2\<lparr>done_closed := True\<rparr>"] False by (simp add: demo_runner_def new_runner_def)
    ultimately show ?thesis by simp
  qed
  with 1 2 show ?thesis by (meson converse_rtranclp_into_rtranclp)
qed

theorem life_in_order_witness:
  "Work_Done (demo_runner P_RegisterReferenceResolver) \<and> \<not> done_closed (demo_runner P_RegisterReferenceResolver)"
proof -
  let ?h = "filter (appends_hook False) (fx_calls demo_built)"
  have h: "?h = [P_NewPool, P_NewClient, P_NewHTTPServer, P_RegisterConsumer,
      P_RegisterOutboxPublisher, P_RegisterReferenceResolver, P_newVerifier]"
    by (simp add: hooks_in_order [OF demo_order])
  have life: "fx_life ?h ?h (rev ?h)" by (simp add: fx_life_def)
  have "worker_moment ?h (rev ?h) p (demo_runner p)" if "p \<in> set worker_parts" for p
    using that demo_runner_reached [of p]
    by (auto simp: worker_moment_def h worker_parts_def demo_runner_def new_runner_def hook_returned_def)
  from life_in_order [OF demo_order life this] show ?thesis
    by (simp add: h worker_parts_def) (simp add: demo_runner_def new_runner_def)
qed

end
