(* ===== verification/Clients.thy ===== *)
theory Clients
  imports Startup Config
begin

text \<open>
  The constructors of the two clients with hooks that wait: \<open>NewPool\<close> of \<open>internal/postgres/postgres.go\<close> and
  \<open>NewClient\<close> of \<open>internal/queue/queue.go\<close>. What pgx and the SDK of AWS answer to a call is a parameter; log
  entries are left out. The hooks are those of the theory of the waits.
\<close>

datatype client_hook = WaitsFor duration | ClosesPool

text \<open>The data source name that the pool is made of, and its hooks. \<open>ParseConfig\<close> and \<open>NewWithConfig\<close> tell how
  these calls of pgx fail, if they do.\<close>

definition NewPool ::
  "(string \<Rightarrow> goerr option) \<Rightarrow> (string \<Rightarrow> goerr option) \<Rightarrow> 'f config \<Rightarrow> goerr + string \<times> client_hook list" where
  "NewPool ParseConfig NewWithConfig cfg =
     (let dsn = postgres_dsn (cfg_Postgres cfg) in
      case ParseConfig dsn of Some err \<Rightarrow> Inl (WrapErr ''parsing postgres dsn'' err)
      | None \<Rightarrow> (case NewWithConfig dsn of Some err \<Rightarrow> Inl (WrapErr ''creating postgres pool'' err)
        | None \<Rightarrow> Inr (dsn, [WaitsFor (cfg_DependencyTimeout cfg), ClosesPool])))"

text \<open>The client of SQS: without an endpoint of its own it has the credentials and the endpoint that the SDK finds.\<close>

record sqs_client =
  sc_Region :: string
  sc_Credentials :: "(string \<times> string \<times> string) option"
  sc_BaseEndpoint :: "string option"

definition NewClient :: "goerr option \<Rightarrow> 'f config \<Rightarrow> goerr + sqs_client \<times> client_hook list" where
  "NewClient LoadDefaultConfig cfg =
     (case LoadDefaultConfig of Some err \<Rightarrow> Inl (WrapErr ''loading aws config'' err)
      | None \<Rightarrow>
        (let endpoint = cs_Endpoint (cfg_SQS cfg) in
         Inr (\<lparr>sc_Region = cs_Region (cfg_SQS cfg),
            sc_Credentials = (if endpoint \<noteq> [] then Some (''test'', ''test'', []) else None),
            sc_BaseEndpoint = (if endpoint \<noteq> [] then Some endpoint else None)\<rparr>,
           [WaitsFor (cfg_DependencyTimeout cfg)])))"

text \<open>The fixed credentials are used against a local endpoint only.\<close>

lemma fixed_credentials_stay_local:
  "NewClient l cfg = Inr (c, hs) \<Longrightarrow> sc_Credentials c \<noteq> None \<longleftrightarrow> sc_BaseEndpoint c \<noteq> None"
  by (auto simp: NewClient_def Let_def split: option.splits)

text \<open>A pool that was made and whose start hook succeeds was reached: the wait ended with a probe that did not fail.\<close>

lemma wait_ends_with_probe:
  assumes "wait_attempts S d k = Some r"
  shows "fst r = None \<longrightarrow> probe S (snd r) = None"
  by (rule wait_attempts.raw_induct [OF _ assms, where P = "\<lambda>S d k r. fst r = None \<longrightarrow> probe S (snd r) = None"])
    (auto split: option.splits if_splits)

lemma started_pool_was_reached: "pool_OnStart S timeout = Some (None, n) \<Longrightarrow> probe S n = None"
  using wait_ends_with_probe by (fastforce simp: pool_OnStart_def waitFor_def)

end
