(* ===== verification/Spec2Isabelle.thy ===== *)
theory Spec2Isabelle
  imports Examples Requests Redelivery Startup Workers Wiring Concurrency Waiting Draining Telemetry Server Process Clients
begin

text \<open>
  A verification development of the wallet and wagering service \<open>jungle\<close>: providers of games submit
  bets, wins, losses and reversals over HTTP or over a queue, and the service moves the wallets of the
  players, keeps a ledger and a double-entry journal of every movement, and publishes what happened through
  an outbox.

  \<^bold>\<open>Parts of the program and theories.\<close> The order is that of the calls, from the bottom.

  \<^item> Values and domain (\<open>internal/domain\<close>): \<open>Money\<close> (\<open>money.go\<close>), \<open>Wallet\<close> (\<open>wallet.go\<close>,
    \<open>ledger_entry.go\<close>), \<open>WagerTx\<close> (\<open>kind.go\<close>, \<open>status.go\<close>, \<open>failure_code.go\<close>, \<open>transaction.go\<close>), \<open>Journal\<close>,
    \<open>Event\<close>; the sentinels of all packages are in \<open>Errors\<close>. Structs are records, Go's unexported
    fields included; \<open>int64\<close> is \<open>64 word\<close>, and every check of an overflow is the code's.
  \<^item> Go's library as far as it is used: \<open>Prelude\<close> (decimal digits, results), \<open>GoTime\<close> (RFC 3339), \<open>GoText\<close>
    (\<open>Atoi\<close>, \<open>TrimSpace\<close>), \<open>Json\<close> (\<open>json.Unmarshal\<close>), SHA-256 and base64 in \<open>Idempotency\<close> and \<open>Cursor\<close>.
  \<^item> The database: \<open>Database\<close> is the schema of \<open>migrations/\<close> as lists of rows with the statements the
    repositories issue, checked against constraints, foreign keys and triggers; \<open>World\<close> is a connection
    of pgx and \<open>UnitOfWork.Within\<close> of \<open>repos.go\<close>, as programs from a world to a result and a
    world; \<open>Repositories\<close> and \<open>LedgerPage\<close> are the six repositories of \<open>internal/postgres\<close>; \<open>Schema\<close> and
    \<open>History\<close> say what the schema alone guarantees.
  \<^item> Use cases and jobs (\<open>internal/app\<close>): \<open>ProcessWager\<close>, \<open>OpenWallet\<close>, \<open>ResolveReferences\<close>,
    \<open>PublishOutbox\<close>, \<open>Queries\<close>, with \<open>Idempotency\<close> (the payload hash) and \<open>Backoff\<close>.
  \<^item> Entry points: \<open>Http\<close> and \<open>Handlers\<close> (\<open>internal/httpapi\<close>: data transfer objects, authentication,
    answers, the seven routes), \<open>Queue\<close> (\<open>internal/queue\<close>: the consumer, from the bytes of a message to its deletion, and
    the publisher).
  \<^item> The process: \<open>Config\<close>, \<open>Startup\<close> (the waits for the database, the queue and the
    issuer), \<open>Clients\<close> (the constructors of the pool and of the client of SQS), \<open>Workers\<close> (\<open>internal/worker\<close>), \<open>Wiring\<close> (\<open>internal/router\<close>, \<open>internal/health\<close>, \<open>cmd/migrate\<close>),
    \<open>Server\<close> (\<open>internal/server\<close> and the tracer provider of \<open>internal/observability/tracing.go\<close>),
    \<open>Process\<close> (\<open>cmd/jungle/main.go\<close> with the modules of all packages).
  \<^item> What operators see: \<open>Signals\<close> has the metrics and attributes of \<open>internal/observability\<close> and programs that
    emit signals; \<open>Observability\<close> (\<open>Execute\<close>, consumer, publisher, jobs) and \<open>Telemetry\<close> (HTTP) write the
    operations that emit them once more, with the signals in their order. The other theories leave
    signals out: \<open>erase\<close> forgets them, and every observed operation erases to the operation of its component.

  \<^bold>\<open>What is proved.\<close>

  \<^item> \<open>Settlement\<close>, \<open>Outcome\<close> and \<open>Opening\<close> read a successful run backwards and show that the use cases
    refine specifications over whole tables (\<open>wager_spec\<close>, \<open>open_spec\<close>); \<open>Runs\<close> has the lemmas on
    single calls that they share. A failed use case has changed nothing, unless its commit was not
    acknowledged.
  \<^item> \<open>Books\<close>, \<open>UseCases\<close> and \<open>Posting\<close> are the invariants of the money, \<open>System\<close> the
    service as a transition system whose steps are the transactions of all use cases and jobs, with
    any commands, stale records, clocks, identifiers and faults in any order. The properties about
    every reachable state hold of all that replicas, restarts and interleavings can do.
  \<^item> \<open>Effects\<close> has what a call means to its caller: it takes effect once, and afterwards is replayed.
  \<^item> \<open>Publishing\<close>, \<open>Reads\<close> and \<open>LedgerPage\<close>: the outbox, what the queries report, the pages of the ledger.
  \<^item> \<open>Delivery\<close>, \<open>Messages\<close>, \<open>Redelivery\<close>, \<open>Requests\<close>: the two entry points refine the service, a message is
    deleted only once it is recorded; when it comes again it changes nothing and is deleted; every request is
    answered, the answer is true, and a provider is shown its own transactions only.
  \<^item> \<open>Startup\<close>, \<open>Workers\<close>: the loops of the process end when they should. The wait for a dependency pauses a second
    between its attempts, not before the first, and the number of attempts follows from that.
  \<^item> \<open>Waiting\<close>: the passes over a waiting reversal that succeed are counted, and bounded by the policy; those that
    fail are not counted (\<open>waits\<close> is the run of a
    waiting transaction through any steps of the service). \<open>Draining\<close>: a run of the publisher that meets
    no failure delivers everything that is due, by triples \<open>yields\<close> of total correctness.
  \<^item> \<open>Concurrency\<close>: the versions of a wallet only rise, so an update that read an older wallet is
    refused even where the row lock is not taken.
  \<^item> \<open>Observability\<close>, \<open>Telemetry\<close>, \<open>Server\<close>: signals change nothing, the counters tell what happened, and
    every request leaves one entry in the log, panics included.
  \<^item> \<open>Process\<close>: the modules leave Fx one order of hooks, and so of starting and stopping. A stop hook of a
    worker may return while its loop still runs; the property says when, with the steps of \<open>Workers\<close>.
  \<^item> \<open>Idempotency\<close>: the canonical JSON of a payload determines its fields if they are valid UTF-8, which is what
    decoding JSON leaves (invalid bytes would be replaced, and different texts become equal).
  \<^item> \<open>Demo\<close> and \<open>Examples\<close> run the model on concrete requests; the witnesses use them. This theory has the
    properties that span components.

  The interfaces between the parts are locales: the contract of a checked operation on
  64 bits, of a movement of a wallet, of the function that saves a transaction, of an invariant of
  the statements, of a retry policy, of a loop that waits and of one that ticks, each interpreted on the code's definitions in the theory that provides them.

  \<^bold>\<open>Choices of the model.\<close>

  \<^item> A transaction that writes is one step. The transactions of \<open>Execute\<close> and of \<open>settleOne\<close> lock the row of the wallet, and
    what they read of this wallet afterwards only its owner can change. What they read before the lock
    is not relied on: \<open>fastReplay\<close> answers from a terminal transaction, which never changes, or leaves the question to
    the transaction, which asks it again; the status that \<open>settleOne\<close> and \<open>recordPermanentFailure\<close> read is guarded by the condition
    on the status and by the trigger that refuses a change of a terminal row. Reads of other wallets' rows
    (a key, an operation, a message) are guarded by unique constraints, which turn a race into a failed statement,
    and so is the check of \<open>OpenWallet\<close>. For the balance \<open>Concurrency\<close> shows that the version alone would do.
  \<^item> \<open>Reconcile\<close> is different: it locks nothing, and each of its two statements has a snapshot of its own. Its
    second read is modelled at a state that other transactions may have changed in between (\<open>at_snapshot\<close>; over HTTP, the
    field \<open>between_reads\<close>); property C17 says what its answer then is worth. The other transactions that only
    look (the backlog, the age of the oldest event) do so for a metric.
  \<^item> A claim with \<open>SKIP LOCKED\<close> skips the rows whose lock has not run out. Every statement and every commit may
    fail; a commit may succeed unnoticed (\<open>CommitUnacknowledged\<close>).
  \<^item> \<open>timestamptz\<close> cuts times to microseconds. Rows that an \<open>ORDER BY\<close> does not distinguish come in the
    order of insertion; \<open>SUM\<close> is exact. Text with NUL bytes and the padding of \<open>CHAR(3)\<close> are not modelled.
  \<^item> Drawn from outside, as streams or functions that every operation takes as a parameter: identifiers, clocks, the text of
    an identifier (\<open>uuid_String\<close>, \<open>uuid_Parse\<close>; properties of reachable states need it to be
    injective), trace contexts, driver faults, what SQS hands over, what the OIDC library says of a
    token, the calls of Fx (\<open>fx_order\<close>, \<open>fx_life\<close>, \<open>worker_moment\<close> say what is relied on), how gin binds a body, floating point numbers, the migration library.
  \<^item> The texts of error messages are left out where the code does not look at them. Durations that are
    only measured are left out of signals. The entries that the waits at start, the workers and the
    loop of the consumer write into the log are left out.
  \<^item> The parser of JSON has fuel of twice the length of the text and one; \<open>fuel_enough\<close> shows that more
    changes nothing. The passes of the publisher are bounded by its policy. The loop of the
    consumer, the ticking loops and the waits at start are partial functions, and that they return
    is a property.

  \<^bold>\<open>Not modelled.\<close> The inside of the libraries (pgx, the SDK of AWS, gin, Fx, the clients of Prometheus and
  OpenTelemetry), the tests and the load test. Interleavings inside a transaction that writes are not modelled, for
  the reason above; nor is the time that the hooks of Fx take.
\<close>

section \<open>Every reachable state\<close>

text \<open>C1: in every state that any interleaving of requests, jobs and faults can reach, the balance
  of every wallet is the sum of its ledger and is not negative, and the ledger rows of a wallet form
  a chain that starts from zero: each starts from the balance its predecessor ended with.\<close>

theorem ledger_explains_balances:
  assumes "(transaction S)\<^sup>*\<^sup>* empty_db d" and "inj S"
  shows "(\<forall>w \<in> set (db_wallet d). sint (wr_balance_minor_units w) = sum_list (map row_signed (ledger_of (wr_id w) d))
      \<and> 0 \<le> sint (wr_balance_minor_units w))
    \<and> (\<forall>i. chained 0 (ledger_of i d))"
proof -
  have ok: "service_ok S d" by (rule reachable_service_ok [OF assms(1) _ assms(2)]) (simp add: service_ok_def)
  have "0 \<le> sint (wr_balance_minor_units w)" if "w \<in> set (db_wallet d)" for w
    using ok that by (auto simp: service_ok_def books_def schema_ok_def wallet_table_ok_def wallet_checks_def int64_simps)
  then show ?thesis
    using ok by (auto simp: service_ok_def books_def balances_ok_def ledger_balance_def posted_books_def ledger_chained_def)
qed

theorem ledger_explains_balances_witness:
  "sum_list (map row_signed (ledger_of 1000 demo_db3)) = 5000 \<and> chained 0 (ledger_of 1000 demo_db3)"
proof -
  have "demo_wallet 5000 3 \<in> set (db_wallet demo_db3)" by (simp add: demo_db3_tables)
  with ledger_explains_balances [OF demo_reach(2) calm_inj] show ?thesis
    by (auto simp: demo_wallet_def)
qed

text \<open>C3: every ledger row was posted by exactly one transaction of the same wallet and amount,
  which is processed, and every processed transaction but a loss posted exactly one row.\<close>

theorem postings_match_transactions:
  assumes "(transaction S)\<^sup>*\<^sup>* empty_db d"
  shows "(\<forall>l \<in> set (db_ledger d). \<exists>!t. t \<in> set (db_tx d) \<and> posted_by t l)
    \<and> (\<forall>t \<in> set (db_tx d). moves_funds t \<longrightarrow> (\<exists>!l. l \<in> set (db_ledger d) \<and> posted_by t l))"
proof -
  have b: "books d" by (rule reachable_books [OF assms]) simp
  have tx: "unique_by (\<lambda>a b. tr_id a = tr_id b) (db_tx d)"
    and led: "unique_by (\<lambda>a b. lr_wallet_id a = lr_wallet_id b \<and> lr_transaction_id a = lr_transaction_id b) (db_ledger d)"
    using b by (simp_all add: books_def schema_ok_def tx_table_ok_def ledger_table_ok_def)
  have "s = t" if "s \<in> set (db_tx d)" "t \<in> set (db_tx d)" "posted_by s l" "posted_by t l" for s t l
    by (rule unique_byD [OF tx that(1,2)]) (use that in \<open>simp_all add: posted_by_def\<close>)
  moreover have "k = l" if "k \<in> set (db_ledger d)" "l \<in> set (db_ledger d)" "posted_by t k" "posted_by t l" for t k l
    by (rule unique_byD [OF led that(1,2)]) (use that in \<open>simp_all add: posted_by_def\<close>)
  ultimately show ?thesis using b unfolding books_def posted_ok_def by blast
qed

theorem postings_match_transactions_witness:
  "\<exists>!l. l \<in> set (db_ledger demo_db3) \<and> posted_by (demo_tx 1100 ''BET'' 1500 3500 (Some ''acme'') (Some ''b1'') None None) l"
proof -
  let ?t = "demo_tx 1100 ''BET'' 1500 3500 (Some ''acme'') (Some ''b1'') None None"
  have "?t \<in> set (db_tx demo_db3)" "moves_funds ?t" by (simp_all add: demo_db3_tables demo_tx_def moves_funds_def)
  with postings_match_transactions [OF demo_reach(2)] show ?thesis by blast
qed

text \<open>C4: an operation is reversed at most once: a processed refund or rollback undoes a processed
  operation of the same wallet, amount and currency that its kind may undo, and no two processed
  reversals refer to the same operation.\<close>

theorem reversed_at_most_once:
  assumes "(transaction S)\<^sup>*\<^sup>* empty_db d" and "a \<in> set (db_tx d)" and "processed_reversal a"
  shows "(\<exists>r \<in> set (db_tx d). undoes a r)
    \<and> (\<forall>b \<in> set (db_tx d). processed_reversal b
         \<longrightarrow> tr_reference_transaction_id b = tr_reference_transaction_id a \<longrightarrow> b = a)"
proof -
  have "books d" by (rule reachable_books [OF assms(1)]) simp
  then show ?thesis using assms(2,3) by (simp add: books_def reversals_ok_def)
qed

theorem reversed_at_most_once_witness:
  "\<exists>r \<in> set (db_tx demo_db3). undoes (demo_tx 1200 ''REFUND'' 1500 5000 (Some ''acme'') (Some ''x1'') (Some ''b1'') (Some 1100)) r"
proof -
  let ?a = "demo_tx 1200 ''REFUND'' 1500 5000 (Some ''acme'') (Some ''x1'') (Some ''b1'') (Some 1100)"
  have "?a \<in> set (db_tx demo_db3)" "processed_reversal ?a"
    by (simp_all add: demo_db3_tables demo_tx_def processed_reversal_def)
  with reversed_at_most_once [OF demo_reach(2)] show ?thesis by blast
qed

text \<open>C5: the journal is double entry: the rows of every transaction sum to zero, so do all rows,
  and the journal account of every wallet holds the balance of the wallet.\<close>

theorem journal_is_double_entry:
  assumes "(transaction S)\<^sup>*\<^sup>* empty_db d" and "inj S"
  shows "(\<forall>i. journal_sum (journal_of i d) = 0) \<and> journal_sum (db_journal d) = 0
    \<and> (\<forall>w \<in> set (db_wallet d). account_balance (wallet_account S (wr_id w)) d = sint (wr_balance_minor_units w))"
proof -
  have ok: "service_ok S d" by (rule reachable_service_ok [OF assms(1) _ assms(2)]) (simp add: service_ok_def)
  then have "journal_balanced d" by (simp add: service_ok_def posted_books_def)
  then show ?thesis
    using ok journal_balanced_total
    by (auto simp: service_ok_def posted_books_def journal_balanced_def accounts_ok_def books_def balances_ok_def)
qed

theorem journal_is_double_entry_witness:
  "account_balance (''WALLET:'' @ show_nat 1000) demo_db2 = 3500 \<and> journal_sum (db_journal demo_db2) = 0"
proof -
  have "demo_wallet 3500 2 \<in> set (db_wallet demo_db2)" by (simp add: demo_db2_tables)
  with journal_is_double_entry [OF demo_reach(1) calm_inj] show ?thesis
    by (auto simp: demo_wallet_def)
qed

text \<open>C6: history is never rewritten: as the service runs on, the ledger, the journal and the inbox
  only get longer, wallets keep their identity, transactions keep what they were created with, and a
  transaction that is processed, rejected or failed never changes again.\<close>

theorem history_is_append_only:
  assumes "(transaction S)\<^sup>*\<^sup>* d d'"
  shows "(\<exists>ls. db_ledger d' = db_ledger d @ ls) \<and> (\<exists>js. db_journal d' = db_journal d @ js)
    \<and> (\<exists>is. db_inbox d' = db_inbox d @ is) \<and> grows same_wallet (db_wallet d) (db_wallet d')
    \<and> grows same_tx (db_tx d) (db_tx d')
    \<and> (\<forall>t \<in> set (db_tx d). terminal_status (tr_status t) \<longrightarrow> t \<in> set (db_tx d'))"
proof -
  have ext: "db_extends d d'" by (rule reachable_extends [OF assms])
  have "t \<in> set (db_tx d')" if "t \<in> set (db_tx d)" "terminal_status (tr_status t)" for t
    using grows_member [of same_tx "db_tx d" "db_tx d'" t] ext that by (auto simp: db_extends_def same_tx_def)
  then show ?thesis using ext by (simp add: db_extends_def grows_eq_prefix)
qed

theorem history_is_append_only_witness: "\<exists>ls. db_ledger demo_db3 = db_ledger demo_db1 @ ls"
  using history_is_append_only [OF rtranclp_trans [OF demo_step2 demo_step3]] by blast

text \<open>C16: at most one wallet exists for a player and a currency, at most one transaction for an
  idempotency key and for an operation of a provider, and at most one record for a message of a
  consumer.\<close>

theorem identities_unique:
  assumes "(transaction S)\<^sup>*\<^sup>* empty_db d"
  shows "(\<forall>a \<in> set (db_wallet d). \<forall>b \<in> set (db_wallet d).
        wr_player_id a = wr_player_id b \<longrightarrow> wr_currency a = wr_currency b \<longrightarrow> a = b)
    \<and> (\<forall>a \<in> set (db_tx d). \<forall>b \<in> set (db_tx d). \<forall>k.
        tr_idempotency_key a = Some k \<longrightarrow> tr_idempotency_key b = Some k \<longrightarrow> a = b)
    \<and> (\<forall>a \<in> set (db_tx d). \<forall>b \<in> set (db_tx d). \<forall>p k.
        tr_provider_id a = Some p \<longrightarrow> tr_external_transaction_id a = Some k \<longrightarrow>
        tr_provider_id b = Some p \<longrightarrow> tr_external_transaction_id b = Some k \<longrightarrow> a = b)
    \<and> (\<forall>a \<in> set (db_inbox d). \<forall>b \<in> set (db_inbox d).
        ir_consumer_name a = ir_consumer_name b \<longrightarrow> ir_message_id a = ir_message_id b \<longrightarrow> a = b)"
proof -
  have ok: "schema_ok d" using reachable_schema [OF assms] by simp
  then have w: "unique_by same_player_currency (db_wallet d)"
    and k: "unique_by (\<lambda>a b. same_key (tr_idempotency_key a) (tr_idempotency_key b)) (db_tx d)"
    and o: "unique_by same_operation (db_tx d)"
    and m: "unique_by (\<lambda>a b. ir_consumer_name a = ir_consumer_name b \<and> ir_message_id a = ir_message_id b) (db_inbox d)"
    by (simp_all add: schema_ok_def table_ok_defs)
  show ?thesis
    using unique_byD [OF w] unique_byD [OF k] unique_byD [OF o] unique_byD [OF m]
    by (simp add: same_player_currency_def same_key_def same_operation_def)
qed

theorem identities_unique_witness:
  "\<exists>!t. t \<in> set (db_tx demo_db3) \<and> tr_provider_id t = Some ''acme'' \<and> tr_external_transaction_id t = Some ''b1''"
proof -
  let ?t = "demo_tx 1100 ''BET'' 1500 3500 (Some ''acme'') (Some ''b1'') None None"
  have "?t \<in> set (db_tx demo_db3)" "tr_provider_id ?t = Some ''acme''" "tr_external_transaction_id ?t = Some ''b1''"
    by (simp_all add: demo_db3_tables demo_tx_def)
  then show ?thesis using identities_unique [OF demo_reach(2)] by blast
qed

text \<open>The journal of a reachable state has no imbalance: the check that the service exports as a
  metric can only answer zero.\<close>

theorem global_imbalance_zero:
  assumes "reaches E' empty_db (wd_db w)" and "inj (uuid_String E')"
    and "journalRepo_GlobalImbalance E q w = (Inr n, w')"
  shows "n = 0"
proof -
  have "service_ok (uuid_String E') (wd_db w)"
    by (rule reachable_service_ok [OF assms(1) _ assms(2)]) (simp add: service_ok_def)
  then have "journal_sum (db_journal (wd_db w)) = 0"
    using journal_balanced_total by (auto simp: service_ok_def posted_books_def)
  moreover have "\<exists>s. n = word_of_int s \<and> s = journal_sum (db_journal (wd_db w))"
    using assms(3) by (auto simp: journalRepo_GlobalImbalance_def run_simps dest!: query_run)
  ultimately show ?thesis by simp
qed

theorem global_imbalance_zero_witness:
  "fst (journalRepo_GlobalImbalance calm_env Pool (demo_world demo_db2 0)) = Inr 0"
proof -
  obtain n w1 where run: "journalRepo_GlobalImbalance calm_env Pool (demo_world demo_db2 0) = (Inr n, w1)"
    using demo_imbalance by (metis prod.collapse)
  from global_imbalance_zero [OF _ calm_inj run] show ?thesis using demo_reach(1) run by simp
qed

section \<open>Processing a wager\<close>

text \<open>C2: an operation takes effect once. After a request has succeeded and the service has run on
  in any way, a request with the same idempotency key that succeeds is answered with the same
  transaction, as a replay, and changes nothing at all.\<close>

theorem exactly_once:
  assumes reach: "reaches E empty_db (wd_db w)"
    and first: "ProcessWager_Execute E cmd w = (Inr out, w1)"
    and later: "reaches E (wd_db w1) (wd_db w2)"
    and again: "ProcessWager_Execute E' cmd' w2 = (Inr out', w3)"
    and key: "pc_IdempotencyKey cmd' = pc_IdempotencyKey cmd"
    and http: "pc_MessageID cmd = []" "pc_MessageID cmd' = []"
  shows "wd_db w3 = wd_db w2 \<and> ps_IdempotentReplay out' \<and> tx_id (ps_Transaction out') = tx_id (ps_Transaction out)
    \<and> tx_payloadHash (ps_Transaction out') = pc_PayloadHash cmd'"
proof -
  have ok: "schema_ok (wd_db w)" using reachable_schema [OF reach] by simp
  then have ok1: "schema_ok (wd_db w1)" using reachable_schema Execute_reaches [OF first] by blast
  then have ok2: "schema_ok (wd_db w2)" using reachable_schema [OF later] by simp
  obtain now where "wager_spec E cmd now (wd_db w) (wd_db w1) out" by (rule Execute_success [OF first])
  then obtain row where row: "find_key (pc_IdempotencyKey cmd) (wd_db w1) = Some row" "tr_id row = tx_id (ps_Transaction out)"
    using wager_spec_key no_message [OF http(1)] ok ok1 unfolding answers_def by blast
  obtain row2 where row2: "find_key (pc_IdempotencyKey cmd') (wd_db w2) = Some row2" "tr_id row2 = tr_id row"
    using find_key_later [OF row(1) reachable_extends [OF later] ok2] key by auto
  obtain now' where "wager_spec E' cmd' now' (wd_db w2) (wd_db w3) out'" by (rule Execute_success [OF again])
  from wager_spec_known [OF this row2(1) http(2)] show ?thesis
    using row row2(2) toDomain_row by (auto simp: replayResult_def)
qed

theorem exactly_once_witness:
  "wd_db (snd (ProcessWager_Execute calm_env demo_bet (demo_world demo_db3 300))) = demo_db3
   \<and> tx_id (ps_Transaction (the (case fst (ProcessWager_Execute calm_env demo_bet (demo_world demo_db3 300)) of
        Inr out \<Rightarrow> Some out | Inl e \<Rightarrow> None))) = tx_id demo_bet_tx"
proof -
  obtain w1 where run: "ProcessWager_Execute calm_env demo_bet (demo_world demo_db1 100) =
     (Inr \<lparr>ps_Transaction = demo_bet_tx, ps_Balance = \<lparr>minorUnits = 3500, moneyCurrency = ''BRL''\<rparr>,
          ps_IdempotentReplay = False\<rparr>, w1)" "wd_db w1 = demo_db2"
    by (rule demo_bet_run)
  have "pc_MessageID demo_bet = []" by (simp add: demo_bet_def)
  with exactly_once [OF _ run(1) _ demo_bet_again] demo_step1 demo_step3 run(2) show ?thesis
    by (simp add: demo_bet_again)
qed

text \<open>C11: a retry is answered: once a request has ended in a terminal transaction, however long the
  service runs on, the same request finds that transaction and is answered with it, whenever the
  driver does not fail its one statement.\<close>

theorem retry_is_answered:
  assumes reach: "reaches E empty_db (wd_db w)"
    and first: "ProcessWager_Execute E cmd w = (Inr out, w1)" and "Tx_IsTerminal (ps_Transaction out)"
    and later: "reaches E (wd_db w1) (wd_db w2)"
    and "driver_fault E' (wd_calls w2) = None" and http: "pc_MessageID cmd = []"
  shows "\<exists>t w3. ProcessWager_Execute E' cmd w2 = (Inr (replayResult t), w3) \<and> wd_db w3 = wd_db w2
    \<and> tx_id t = tx_id (ps_Transaction out) \<and> tx_status t = tx_status (ps_Transaction out)"
proof -
  have ok: "schema_ok (wd_db w)" using reachable_schema [OF reach] by simp
  then have ok1: "schema_ok (wd_db w1)" using reachable_schema Execute_reaches [OF first] by blast
  then have ok2: "schema_ok (wd_db w2)" using reachable_schema [OF later] by simp
  obtain now where "wager_spec E cmd now (wd_db w) (wd_db w1) out" by (rule Execute_success [OF first])
  then obtain row where "find_key (pc_IdempotencyKey cmd) (wd_db w1) = Some row" "answers cmd row (ps_Transaction out)"
    using wager_spec_key no_message [OF http] ok ok1 by blast
  then obtain row2 where key: "find_key (pc_IdempotencyKey cmd) (wd_db w2) = Some row2"
    and ans: "answers cmd row2 (ps_Transaction out)"
    using answers_later assms(3) reachable_extends [OF later] ok2 by blast
  obtain t where t: "toDomain row2 = Inr t" "tx_id t = tx_id (ps_Transaction out)"
    "tx_status t = status_of_string (tr_status row2)" "tx_payloadHash t = pc_PayloadHash cmd"
    using answers_readable [OF ok2 _ ans] find_keyD [OF key] by blast
  have "tx_status t = tx_status (ps_Transaction out)" using t(3) ans assms(3)
    by (auto simp: answers_def Tx_IsTerminal_def Status_IsTerminal_def status_of_string_def)
  moreover have "Tx_IsTerminal t" using calculation assms(3) by (simp add: Tx_IsTerminal_def)
  ultimately show ?thesis using Execute_replays [OF key t(1,4) _ http assms(5)] t(2) by auto
qed

theorem retry_is_answered_witness:
  "\<exists>t w3. ProcessWager_Execute calm_env demo_bet (demo_world demo_db3 300) = (Inr (replayResult t), w3) \<and> tx_id t = 1100"
proof -
  obtain w1 where run: "ProcessWager_Execute calm_env demo_bet (demo_world demo_db1 100) =
     (Inr \<lparr>ps_Transaction = demo_bet_tx, ps_Balance = \<lparr>minorUnits = 3500, moneyCurrency = ''BRL''\<rparr>,
          ps_IdempotentReplay = False\<rparr>, w1)" "wd_db w1 = demo_db2"
    by (rule demo_bet_run)
  have facts: "tx_id demo_bet_tx = 1100" "Tx_IsTerminal demo_bet_tx" "pc_MessageID demo_bet = []"
    by (simp_all add: demo_bet_tx_def demo_bet_def Tx_IsTerminal_def Status_IsTerminal_def)
  from retry_is_answered [OF _ run(1), of "demo_world demo_db3 300" calm_env] show ?thesis
    using demo_step1 demo_step3 run(2) facts by auto
qed

text \<open>C10: a message that was handled is not handled again: a request that carries it succeeds only
  with the payload that was recorded, is answered with the transaction the inbox names, and changes
  nothing.\<close>

theorem message_handled_once:
  assumes "ProcessWager_Execute E cmd w = (Inr out, w')" and "find_message cmd (wd_db w) = Some rec"
  shows "wd_db w' = wd_db w \<and> ir_payload_hash rec = pc_PayloadHash cmd \<and> ps_IdempotentReplay out
    \<and> tx_id (ps_Transaction out) = ir_wager_transaction_id rec"
  using Execute_success [OF assms(1)] wager_spec_message assms(2) by metis

theorem message_handled_once_witness:
  "wd_db (snd (ProcessWager_Execute calm_env demo_message (demo_world demo_db4 400))) = demo_db4"
proof -
  obtain w' where run: "ProcessWager_Execute calm_env demo_message (demo_world demo_db4 400) =
     (Inr \<lparr>ps_Transaction = demo_bet_tx, ps_Balance = \<lparr>minorUnits = 3500, moneyCurrency = ''BRL''\<rparr>,
          ps_IdempotentReplay = True\<rparr>, w')"
    using demo_message_again by (metis prod.collapse)
  then show ?thesis using message_handled_once [OF run] demo_message_found by simp
qed

text \<open>C7: \<open>Execute\<close> refines its specification, and it is atomic: a call that succeeds made one step
  of the specification; a call that fails left the tables as they were, unless its commit went
  unacknowledged, and then it made such a step or none.\<close>

theorem execute_refines_spec:
  assumes "ProcessWager_Execute E cmd w = (r, w')"
  shows "case r of
      Inr out \<Rightarrow> \<exists>now. wager_spec E cmd now (wd_db w) (wd_db w') out
    | Inl e \<Rightarrow> wd_db w' = wd_db w
        \<or> unacknowledged E e \<and> (\<exists>now out. wager_spec E cmd now (wd_db w) (wd_db w') out)"
  using ProcessWager_effect [OF assms] by (auto simp: wager_effect_def split: sum.splits)

theorem execute_refines_spec_witness:
  "\<exists>now. wager_spec calm_env demo_bet now demo_db1 demo_db2
     \<lparr>ps_Transaction = demo_bet_tx, ps_Balance = \<lparr>minorUnits = 3500, moneyCurrency = ''BRL''\<rparr>, ps_IdempotentReplay = False\<rparr>"
proof -
  obtain w1 where "ProcessWager_Execute calm_env demo_bet (demo_world demo_db1 100) =
     (Inr \<lparr>ps_Transaction = demo_bet_tx, ps_Balance = \<lparr>minorUnits = 3500, moneyCurrency = ''BRL''\<rparr>,
          ps_IdempotentReplay = False\<rparr>, w1)" "wd_db w1 = demo_db2"
    by (rule demo_bet_run)
  then show ?thesis using execute_refines_spec by fastforce
qed

text \<open>C8: the outcome of a fresh bet is decided by the wallet: a foreign currency and an amount above
  the balance are rejected, with their codes, and leave the money alone; any other bet is processed
  and takes exactly its amount from this wallet only, with one ledger row.\<close>

theorem bet_outcome:
  assumes "reaches E empty_db (wd_db w)" and "ProcessWager_Execute E cmd w = (Inr out, w')"
    and "\<not> ps_IdempotentReplay out" and "pc_Kind cmd = Bet"
    and "row \<in> set (db_wallet (wd_db w))" and "wr_id row = pc_WalletID cmd"
  shows "if moneyCurrency (pc_Money cmd) \<noteq> wr_currency row
      then rejected_with FailureCurrencyMismatch out \<and> funds_untouched (wd_db w) (wd_db w')
    else if sint (wr_balance_minor_units row) < money_minor (pc_Money cmd)
      then rejected_with FailureInsufficientBalance out \<and> funds_untouched (wd_db w) (wd_db w')
    else tx_status (ps_Transaction out) = Processed \<and> (\<exists>now. funds_moved cmd (- 1) now (wd_db w) (wd_db w'))
      \<and> money_minor (ps_Balance out) = sint (wr_balance_minor_units row) - money_minor (pc_Money cmd)"
proof -
  have "schema_ok (wd_db w)" using reachable_schema [OF assms(1)] by simp
  moreover obtain now where "wager_spec E cmd now (wd_db w) (wd_db w') out" by (rule Execute_success [OF assms(2)])
  ultimately show ?thesis using wager_spec_bet assms(3-6) by (metis (full_types))
qed

theorem bet_outcome_witness: "\<exists>now. funds_moved demo_bet (- 1) now demo_db1 demo_db2"
proof -
  obtain w1 where run: "ProcessWager_Execute calm_env demo_bet (demo_world demo_db1 100) =
     (Inr \<lparr>ps_Transaction = demo_bet_tx, ps_Balance = \<lparr>minorUnits = 3500, moneyCurrency = ''BRL''\<rparr>,
          ps_IdempotentReplay = False\<rparr>, w1)" "wd_db w1 = demo_db2"
    by (rule demo_bet_run)
  from bet_outcome [OF _ run(1), of "demo_wallet 5000 1"] show ?thesis
    using demo_step1 run(2)
    by (simp add: demo_bet_def demo_wallet_def demo_db1_tables money_minor_def)
qed

text \<open>C9: a fresh operation of any kind moves the wallet only when it ends processed and is no loss,
  then by exactly its amount, in a direction its kind allows, and together with one ledger row;
  otherwise wallets, ledger and journal stay as they are.\<close>

theorem funds_follow_outcome:
  assumes "reaches E empty_db (wd_db w)" and "ProcessWager_Execute E cmd w = (Inr out, w')"
    and "\<not> ps_IdempotentReplay out"
  shows "if tx_status (ps_Transaction out) = Processed \<and> pc_Kind cmd \<noteq> Loss
    then \<exists>dir now. posts (kind_string (pc_Kind cmd)) (direction_string dir)
      \<and> dir \<in> {Debit, Credit} \<and> funds_moved cmd (direction_sign dir) now (wd_db w) (wd_db w')
    else funds_untouched (wd_db w) (wd_db w')"
proof -
  have ok: "schema_ok (wd_db w)" using reachable_schema [OF assms(1)] by simp
  obtain now where spec: "wager_spec E cmd now (wd_db w) (wd_db w') out" by (rule Execute_success [OF assms(2)])
  from wager_spec_funds [OF spec assms(3) ok] show ?thesis by (auto split: if_splits)
qed

theorem funds_follow_outcome_witness:
  "\<exists>dir now. posts ''BET'' (direction_string dir) \<and> funds_moved demo_bet (direction_sign dir) now demo_db1 demo_db2"
proof -
  obtain w1 where run: "ProcessWager_Execute calm_env demo_bet (demo_world demo_db1 100) =
     (Inr \<lparr>ps_Transaction = demo_bet_tx, ps_Balance = \<lparr>minorUnits = 3500, moneyCurrency = ''BRL''\<rparr>,
          ps_IdempotentReplay = False\<rparr>, w1)" "wd_db w1 = demo_db2"
    by (rule demo_bet_run)
  have facts: "tx_status demo_bet_tx = Processed" "pc_Kind demo_bet = Bet"
    by (simp_all add: demo_bet_tx_def demo_bet_def)
  from funds_follow_outcome [OF _ run(1)] show ?thesis using demo_step1 run(2) facts by auto
qed

section \<open>Decisions and the other use cases\<close>

text \<open>C12: the decision on a refund or a rollback changes no table and is the reference decision
  \<open>reversal_decision\<close> on the operation that the provider names: it waits while there is none or it
  is pending, rejects it when it failed, differs in player, wallet, round or money, may not be undone
  by this kind or was undone before, and is processed otherwise, with the reference resolved.\<close>

theorem reversal_decision_correct:
  assumes "decideReversal E q tx w = (Inr (dec, tx'), w')"
  shows "wd_db w' = wd_db w
    \<and> (case find_operation (tx_providerID tx) (tx_referenceExternalTxID tx) (wd_db w) of
         None \<Rightarrow> dec = decision_pending \<and> tx' = tx
       | Some row \<Rightarrow> \<exists>ref. toDomain row = Inr ref
           \<and> dec = reversal_decision tx ref (already_reversed (tx_id ref) (wd_db w))
           \<and> tx' = (if dc_kind dec = DecisionProcess then tx\<lparr>tx_referenceTransactionID := tx_id ref\<rparr> else tx))"
proof -
  have "wd_db w' = wd_db w" "decides_reversal (wd_db w) tx dec tx'" using decideReversal_run [OF assms] by simp_all
  then show ?thesis
    by (auto elim!: decides_reversalE simp: ResolveReference_Inr_iff split: if_splits)
qed

theorem reversal_decision_correct_witness:
  "\<exists>row ref. find_operation ''acme'' ''b1'' demo_db2 = Some row \<and> toDomain row = Inr ref
     \<and> reversal_decision refund_tx ref (already_reversed (tx_id ref) demo_db2) = decision_process Credit"
proof -
  obtain w1 where run: "decideReversal calm_env Pool refund_tx (demo_world demo_db2 200)
      = (Inr (decision_process Credit, refund_tx\<lparr>tx_referenceTransactionID := 1100\<rparr>), w1)"
    using refund_decided by (metis prod.collapse)
  have refund: "tx_providerID refund_tx = ''acme''" "tx_referenceExternalTxID refund_tx = ''b1''"
    by (simp_all add: refund_tx_def demo_bet_tx_def)
  from reversal_decision_correct [OF run] show ?thesis
    by (auto simp: refund decision_process_def decision_pending_def split: option.splits)
qed

text \<open>C14: opening a wallet refines its specification and is atomic: a call that succeeds stored
  the wallet, and with a positive balance its funding transaction, ledger row, journal movement and
  two events; a call that fails stored nothing, unless its commit went unacknowledged.\<close>

theorem opening_refines_spec:
  assumes "OpenWallet_Execute E cmd w = (r, w')"
  shows "case r of
      Inr v \<Rightarrow> \<exists>now. open_spec E cmd now (wd_db w) (wd_db w') v
    | Inl e \<Rightarrow> wd_db w' = wd_db w
        \<or> unacknowledged E e \<and> (\<exists>now v. open_spec E cmd now (wd_db w) (wd_db w') v)"
proof -
  have "within E (open_wallet_body E cmd (clock_Now E (wd_clock w))) (w\<lparr>wd_clock := Suc (wd_clock w)\<rparr>) = (r, w')"
    using assms by (simp add: OpenWallet_Execute_def bindP_def read_clock_def)
  from within_refines [OF this, of "open_spec E cmd (clock_Now E (wd_clock w))"] open_wallet_body_run
  show ?thesis by (auto split: sum.splits)
qed

theorem opening_refines_spec_witness: "\<exists>now v. open_spec calm_env demo_open now empty_db demo_db1 v"
proof -
  obtain w1 where run: "OpenWallet_Execute calm_env demo_open (start_world empty_db) = (Inr demo_opened, w1)"
    and "wd_db w1 = demo_db1"
    using demo_open_answer demo_db1_def by (metis prod.collapse)
  then show ?thesis using opening_refines_spec [OF run] by (auto simp: start_world_def)
qed

text \<open>C13: one pass over a pending reversal refines its specification: it leaves a settled transaction
  alone, records the attempt and its next time, rejects the reversal once the attempts or its time
  to live are used up, or settles it by the decision on its reference; a pass that fails stored
  nothing, unless its commit went unacknowledged.\<close>

theorem pending_reference_refines_spec:
  assumes "settleOne E p rec w = (r, w')"
  shows "case r of
      Inr moved \<Rightarrow> \<exists>now. reference_spec E p rec now (wd_db w) (wd_db w') moved
    | Inl e \<Rightarrow> wd_db w' = wd_db w
        \<or> unacknowledged E e \<and> (\<exists>now moved. reference_spec E p rec now (wd_db w) (wd_db w') moved)"
proof -
  have "within E (settle_one_body E p rec (clock_Now E (wd_clock w))) (w\<lparr>wd_clock := Suc (wd_clock w)\<rparr>) = (r, w')"
    using assms by (simp add: settleOne_def bindP_def read_clock_def)
  from within_refines [OF this, of "reference_spec E p rec (clock_Now E (wd_clock w))"] settle_one_body_run
  show ?thesis by (auto split: sum.splits)
qed

theorem pending_reference_refines_spec_witness:
  "\<exists>now d. reference_spec calm_env DefaultReferencePolicy (waiting_record 9) now waiting_db d True"
proof -
  obtain w1 where run: "settleOne calm_env DefaultReferencePolicy (waiting_record 9) (demo_world waiting_db 300) = (Inr True, w1)"
    using last_pass by (metis prod.collapse)
  then show ?thesis using pending_reference_refines_spec [OF run] by auto
qed

lemma reaches_service: "reaches E d d' \<Longrightarrow> (service_step (uuid_String E))\<^sup>*\<^sup>* d d'"
  by (erule mono_rtranclp [rule_format, rotated]) (rule transaction_refines)

text \<open>C15: every use case and job, every HTTP request and every message of the queue runs as a sequence
  of steps of the abstract service, whatever the faults, the clock and the result.\<close>

theorem use_cases_refine_service:
  assumes "ProcessWager_Execute E cmd w = (r1, w') \<or> OpenWallet_Execute E ocmd w = (r2, w')
    \<or> ResolveReferences_RunOnce E p w = (r3, w') \<or> PublishOutbox_RunOnce E pp pub owner w = (r4, w')
    \<or> serve H E ready route rq w = (r5, w') \<or> process E consumer body w = (r6, w')"
  shows "(service_step (uuid_String E))\<^sup>*\<^sup>* (wd_db w) (wd_db w')"
  using assms reaches_service keepsD [OF keeps_reaches_Execute] keepsD [OF keeps_reaches_OpenWallet]
    keepsD [OF keeps_reaches_ResolveReferences] keepsD [OF keeps_reaches_PublishOutbox]
    keepsD [OF keeps_reaches_serve] keepsD [OF keeps_process] rtranclp.rtrancl_refl
  by metis

theorem use_cases_refine_service_witness:
  "(service_step (uuid_String calm_env))\<^sup>*\<^sup>* demo_db1 demo_db2"
proof -
  obtain w1 where "ProcessWager_Execute calm_env demo_bet (demo_world demo_db1 100) =
     (Inr \<lparr>ps_Transaction = demo_bet_tx, ps_Balance = \<lparr>minorUnits = 3500, moneyCurrency = ''BRL''\<rparr>,
          ps_IdempotentReplay = False\<rparr>, w1)" "wd_db w1 = demo_db2"
    by (rule demo_bet_run)
  then show ?thesis using use_cases_refine_service [OF disjI1] demo_world_db by metis
qed

section \<open>Publishing\<close>

text \<open>A run of the publisher publishes at most its batch size times its passes.\<close>

theorem publish_run_bounded:
  assumes "PublishOutbox_RunOnce E p pub owner w = (Inr (n, err), w')" and "schema_ok (wd_db w)"
  shows "n \<le> pp_MaxPassesPerRun p * nat (pp_BatchSize p)"
  using run_passes_count [OF assms(1) [unfolded PublishOutbox_RunOnce_def] assms(2)] by simp

theorem publish_run_bounded_witness: "(1 :: nat) \<le> 20 * 100"
  using publish_run_bounded [OF event_published] event_db_ok by (simp add: DefaultPublishPolicy_def)

text \<open>C23: an event that the publisher refuses whenever it is asked is never marked published by a
  run, whatever else happens in it.\<close>

theorem refused_event_stays_unpublished:
  assumes "PublishOutbox_RunOnce E p pub owner w = (r, w')"
    and "\<And>rec n. ob_EventID rec = i \<Longrightarrow> pub rec n \<noteq> None"
    and "\<And>row. row \<in> set (db_outbox (wd_db w)) \<Longrightarrow> or_event_id row = i \<Longrightarrow> or_published_at row = None"
    and "row \<in> set (db_outbox (wd_db w'))" and "or_event_id row = i"
  shows "or_published_at row = None"
proof -
  have "keeps (accepted_only pub (wd_db w)) (PublishOutbox_RunOnce E p pub owner)"
    by (intro keeps_RunOnce accepted_only_keeps)
  moreover have "accepted_only pub (wd_db w) (wd_db w)" by (auto simp: accepted_only_def)
  ultimately have "accepted_only pub (wd_db w) (wd_db w')" using assms(1) keepsD by blast
  then show ?thesis using assms(2-5) unfolding accepted_only_def by metis
qed

theorem refused_event_stays_unpublished_witness:
  "or_published_at (sample_event\<lparr>or_attempts := 1, or_next_attempt_at := 1001000000\<rparr>) = None"
  by (rule refused_event_stays_unpublished [OF event_refused, of 5]) (simp_all add: sample_event_def event_db_def)

text \<open>A claim returns at most the batch size of events, all unpublished and locked by their
  owner, and until the lock runs out no other claim returns any of them.\<close>

theorem claimed_batch_is_locked:
  assumes "schema_ok d" and "claim_outbox owner limit until t now d = Inr (rs, d')"
    and "timestamptz t2 \<le> timestamptz until"
  shows "length rs \<le> nat limit \<and> (\<forall>r \<in> set rs. or_published_at r = None \<and> or_locked_by r = Some owner)
    \<and> (\<forall>owner2 limit2 until2 now2 rs2 d2. claim_outbox owner2 limit2 until2 t2 now2 d' = Inr (rs2, d2)
         \<longrightarrow> or_event_id ` set rs \<inter> or_event_id ` set rs2 = {})"
proof -
  have ok: "outbox_table_ok d" using assms(1) by (simp add: schema_ok_def)
  have rs: "rs = map (claim_upd owner until) (filter (claim_hit limit t d) (db_outbox d))"
    using assms(2) by (simp add: claim_outbox_Inr)
  have "\<forall>r \<in> set rs. or_published_at r = None"
    using claim_hit_row [OF ok] claimed_rows_subset by (fastforce simp: rs claim_upd_def claimable_def)
  moreover have "or_event_id ` set rs \<inter> or_event_id ` set rs2 = {}"
    if "claim_outbox owner2 limit2 until2 t2 now2 d' = Inr (rs2, d2)" for owner2 limit2 until2 now2 rs2 d2
  proof -
    have "rs2 = map (claim_upd owner2 until2) (filter (claim_hit limit2 t2 d') (db_outbox d'))"
      using that claim_outbox_Inr by blast
    moreover have "or_event_id x \<noteq> or_event_id r" if "x \<in> set rs" "claim_hit limit2 t2 d' r" for x r
    proof -
      from that(2) obtain s where s: "s \<in> set (claimed_rows limit2 t2 d')" "or_event_id r = or_event_id s"
        unfolding claim_hit_def by (rule imageE)
      show ?thesis using claim_excludes [OF assms(3,2) s(1)] that(1) by (simp add: s(2) image_iff) metis
    qed
    ultimately show ?thesis by (auto simp: disjoint_iff)
  qed
  moreover have "length rs \<le> nat limit" using claim_length [OF ok, of limit t] rs by simp
  moreover have "\<forall>r \<in> set rs. or_locked_by r = Some owner" by (simp add: rs claim_upd_def)
  ultimately show ?thesis by blast
qed

theorem claimed_batch_is_locked_witness:
  "length [claim_upd ''w'' 30000000000 sample_event] \<le> nat 100"
proof -
  have "claim_outbox ''w'' 100 30000000000 1000000 0 event_db
      = Inr ([claim_upd ''w'' 30000000000 sample_event],
          event_db\<lparr>db_outbox := [claim_upd ''w'' 30000000000 sample_event]\<rparr>)"
    by (simp add: claim_upd_def event_db_def sample_event_def eval_simps)
  from claimed_batch_is_locked [OF event_db_ok this, of 1000000] show ?thesis by (simp add: timestamptz_def)
qed

section \<open>Queries and stored values\<close>

text \<open>Whatever the service does between two moments, the wallets of the first are there at the second.\<close>

lemma wallet_ids_stay:
  assumes "reaches E d d'" "row \<in> set (db_wallet d)"
  shows "wr_id row \<in> wr_id ` set (db_wallet d')"
proof -
  have "grows same_wallet (db_wallet d) (db_wallet d')" using reachable_extends [OF assms(1)] by (simp add: db_extends_def)
  from grows_member [OF this assms(2)] show ?thesis by (auto simp: same_wallet_def image_iff)
qed

text \<open>C17: what \<open>Reconcile\<close> answers is true of two moments. Its transaction locks nothing, so its second
  statement may see the tables after any steps of other transactions that the first did not see. The stored
  balance is then the ledger sum of the wallet at the first read, the calculated one and the number of
  entries those at the second, the difference is exactly the one minus the other, and the answer is
  \<open>Consistent\<close> exactly if the two sums agree: always when no movement of the wallet came between, and not
  when one did that changed the balance, although the books are in order at both moments. Nothing is
  changed, and only internal callers get an answer.\<close>

theorem reconcile_compares_two_reads:
  assumes "reaches E' empty_db (wd_db w)" and between: "reaches E'' (wd_db w) (later (wd_db w))"
    and same: "uuid_String E'' = uuid_String E'"
    and run: "Queries_Reconcile E later who i w = (Inr rr, w')"
  shows "id_Internal who \<and> wd_db w' = wd_db w
    \<and> sint (minorUnits (rr_StoredBalance rr)) = sum_list (map row_signed (ledger_of i (wd_db w)))
    \<and> sint (minorUnits (rr_CalculatedBalance rr)) = sum_list (map row_signed (ledger_of i (later (wd_db w))))
    \<and> sint (minorUnits (rr_Difference rr))
        = sint (minorUnits (rr_StoredBalance rr)) - sint (minorUnits (rr_CalculatedBalance rr))
    \<and> (rr_Consistent rr \<longleftrightarrow>
         sum_list (map row_signed (ledger_of i (wd_db w))) = sum_list (map row_signed (ledger_of i (later (wd_db w)))))
    \<and> rr_CheckedEntries rr = int (length (ledger_of i (later (wd_db w))))"
proof -
  have "books (wd_db w)" by (rule reachable_books [OF assms(1)]) simp
  moreover have "books (later (wd_db w))"
    using reachable_books [OF rtranclp_trans [OF assms(1) between [unfolded same]]] by simp
  ultimately show ?thesis
    using Reconcile_run [OF run _ _ wallet_ids_stay [OF between]] by (auto simp: compares_def ledger_balance_def)
qed

theorem reconcile_compares_two_reads_witness:
  "\<exists>rr. fst (Queries_Reconcile calm_env (\<lambda>_. demo_db3) \<lparr>id_ProviderID = [], id_Internal = True\<rparr> 1000
        (demo_world demo_db2 300)) = Inr rr
     \<and> sint (minorUnits (rr_StoredBalance rr)) = 3500 \<and> sint (minorUnits (rr_CalculatedBalance rr)) = 5000
     \<and> \<not> rr_Consistent rr \<and> rr_CheckedEntries rr = 3"
proof -
  obtain rr w1 where run: "Queries_Reconcile calm_env (\<lambda>_. demo_db3) \<lparr>id_ProviderID = [], id_Internal = True\<rparr> 1000
      (demo_world demo_db2 300) = (Inr rr, w1)"
    using demo_reconciled by (metis prod.collapse)
  from reconcile_compares_two_reads [OF _ _ refl run] show ?thesis
    using demo_reach(1) demo_step3 run
    by (auto simp: ledger_of_def demo_db2_tables demo_db3_tables demo_ledger_def row_signed_def)
qed

text \<open>C24: a client that follows the cursors of the ledger sees every entry of the wallet exactly
  once, in the order of time and identifier, when the database answers: no page repeats or skips a
  row, and the last cursor is empty. Times must be printable (years 0 to 9999), and \<open>uuid.Parse\<close>
  must read what \<open>UUID.String\<close> prints.\<close>

theorem pages_cover_ledger:
  assumes "reaches E' empty_db (wd_db w)" and "id_Internal who" and "0 < limit" "limit \<le> 200"
    and "\<forall>c. driver_fault E c = None" and "\<forall>u. uuid_Parse E (uuid_String E u) = Some u"
    and "\<forall>l \<in> set (ledger_of i (wd_db w)). printable (lr_created_at l)"
    and "length (ledger_of i (wd_db w)) \<le> n * nat limit" "0 < n"
  shows "\<exists>es w'. read_pages E who i limit n [] w = (Inr es, w')
    \<and> map ledger_to_row es = sort_key ledger_key (ledger_of i (wd_db w)) \<and> wd_db w' = wd_db w"
proof -
  have "ledger_times_ok (wd_db w)"
    by (rule times.transactions_keep [OF assms(1)]) (simp add: ledger_times_ok_def empty_db_def)
  moreover have "schema_ok (wd_db w)" using reachable_schema [OF assms(1)] by simp
  ultimately have "pageable E i (wd_db w)" using assms(6,7) by (simp add: pageable_def)
  from read_pages_all [OF this refl, of 0 "[]" who limit n] show ?thesis
    using assms(2-5,8,9) by (simp add: cursor_at_def)
qed

theorem pages_cover_ledger_witness:
  "\<exists>es w'. read_pages calm_env \<lparr>id_ProviderID = [], id_Internal = True\<rparr> 1000 2 2 [] (demo_world demo_db3 300) = (Inr es, w')
     \<and> map ledger_to_row es = sort_key ledger_key (db_ledger demo_db3)"
proof -
  have ledger: "ledger_of 1000 demo_db3 = db_ledger demo_db3"
    by (simp add: ledger_of_def demo_db3_tables demo_ledger_def)
  have "printable 1000000" by code_simp
  then have "\<forall>l \<in> set (db_ledger demo_db3). printable (lr_created_at l)"
    by (simp add: demo_db3_tables demo_ledger_def)
  moreover have "length (db_ledger demo_db3) \<le> 2 * nat 2" by (simp add: demo_db3_tables)
  moreover have "\<forall>u. uuid_Parse calm_env (uuid_String calm_env u) = Some u" using calm_uuid_round_trip by blast
  ultimately show ?thesis
    using pages_cover_ledger [of calm_env "demo_world demo_db3 300" "\<lparr>id_ProviderID = [], id_Internal = True\<rparr>" 2 calm_env 1000 2]
      demo_reach(2) ledger by simp blast
qed



text \<open>C38: a transaction is read back as it was stored, with its times cut to microseconds.\<close>

theorem stored_transaction_round_trip:
  assumes "tx_storable t"
  shows "toDomain (tx_to_row t now) = Inr (tx_stored_form t)"
  using assms by (rule toDomain_tx_to_row)

theorem stored_transaction_round_trip_witness:
  "toDomain (tx_to_row demo_bet_tx 5) = Inr demo_bet_tx"
proof -
  have "tx_storable demo_bet_tx"
    by (simp add: tx_storable_def demo_bet_tx_def tx_wf_def tx_origin_def tx_outcome_def
        tx_external_fields_def Kind_IsValid_def Kind_RequiresReference_def money_minor_def known_failure_def)
  moreover have "tx_stored_form demo_bet_tx = demo_bet_tx" by (simp add: tx_stored_form_def demo_bet_tx_def)
  ultimately show ?thesis using stored_transaction_round_trip by metis
qed

text \<open>So is a wallet.\<close>

theorem stored_wallet_round_trip:
  assumes "wallet_wf w" and "1 \<le> sint (wlt_version w)"
  shows "wallet_of_row (wallet_to_row w) =
    Inr (w\<lparr>wlt_createdAt := timestamptz (wlt_createdAt w), wlt_updatedAt := timestamptz (wlt_updatedAt w)\<rparr>)"
  using assms by (rule wallet_of_row_to_row)

theorem stored_wallet_round_trip_witness: "wallet_of_row (wallet_to_row demo_opened) = Inr demo_opened"
  using stored_wallet_round_trip [of demo_opened]
  by (simp add: demo_opened_def wallet_wf_def currencyPattern_def is_upper_def int64_simps wallet_minor_def)

end
